theory Spec2Isabelle
  imports Complex_Main "HOL-Library.Word" "HOL-Library.Monad_Syntax"
begin

unbundle bit_operations_syntax

section \<open>DroneComms: field codec\<close>

text \<open>
  A byte vector (\<open>std::vector<uint8_t>\<close>) is a list of 8-bit words.  A
  \<open>const_iterator\<close> into a vector is the pair of the vector and an index; every decoder
  takes both and returns the decoded value with the advanced index.  Dereferencing an
  iterator at or beyond the end of the vector is undefined behaviour in the source and is
  the value \<open>None\<close> here.

  \<open>float\<close> and \<open>double\<close> values are carried as their IEEE-754 bit patterns (the source
  moves them on and off the wire with \<open>reinterpret_cast\<close>).
\<close>

type_synonym byte = "8 word"
type_synonym float32 = "32 word"
type_synonym float64 = "64 word"

subsection \<open>Standard-type field encoders\<close>

definition encodeField_uint8 :: "byte list \<Rightarrow> 8 word \<Rightarrow> byte list" where
  "encodeField_uint8 Buffer x = Buffer @ [x]"

definition encodeField_uint16 :: "byte list \<Rightarrow> 16 word \<Rightarrow> byte list" where
  "encodeField_uint16 Buffer x = Buffer @ [ucast (drop_bit 8 x), ucast x]"

definition encodeField_uint32 :: "byte list \<Rightarrow> 32 word \<Rightarrow> byte list" where
  "encodeField_uint32 Buffer x =
     Buffer @ [ucast (drop_bit 24 x), ucast (drop_bit 16 x), ucast (drop_bit 8 x), ucast x]"

definition encodeField_uint64 :: "byte list \<Rightarrow> 64 word \<Rightarrow> byte list" where
  "encodeField_uint64 Buffer x =
     Buffer @ [ucast (drop_bit 56 x), ucast (drop_bit 48 x), ucast (drop_bit 40 x),
               ucast (drop_bit 32 x), ucast (drop_bit 24 x), ucast (drop_bit 16 x),
               ucast (drop_bit 8 x), ucast x]"

definition encodeField_float32 :: "byte list \<Rightarrow> float32 \<Rightarrow> byte list" where
  "encodeField_float32 Buffer x = encodeField_uint32 Buffer x"

definition encodeField_float64 :: "byte list \<Rightarrow> float64 \<Rightarrow> byte list" where
  "encodeField_float64 Buffer x = encodeField_uint64 Buffer x"

subsection \<open>Standard-type field decoders\<close>

definition decodeField_uint8 :: "byte list \<Rightarrow> nat \<Rightarrow> (8 word \<times> nat) option" where
  "decodeField_uint8 v Iter = (if Iter < length v then Some (v ! Iter, Iter + 1) else None)"

definition decodeField_uint16 :: "byte list \<Rightarrow> nat \<Rightarrow> (16 word \<times> nat) option" where
  "decodeField_uint16 v Iter =
     (case decodeField_uint8 v Iter of None \<Rightarrow> None | Some (b0, i1) \<Rightarrow>
      case decodeField_uint8 v i1 of None \<Rightarrow> None | Some (b1, i2) \<Rightarrow>
        Some (push_bit 8 (ucast b0) + ucast b1, i2))"

definition decodeField_uint32 :: "byte list \<Rightarrow> nat \<Rightarrow> (32 word \<times> nat) option" where
  "decodeField_uint32 v Iter =
     (case decodeField_uint8 v Iter of None \<Rightarrow> None | Some (b0, i1) \<Rightarrow>
      case decodeField_uint8 v i1 of None \<Rightarrow> None | Some (b1, i2) \<Rightarrow>
      case decodeField_uint8 v i2 of None \<Rightarrow> None | Some (b2, i3) \<Rightarrow>
      case decodeField_uint8 v i3 of None \<Rightarrow> None | Some (b3, i4) \<Rightarrow>
        Some (push_bit 8 (push_bit 8 (push_bit 8 (ucast b0) + ucast b1) + ucast b2) + ucast b3,
              i4))"

definition decodeField_uint64 :: "byte list \<Rightarrow> nat \<Rightarrow> (64 word \<times> nat) option" where
  "decodeField_uint64 v Iter =
     (case decodeField_uint8 v Iter of None \<Rightarrow> None | Some (b0, i1) \<Rightarrow>
      case decodeField_uint8 v i1 of None \<Rightarrow> None | Some (b1, i2) \<Rightarrow>
      case decodeField_uint8 v i2 of None \<Rightarrow> None | Some (b2, i3) \<Rightarrow>
      case decodeField_uint8 v i3 of None \<Rightarrow> None | Some (b3, i4) \<Rightarrow>
      case decodeField_uint8 v i4 of None \<Rightarrow> None | Some (b4, i5) \<Rightarrow>
      case decodeField_uint8 v i5 of None \<Rightarrow> None | Some (b5, i6) \<Rightarrow>
      case decodeField_uint8 v i6 of None \<Rightarrow> None | Some (b6, i7) \<Rightarrow>
      case decodeField_uint8 v i7 of None \<Rightarrow> None | Some (b7, i8) \<Rightarrow>
        Some (push_bit 8 (push_bit 8 (push_bit 8 (push_bit 8 (push_bit 8 (push_bit 8
                (push_bit 8 (ucast b0) + ucast b1) + ucast b2) + ucast b3) + ucast b4)
                + ucast b5) + ucast b6) + ucast b7,
              i8))"

definition decodeField_float32 :: "byte list \<Rightarrow> nat \<Rightarrow> (float32 \<times> nat) option" where
  "decodeField_float32 v Iter = decodeField_uint32 v Iter"

definition decodeField_float64 :: "byte list \<Rightarrow> nat \<Rightarrow> (float64 \<times> nat) option" where
  "decodeField_float64 v Iter = decodeField_uint64 v Iter"

subsection \<open>Compound-type field encoders\<close>

text \<open>
  A \<open>std::string\<close> is a list of characters; \<open>(uint8_t) item\<close> is \<open>of_char item\<close> and
  \<open>(char) b\<close> is \<open>char_of (unat b)\<close>.
\<close>

definition encodeField_String :: "byte list \<Rightarrow> string \<Rightarrow> byte list" where
  "encodeField_String Buffer x =
     foldl (\<lambda>B item. B @ [of_char item]) (encodeField_uint32 Buffer (of_nat (length x))) x"

text \<open>
  A \<open>cv::Mat\<close>: its dimensions, its \<open>type()\<close> and its pixels (row-major, each blue,
  green, red).  \<open>cv::imencode\<close> belongs to OpenCV, not to this repository: the bytes it
  leaves in its output buffer are a parameter \<open>imencode\<close>.
\<close>

record Mat =
  rows :: nat
  cols :: nat
  mat_type :: nat
  pixels :: "(byte \<times> byte \<times> byte) list"

definition CV_8UC3 :: nat where
  "CV_8UC3 = 16"

definition encodeField_CompressedImage ::
  "(Mat \<Rightarrow> byte list) \<Rightarrow> byte list \<Rightarrow> Mat \<Rightarrow> byte list" where
  "encodeField_CompressedImage imencode Buffer x =
     (if mat_type x \<noteq> CV_8UC3 then Buffer else Buffer @ imencode x)"

subsection \<open>Compound-type field decoders\<close>

text \<open>
  The loop \<open>for (n = 0U; n < size; n++) S.push_back((char) *Iter++)\<close> of
  \<open>decodeField_String\<close>, by the number \<open>size - n\<close> of iterations left.
\<close>

fun string_loop :: "byte list \<Rightarrow> nat \<Rightarrow> nat \<Rightarrow> string \<Rightarrow> (string \<times> nat) option" where
  "string_loop v Iter 0 S = Some (S, Iter)"
| "string_loop v Iter (Suc k) S =
     (case decodeField_uint8 v Iter of None \<Rightarrow> None
      | Some (b, Iter') \<Rightarrow> string_loop v Iter' k (S @ [char_of (unat b)]))"

text \<open>
  \<open>decodeField_String (Iter, MaxBytes)\<close>: both reference arguments are returned.
  \<open>MaxBytes\<close>, \<open>size\<close> and \<open>bytesForObject\<close> are \<open>unsigned int\<close>: the sum
  \<open>size + 4U\<close> wraps modulo \<open>2 ^ 32\<close>.
\<close>

definition decodeField_String ::
  "byte list \<Rightarrow> nat \<Rightarrow> 32 word \<Rightarrow> (string \<times> nat \<times> 32 word) option" where
  "decodeField_String v Iter MaxBytes =
     (if MaxBytes < 4 then Some ([], Iter + unat MaxBytes, 0)
      else case decodeField_uint32 v Iter of None \<Rightarrow> None | Some (size', Iter1) \<Rightarrow>
        let bytesForObject = size' + 4 in
        if bytesForObject > MaxBytes then Some ([], Iter1 + unat MaxBytes, 0)
        else case string_loop v Iter1 (unat size') [] of None \<Rightarrow> None
             | Some (S, Iter2) \<Rightarrow> Some (S, Iter2, MaxBytes - bytesForObject))"

section \<open>Packet\<close>

text \<open>
  Modelled from the spec: the declaration of class \<open>Packet\<close> (DroneComms.hpp) is not among
  the sources.  Its members are those the member functions use: the byte buffer \<open>m_data\<close>
  and the cached header fields \<open>m_size\<close> (32 bits) and \<open>m_PID\<close> (8 bits), valid when
  \<open>M_highLevelFieldsValid\<close> is set.
\<close>

record Packet =
  m_data :: "byte list"
  m_size :: "32 word"
  m_PID :: "8 word"
  M_highLevelFieldsValid :: bool

definition Clear :: "Packet \<Rightarrow> Packet" where
  "Clear p = p\<lparr>m_data := [], M_highLevelFieldsValid := False\<rparr>"

definition AddHeader :: "Packet \<Rightarrow> 32 word \<Rightarrow> 8 word \<Rightarrow> Packet" where
  "AddHeader p Size PID =
     p\<lparr>m_data :=
         encodeField_uint8 (encodeField_uint32 (encodeField_uint16 (m_data p) 55975) Size) PID\<rparr>"

text \<open>
  The loop shared by \<open>AddHash\<close> and \<open>CheckHash\<close>:
  \<open>for (n = ...; n < stop; n++) { hashA += m_data[n]; hashB += hashA; }\<close>
  on two \<open>uint8_t\<close> accumulators.
\<close>

function hash_loop :: "byte list \<Rightarrow> nat \<Rightarrow> nat \<Rightarrow> byte \<times> byte \<Rightarrow> byte \<times> byte" where
  "hash_loop v stop n (hashA, hashB) =
     (if n < stop
      then hash_loop v stop (n + 1) (hashA + v ! n, hashB + (hashA + v ! n))
      else (hashA, hashB))"
  by pat_completeness auto
termination
  by (relation "measure (\<lambda>(v, stop, n, h). stop - n)") auto

declare hash_loop.simps [simp del]

definition AddHash :: "Packet \<Rightarrow> Packet" where
  "AddHash p =
     (let (hashA, hashB) = hash_loop (m_data p) (length (m_data p)) 0 (0, 0)
      in p\<lparr>m_data := encodeField_uint8 (encodeField_uint8 (m_data p) hashA) hashB\<rparr>)"

definition CheckHash :: "Packet \<Rightarrow> bool option" where
  "CheckHash p =
     (if length (m_data p) < 9 then Some False
      else case decodeField_uint32 (m_data p) 2 of None \<Rightarrow> None | Some (size', iter) \<Rightarrow>
        if unat size' \<noteq> length (m_data p) then Some False
        else let (hashA, hashB) = hash_loop (m_data p) (length (m_data p) - 2) 0 (0, 0)
             in Some (hashA = m_data p ! (length (m_data p) - 2) \<and>
                      hashB = m_data p ! (length (m_data p) - 1)))"

definition CheckHashSizeAndPID :: "Packet \<Rightarrow> 8 word \<Rightarrow> bool option" where
  "CheckHashSizeAndPID p PID =
     (case CheckHash p of None \<Rightarrow> None | Some ok \<Rightarrow>
      if \<not> ok then Some False
      else case decodeField_uint8 (m_data p) 6 of None \<Rightarrow> None
           | Some (b, iter) \<Rightarrow> Some (b = PID))"

text \<open>
  \<open>ForwardScanForSync\<close>: the loop
  \<open>for (newHeadIndex = 1; newHeadIndex + 1 < m_data.size(); newHeadIndex++)\<close> returns the
  first index at which the two sync bytes 218, 167 stand.
\<close>

function sync_scan :: "byte list \<Rightarrow> nat \<Rightarrow> nat option" where
  "sync_scan v newHeadIndex =
     (if newHeadIndex + 1 < length v
      then (if v ! newHeadIndex = 218 \<and> v ! (newHeadIndex + 1) = 167
            then Some newHeadIndex
            else sync_scan v (newHeadIndex + 1))
      else None)"
  by pat_completeness auto
termination
  by (relation "measure (\<lambda>(v, i). length v - i)") auto

declare sync_scan.simps [simp del]

definition ForwardScanForSync :: "Packet \<Rightarrow> Packet" where
  "ForwardScanForSync p =
     (if m_data p = [] then p
      else case sync_scan (m_data p) 1 of
        Some newHeadIndex \<Rightarrow>
          p\<lparr>m_data := drop newHeadIndex (m_data p), M_highLevelFieldsValid := False\<rparr>
      | None \<Rightarrow>
          if length (m_data p) > 1 \<and> last (m_data p) = 218
          then p\<lparr>m_data := [218], M_highLevelFieldsValid := False\<rparr>
          else p\<lparr>m_data := [], M_highLevelFieldsValid := False\<rparr>)"

text \<open>
  \<open>BytesNeeded(uint32_t & ByteCount)\<close>: the reference argument is passed in and returned.
\<close>

definition BytesNeeded :: "Packet \<Rightarrow> 32 word \<Rightarrow> (bool \<times> 32 word \<times> Packet) option" where
  "BytesNeeded p ByteCount =
     (if length (m_data p) < 7 then Some (False, ByteCount, p)
      else case (if \<not> M_highLevelFieldsValid p
                 then (case decodeField_uint32 (m_data p) 2 of None \<Rightarrow> None
                       | Some (size', iter) \<Rightarrow>
                         (case decodeField_uint8 (m_data p) iter of None \<Rightarrow> None
                          | Some (pid, iter') \<Rightarrow>
                              Some (p\<lparr>m_size := size', m_PID := pid,
                                      M_highLevelFieldsValid := True\<rparr>)))
                 else Some p) of
             None \<Rightarrow> None
           | Some p' \<Rightarrow> Some (True, m_size p' - of_nat (length (m_data p')), p'))"

section \<open>Messages\<close>

subsection \<open>Packet_CompressedImage\<close>

text \<open>
  Modelled from the spec: the struct \<open>Packet_CompressedImage\<close> is declared in DroneComms.hpp, which is not among
  the sources; its fields are those \<open>Serialize\<close> writes: \<open>TargetFPS\<close> (f32) and \<open>Frame\<close>.
\<close>

record Packet_CompressedImage =
  TargetFPS :: float32
  Frame :: Mat

definition Packet_CompressedImage_Serialize ::
  "(Mat \<Rightarrow> byte list) \<Rightarrow> Packet_CompressedImage \<Rightarrow> Packet \<Rightarrow> Packet" where
  "Packet_CompressedImage_Serialize imencode this TargetPacket =
     (let p1 = Clear TargetPacket;
          p2 = AddHeader p1 0 5;
          p3 = p2\<lparr>m_data := encodeField_float32 (m_data p2) (Packet_CompressedImage.TargetFPS this)\<rparr>;
          p4 = p3\<lparr>m_data := encodeField_CompressedImage imencode (m_data p3) (Packet_CompressedImage.Frame this)\<rparr>;
          packetSize = (of_nat (length (m_data p4)) :: 32 word) + 2;
          p5 = p4\<lparr>m_data := (m_data p4)
                  [2 := ucast (drop_bit 24 packetSize),
                   3 := ucast (drop_bit 16 packetSize),
                   4 := ucast (drop_bit 8 packetSize),
                   5 := ucast packetSize]\<rparr>
      in AddHash p5)"

subsection \<open>Floating-point values\<close>

text \<open>
  The arithmetic of the floating-point unit is not code of the repository.  Its operations
  on bit patterns are a parameter \<open>fp\<close> of every function that computes with
  floating-point values: \<open>double\<close> multiplication, division, addition, subtraction,
  \<open>fmod\<close> and the comparison \<open>less\<close>, and the conversions \<open>float\<close> to \<open>double\<close> and
  back.  What holds for every \<open>fp\<close> holds whatever the unit computes; the instance \<open>ieee\<close>
  below is IEEE 754 arithmetic.
\<close>

record fp_ops =
  fp_mul :: "float64 \<Rightarrow> float64 \<Rightarrow> float64"
  fp_div :: "float64 \<Rightarrow> float64 \<Rightarrow> float64"
  fp_add :: "float64 \<Rightarrow> float64 \<Rightarrow> float64"
  fp_sub :: "float64 \<Rightarrow> float64 \<Rightarrow> float64"
  fp_fmod :: "float64 \<Rightarrow> float64 \<Rightarrow> float64"
  fp_less :: "float64 \<Rightarrow> float64 \<Rightarrow> bool"
  fp_widen :: "float32 \<Rightarrow> float64"
  fp_narrow :: "float64 \<Rightarrow> float32"

text \<open>The \<open>double\<close> literals of the source: \<open>PI\<close> is \<open>3.14159265358979\<close>.\<close>

definition PI :: float64 where
  "PI = 0x400921FB54442D11"

definition lit_180 :: float64 where
  "lit_180 = 0x4066800000000000"

definition lit_360 :: float64 where
  "lit_360 = 0x4076800000000000"

definition lit_0 :: float64 where
  "lit_0 = 0"

text \<open>
  \<open>==\<close> on IEEE-754 values is decided by the bit patterns: a NaN (exponent all ones,
  non-zero fraction) is equal to nothing, the two zeros are equal, any other two values
  are equal when their bit patterns are.
\<close>

definition isnan32 :: "float32 \<Rightarrow> bool" where
  "isnan32 x = (x AND 0x7F800000 = 0x7F800000 \<and> x AND 0x007FFFFF \<noteq> 0)"

definition isnan64 :: "float64 \<Rightarrow> bool" where
  "isnan64 x = (x AND 0x7FF0000000000000 = 0x7FF0000000000000 \<and> x AND 0x000FFFFFFFFFFFFF \<noteq> 0)"

definition float32_eq :: "float32 \<Rightarrow> float32 \<Rightarrow> bool" where
  "float32_eq a b =
     (\<not> isnan32 a \<and> \<not> isnan32 b \<and> (a = b \<or> (a AND 0x7FFFFFFF = 0 \<and> b AND 0x7FFFFFFF = 0)))"

definition float64_eq :: "float64 \<Rightarrow> float64 \<Rightarrow> bool" where
  "float64_eq a b =
     (\<not> isnan64 a \<and> \<not> isnan64 b
      \<and> (a = b \<or> (a AND 0x7FFFFFFFFFFFFFFF = 0 \<and> b AND 0x7FFFFFFFFFFFFFFF = 0)))"

subsection \<open>IEEE 754 arithmetic\<close>

text \<open>
  On the targets of the program \<open>float\<close> and \<open>double\<close> are the IEEE 754 formats binary32
  and binary64 and the operations round to nearest, ties to even.  This subsection
  defines that arithmetic on bit patterns, with natural numbers for the exact
  intermediate results.
\<close>

text \<open>The number of binary digits of a natural number.\<close>

fun bitlen :: "nat \<Rightarrow> nat" where
  "bitlen n = (if n = 0 then 0 else Suc (bitlen (n div 2)))"

declare bitlen.simps [simp del]

text \<open>
  A finite floating-point value of precision \<open>p\<close> (24 for binary32, 53 for binary64) is
  given by its sign bit and its magnitude bits \<open>b\<close>: the biased exponent \<open>b div 2^(p-1)\<close>
  and the fraction \<open>b mod 2^(p-1)\<close>.  Its absolute value is \<open>valn p b\<close> times the smallest
  positive value of the format (\<open>2^-149\<close> for binary32, \<open>2^-1074\<close> for binary64): the
  fraction itself for a subnormal, the fraction with the hidden bit shifted by the
  exponent otherwise.
\<close>

definition valn :: "nat \<Rightarrow> nat \<Rightarrow> nat" where
  "valn p b = (if b div 2 ^ (p - 1) = 0 then b mod 2 ^ (p - 1)
               else (2 ^ (p - 1) + b mod 2 ^ (p - 1)) * 2 ^ (b div 2 ^ (p - 1) - 1))"

text \<open>
  Round to nearest, ties to even: the magnitude bits of the value of precision \<open>p\<close>
  nearest to the rational \<open>N / D\<close>, counted in units of the smallest positive value.  The
  quotient is cut to \<open>p\<close> digits, \<open>s\<close> digits dropped; the remainder decides whether the
  next value up is taken.  A carry out of the fraction moves into the exponent by itself.
\<close>

definition rnd :: "nat \<Rightarrow> nat \<Rightarrow> nat \<Rightarrow> nat" where
  "rnd p N D =
     (let s = bitlen (N div D) - p;
          u = D * 2 ^ s;
          m = N div u;
          r = N mod u;
          b = s * 2 ^ (p - 1) + m
      in if 2 * r < u \<or> (2 * r = u \<and> even m) then b else b + 1)"

text \<open>
  The fields of a binary64 bit pattern: magnitude bits (exponent and fraction) and sign.
  The magnitude \<open>inf64\<close> is infinity, every larger one a NaN.  \<open>mk64\<close> assembles a value
  from its sign and magnitude; a magnitude beyond the largest finite one is the overflow
  to infinity.  An invalid operation gives a quiet NaN; IEEE 754 leaves its sign and
  payload open and \<open>nan64\<close> stands for it.  \<open>ival64\<close> is the signed value in units of
  \<open>2^-1074\<close>.
\<close>

definition mag64 :: "float64 \<Rightarrow> nat" where
  "mag64 x = unat x mod 2 ^ 63"

definition neg64 :: "float64 \<Rightarrow> bool" where
  "neg64 x = (2 ^ 63 \<le> unat x)"

definition inf64 :: nat where
  "inf64 = 2047 * 2 ^ 52"

definition mk64 :: "bool \<Rightarrow> nat \<Rightarrow> float64" where
  "mk64 s b = of_nat (min b inf64 + (if s then 2 ^ 63 else 0))"

definition nan64 :: float64 where
  "nan64 = 0x7FF8000000000000"

definition ival64 :: "float64 \<Rightarrow> int" where
  "ival64 x = (if neg64 x then - int (valn 53 (mag64 x)) else int (valn 53 (mag64 x)))"

text \<open>The same for binary32.\<close>

definition mag32 :: "float32 \<Rightarrow> nat" where
  "mag32 x = unat x mod 2 ^ 31"

definition neg32 :: "float32 \<Rightarrow> bool" where
  "neg32 x = (2 ^ 31 \<le> unat x)"

definition inf32 :: nat where
  "inf32 = 255 * 2 ^ 23"

definition mk32 :: "bool \<Rightarrow> nat \<Rightarrow> float32" where
  "mk32 s b = of_nat (min b inf32 + (if s then 2 ^ 31 else 0))"

definition nan32 :: float32 where
  "nan32 = 0x7FC00000"

text \<open>
  The operations of IEEE 754 on binary64: special cases first (NaN operands, infinities,
  zeros), then the exact result rounded.  A product of two values in units of \<open>2^-1074\<close>
  is in units of \<open>2^-2148\<close>, hence the divisor \<open>2^1074\<close>; a quotient is a pure number,
  hence the factor \<open>2^1074\<close>.
\<close>

definition ieee_mul :: "float64 \<Rightarrow> float64 \<Rightarrow> float64" where
  "ieee_mul a b =
     (if inf64 < mag64 a \<or> inf64 < mag64 b then nan64
      else if mag64 a = inf64 \<or> mag64 b = inf64
        then (if mag64 a = 0 \<or> mag64 b = 0 then nan64 else mk64 (neg64 a \<noteq> neg64 b) inf64)
      else mk64 (neg64 a \<noteq> neg64 b) (rnd 53 (valn 53 (mag64 a) * valn 53 (mag64 b)) (2 ^ 1074)))"

definition ieee_div :: "float64 \<Rightarrow> float64 \<Rightarrow> float64" where
  "ieee_div a b =
     (if inf64 < mag64 a \<or> inf64 < mag64 b then nan64
      else if mag64 a = inf64
        then (if mag64 b = inf64 then nan64 else mk64 (neg64 a \<noteq> neg64 b) inf64)
      else if mag64 b = inf64 then mk64 (neg64 a \<noteq> neg64 b) 0
      else if mag64 b = 0
        then (if mag64 a = 0 then nan64 else mk64 (neg64 a \<noteq> neg64 b) inf64)
      else mk64 (neg64 a \<noteq> neg64 b) (rnd 53 (valn 53 (mag64 a) * 2 ^ 1074) (valn 53 (mag64 b))))"

definition ieee_add :: "float64 \<Rightarrow> float64 \<Rightarrow> float64" where
  "ieee_add a b =
     (if inf64 < mag64 a \<or> inf64 < mag64 b then nan64
      else if mag64 a = inf64
        then (if mag64 b = inf64 \<and> neg64 a \<noteq> neg64 b then nan64 else a)
      else if mag64 b = inf64 then b
      else if ival64 a + ival64 b = 0 then mk64 (neg64 a \<and> neg64 b) 0
      else mk64 (ival64 a + ival64 b < 0) (rnd 53 (nat \<bar>ival64 a + ival64 b\<bar>) 1))"

definition ieee_sub :: "float64 \<Rightarrow> float64 \<Rightarrow> float64" where
  "ieee_sub a b =
     (if inf64 < mag64 a \<or> inf64 < mag64 b then nan64
      else if mag64 a = inf64
        then (if mag64 b = inf64 \<and> neg64 a = neg64 b then nan64 else a)
      else if mag64 b = inf64 then mk64 (\<not> neg64 b) inf64
      else if ival64 a - ival64 b = 0 then mk64 (neg64 a \<and> \<not> neg64 b) 0
      else mk64 (ival64 a - ival64 b < 0) (rnd 53 (nat \<bar>ival64 a - ival64 b\<bar>) 1))"

text \<open>
  \<open>fmod x y\<close> of the C library: the exact remainder of \<open>|x|\<close> by \<open>|y|\<close> with the sign
  of \<open>x\<close>.
\<close>

definition ieee_fmod :: "float64 \<Rightarrow> float64 \<Rightarrow> float64" where
  "ieee_fmod x y =
     (if inf64 < mag64 x \<or> inf64 < mag64 y then nan64
      else if mag64 x = inf64 \<or> mag64 y = 0 then nan64
      else if mag64 y = inf64 then x
      else mk64 (neg64 x) (rnd 53 (valn 53 (mag64 x) mod valn 53 (mag64 y)) 1))"

definition ieee_less :: "float64 \<Rightarrow> float64 \<Rightarrow> bool" where
  "ieee_less a b = (mag64 a \<le> inf64 \<and> mag64 b \<le> inf64 \<and> ival64 a < ival64 b)"

text \<open>
  The conversions between \<open>float\<close> and \<open>double\<close>: a binary32 unit is \<open>2^925\<close> binary64
  units.  Widening is exact, narrowing rounds and overflows to infinity.
\<close>

definition ieee_widen :: "float32 \<Rightarrow> float64" where
  "ieee_widen x =
     (if inf32 < mag32 x then nan64
      else if mag32 x = inf32 then mk64 (neg32 x) inf64
      else mk64 (neg32 x) (rnd 53 (valn 24 (mag32 x) * 2 ^ 925) 1))"

definition ieee_narrow :: "float64 \<Rightarrow> float32" where
  "ieee_narrow x =
     (if inf64 < mag64 x then nan32
      else if mag64 x = inf64 then mk32 (neg64 x) inf32
      else mk32 (neg64 x) (rnd 24 (valn 53 (mag64 x)) (2 ^ 925)))"





text \<open>The floating-point unit of the targets.\<close>

definition ieee :: fp_ops where
  "ieee = \<lparr>fp_mul = ieee_mul, fp_div = ieee_div, fp_add = ieee_add, fp_sub = ieee_sub,
            fp_fmod = ieee_fmod, fp_less = ieee_less, fp_widen = ieee_widen,
            fp_narrow = ieee_narrow\<rparr>"

subsection \<open>Packet_CoreTelemetry\<close>

text \<open>
  Modelled from the spec: the struct \<open>Packet_CoreTelemetry\<close> is declared in DroneComms.hpp, which is not among
  the sources; its fields are those \<open>Serialize\<close> writes, with the widths of the encoders
  (u8, f64 and f32 in the catalog of the specification).
\<close>

record Packet_CoreTelemetry =
  IsFlying :: "8 word"
  Latitude :: float64
  Longitude :: float64
  Altitude :: float64
  HAG :: float64
  V_N :: float32
  V_E :: float32
  V_D :: float32
  Yaw :: float64
  Pitch :: float64
  Roll :: float64

definition Packet_CoreTelemetry_eq :: "Packet_CoreTelemetry \<Rightarrow> Packet_CoreTelemetry \<Rightarrow> bool" where
  "Packet_CoreTelemetry_eq this Other =
     (Packet_CoreTelemetry.IsFlying this = Packet_CoreTelemetry.IsFlying Other
      \<and> float64_eq (Packet_CoreTelemetry.Latitude this) (Packet_CoreTelemetry.Latitude Other)
      \<and> float64_eq (Packet_CoreTelemetry.Longitude this) (Packet_CoreTelemetry.Longitude Other)
      \<and> float64_eq (Packet_CoreTelemetry.Altitude this) (Packet_CoreTelemetry.Altitude Other)
      \<and> float64_eq (Packet_CoreTelemetry.HAG this) (Packet_CoreTelemetry.HAG Other)
      \<and> float32_eq (Packet_CoreTelemetry.V_N this) (Packet_CoreTelemetry.V_N Other)
      \<and> float32_eq (Packet_CoreTelemetry.V_E this) (Packet_CoreTelemetry.V_E Other)
      \<and> float32_eq (Packet_CoreTelemetry.V_D this) (Packet_CoreTelemetry.V_D Other)
      \<and> float64_eq (Packet_CoreTelemetry.Yaw this) (Packet_CoreTelemetry.Yaw Other)
      \<and> float64_eq (Packet_CoreTelemetry.Pitch this) (Packet_CoreTelemetry.Pitch Other)
      \<and> float64_eq (Packet_CoreTelemetry.Roll this) (Packet_CoreTelemetry.Roll Other))"

definition Packet_CoreTelemetry_Serialize :: "Packet_CoreTelemetry \<Rightarrow> Packet \<Rightarrow> Packet" where
  "Packet_CoreTelemetry_Serialize this TargetPacket =
     (let p = AddHeader (Clear TargetPacket) (9 + 69) 0;
          b = encodeField_uint8 (m_data p) (Packet_CoreTelemetry.IsFlying this);
          b = encodeField_float64 b (Packet_CoreTelemetry.Latitude this);
          b = encodeField_float64 b (Packet_CoreTelemetry.Longitude this);
          b = encodeField_float64 b (Packet_CoreTelemetry.Altitude this);
          b = encodeField_float64 b (Packet_CoreTelemetry.HAG this);
          b = encodeField_float32 b (Packet_CoreTelemetry.V_N this);
          b = encodeField_float32 b (Packet_CoreTelemetry.V_E this);
          b = encodeField_float32 b (Packet_CoreTelemetry.V_D this);
          b = encodeField_float64 b (Packet_CoreTelemetry.Yaw this);
          b = encodeField_float64 b (Packet_CoreTelemetry.Pitch this);
          b = encodeField_float64 b (Packet_CoreTelemetry.Roll this)
      in AddHash (p\<lparr>m_data := b\<rparr>))"

definition Packet_CoreTelemetry_Deserialize ::
  "Packet \<Rightarrow> Packet_CoreTelemetry \<Rightarrow> (bool \<times> Packet_CoreTelemetry) option" where
  "Packet_CoreTelemetry_Deserialize SourcePacket this =
     do {
       ok \<leftarrow> CheckHashSizeAndPID SourcePacket 0;
       if \<not> ok then Some (False, this)
       else if length (m_data SourcePacket) \<noteq> 9 + 69 then Some (False, this)
       else do {
         (isFlying, iter) \<leftarrow> decodeField_uint8 (m_data SourcePacket) 7;
         (latitude, iter) \<leftarrow> decodeField_float64 (m_data SourcePacket) iter;
         (longitude, iter) \<leftarrow> decodeField_float64 (m_data SourcePacket) iter;
         (altitude, iter) \<leftarrow> decodeField_float64 (m_data SourcePacket) iter;
         (hag, iter) \<leftarrow> decodeField_float64 (m_data SourcePacket) iter;
         (v_n, iter) \<leftarrow> decodeField_float32 (m_data SourcePacket) iter;
         (v_e, iter) \<leftarrow> decodeField_float32 (m_data SourcePacket) iter;
         (v_d, iter) \<leftarrow> decodeField_float32 (m_data SourcePacket) iter;
         (yaw, iter) \<leftarrow> decodeField_float64 (m_data SourcePacket) iter;
         (pitch, iter) \<leftarrow> decodeField_float64 (m_data SourcePacket) iter;
         (roll, iter) \<leftarrow> decodeField_float64 (m_data SourcePacket) iter;
         Some (True, this\<lparr>Packet_CoreTelemetry.IsFlying := isFlying,
                            Packet_CoreTelemetry.Latitude := latitude,
                            Packet_CoreTelemetry.Longitude := longitude,
                            Packet_CoreTelemetry.Altitude := altitude,
                            Packet_CoreTelemetry.HAG := hag,
                            Packet_CoreTelemetry.V_N := v_n,
                            Packet_CoreTelemetry.V_E := v_e,
                            Packet_CoreTelemetry.V_D := v_d,
                            Packet_CoreTelemetry.Yaw := yaw,
                            Packet_CoreTelemetry.Pitch := pitch,
                            Packet_CoreTelemetry.Roll := roll\<rparr>)
       }
     }"

subsection \<open>Packet_ExtendedTelemetry\<close>

text \<open>
  Modelled from the spec: the struct \<open>Packet_ExtendedTelemetry\<close> is declared in DroneComms.hpp, which is not
  among the sources; its fields are those \<open>Serialize\<close> writes, with the widths of the
  encoders (u16, u8 and string in the catalog of the specification).
\<close>

record Packet_ExtendedTelemetry =
  GNSSSatCount :: "16 word"
  GNSSSignal :: "8 word"
  MaxHeight :: "8 word"
  MaxDist :: "8 word"
  BatLevel :: "8 word"
  BatWarning :: "8 word"
  WindLevel :: "8 word"
  DJICam :: "8 word"
  FlightMode :: "8 word"
  MissionID :: "16 word"
  DroneSerial :: string

definition Packet_ExtendedTelemetry_eq :: "Packet_ExtendedTelemetry \<Rightarrow> Packet_ExtendedTelemetry \<Rightarrow> bool" where
  "Packet_ExtendedTelemetry_eq this Other =
     (Packet_ExtendedTelemetry.GNSSSatCount this = Packet_ExtendedTelemetry.GNSSSatCount Other
      \<and> Packet_ExtendedTelemetry.GNSSSignal this = Packet_ExtendedTelemetry.GNSSSignal Other
      \<and> Packet_ExtendedTelemetry.MaxHeight this = Packet_ExtendedTelemetry.MaxHeight Other
      \<and> Packet_ExtendedTelemetry.MaxDist this = Packet_ExtendedTelemetry.MaxDist Other
      \<and> Packet_ExtendedTelemetry.BatLevel this = Packet_ExtendedTelemetry.BatLevel Other
      \<and> Packet_ExtendedTelemetry.BatWarning this = Packet_ExtendedTelemetry.BatWarning Other
      \<and> Packet_ExtendedTelemetry.WindLevel this = Packet_ExtendedTelemetry.WindLevel Other
      \<and> Packet_ExtendedTelemetry.DJICam this = Packet_ExtendedTelemetry.DJICam Other
      \<and> Packet_ExtendedTelemetry.FlightMode this = Packet_ExtendedTelemetry.FlightMode Other
      \<and> Packet_ExtendedTelemetry.MissionID this = Packet_ExtendedTelemetry.MissionID Other
      \<and> Packet_ExtendedTelemetry.DroneSerial this = Packet_ExtendedTelemetry.DroneSerial Other)"

definition Packet_ExtendedTelemetry_Serialize :: "Packet_ExtendedTelemetry \<Rightarrow> Packet \<Rightarrow> Packet" where
  "Packet_ExtendedTelemetry_Serialize this TargetPacket =
     (let p = AddHeader (Clear TargetPacket) (of_nat (9 + 12 + 4 + length (Packet_ExtendedTelemetry.DroneSerial this))) 1;
          b = encodeField_uint16 (m_data p) (Packet_ExtendedTelemetry.GNSSSatCount this);
          b = encodeField_uint8 b (Packet_ExtendedTelemetry.GNSSSignal this);
          b = encodeField_uint8 b (Packet_ExtendedTelemetry.MaxHeight this);
          b = encodeField_uint8 b (Packet_ExtendedTelemetry.MaxDist this);
          b = encodeField_uint8 b (Packet_ExtendedTelemetry.BatLevel this);
          b = encodeField_uint8 b (Packet_ExtendedTelemetry.BatWarning this);
          b = encodeField_uint8 b (Packet_ExtendedTelemetry.WindLevel this);
          b = encodeField_uint8 b (Packet_ExtendedTelemetry.DJICam this);
          b = encodeField_uint8 b (Packet_ExtendedTelemetry.FlightMode this);
          b = encodeField_uint16 b (Packet_ExtendedTelemetry.MissionID this);
          b = encodeField_String b (Packet_ExtendedTelemetry.DroneSerial this)
      in AddHash (p\<lparr>m_data := b\<rparr>))"

definition Packet_ExtendedTelemetry_Deserialize ::
  "Packet \<Rightarrow> Packet_ExtendedTelemetry \<Rightarrow> (bool \<times> Packet_ExtendedTelemetry) option" where
  "Packet_ExtendedTelemetry_Deserialize SourcePacket this =
     do {
       ok \<leftarrow> CheckHashSizeAndPID SourcePacket 1;
       if \<not> ok then Some (False, this)
       else if length (m_data SourcePacket) < 9 + 16 then Some (False, this)
       else do {
         (gnssSatCount, iter) \<leftarrow> decodeField_uint16 (m_data SourcePacket) 7;
         (gnssSignal, iter) \<leftarrow> decodeField_uint8 (m_data SourcePacket) iter;
         (maxHeight, iter) \<leftarrow> decodeField_uint8 (m_data SourcePacket) iter;
         (maxDist, iter) \<leftarrow> decodeField_uint8 (m_data SourcePacket) iter;
         (batLevel, iter) \<leftarrow> decodeField_uint8 (m_data SourcePacket) iter;
         (batWarning, iter) \<leftarrow> decodeField_uint8 (m_data SourcePacket) iter;
         (windLevel, iter) \<leftarrow> decodeField_uint8 (m_data SourcePacket) iter;
         (djiCam, iter) \<leftarrow> decodeField_uint8 (m_data SourcePacket) iter;
         (flightMode, iter) \<leftarrow> decodeField_uint8 (m_data SourcePacket) iter;
         (missionID, iter) \<leftarrow> decodeField_uint16 (m_data SourcePacket) iter;
         (droneSerial, iter, MaxBytesForStr) \<leftarrow>
           decodeField_String (m_data SourcePacket) iter
             ((of_nat (length (m_data SourcePacket)) :: 32 word) - 9 - 12);
         Some (True, this\<lparr>Packet_ExtendedTelemetry.GNSSSatCount := gnssSatCount,
                            Packet_ExtendedTelemetry.GNSSSignal := gnssSignal,
                            Packet_ExtendedTelemetry.MaxHeight := maxHeight,
                            Packet_ExtendedTelemetry.MaxDist := maxDist,
                            Packet_ExtendedTelemetry.BatLevel := batLevel,
                            Packet_ExtendedTelemetry.BatWarning := batWarning,
                            Packet_ExtendedTelemetry.WindLevel := windLevel,
                            Packet_ExtendedTelemetry.DJICam := djiCam,
                            Packet_ExtendedTelemetry.FlightMode := flightMode,
                            Packet_ExtendedTelemetry.MissionID := missionID,
                            Packet_ExtendedTelemetry.DroneSerial := droneSerial\<rparr>)
       }
     }"

subsection \<open>Packet_Acknowledgment\<close>

text \<open>
  Modelled from the spec: the struct \<open>Packet_Acknowledgment\<close> is declared in DroneComms.hpp, which is not among
  the sources; its fields are the two bytes \<open>Serialize\<close> writes.
\<close>

record Packet_Acknowledgment =
  Positive :: "8 word"
  SourcePID :: "8 word"

definition Packet_Acknowledgment_eq :: "Packet_Acknowledgment \<Rightarrow> Packet_Acknowledgment \<Rightarrow> bool" where
  "Packet_Acknowledgment_eq this Other =
     (Packet_Acknowledgment.Positive this = Packet_Acknowledgment.Positive Other
      \<and> Packet_Acknowledgment.SourcePID this = Packet_Acknowledgment.SourcePID Other)"

definition Packet_Acknowledgment_Serialize :: "Packet_Acknowledgment \<Rightarrow> Packet \<Rightarrow> Packet" where
  "Packet_Acknowledgment_Serialize this TargetPacket =
     (let p = AddHeader (Clear TargetPacket) (9 + 2) 3;
          b = encodeField_uint8 (m_data p) (Packet_Acknowledgment.Positive this);
          b = encodeField_uint8 b (Packet_Acknowledgment.SourcePID this)
      in AddHash (p\<lparr>m_data := b\<rparr>))"

definition Packet_Acknowledgment_Deserialize ::
  "Packet \<Rightarrow> Packet_Acknowledgment \<Rightarrow> (bool \<times> Packet_Acknowledgment) option" where
  "Packet_Acknowledgment_Deserialize SourcePacket this =
     do {
       ok \<leftarrow> CheckHashSizeAndPID SourcePacket 3;
       if \<not> ok then Some (False, this)
       else if length (m_data SourcePacket) \<noteq> 9 + 2 then Some (False, this)
       else do {
         (positive, iter) \<leftarrow> decodeField_uint8 (m_data SourcePacket) 7;
         (sourcePID, iter) \<leftarrow> decodeField_uint8 (m_data SourcePacket) iter;
         Some (True, this\<lparr>Packet_Acknowledgment.Positive := positive,
                            Packet_Acknowledgment.SourcePID := sourcePID\<rparr>)
       }
     }"

subsection \<open>Packet_MessageString\<close>

text \<open>
  Modelled from the spec: the struct \<open>Packet_MessageString\<close> is declared in DroneComms.hpp, which is not among
  the sources; its fields are the byte and the string \<open>Serialize\<close> writes.
\<close>

record Packet_MessageString =
  Type :: "8 word"
  Message :: string

definition Packet_MessageString_eq :: "Packet_MessageString \<Rightarrow> Packet_MessageString \<Rightarrow> bool" where
  "Packet_MessageString_eq this Other =
     (Packet_MessageString.Type this = Packet_MessageString.Type Other
      \<and> Packet_MessageString.Message this = Packet_MessageString.Message Other)"

definition Packet_MessageString_Serialize :: "Packet_MessageString \<Rightarrow> Packet \<Rightarrow> Packet" where
  "Packet_MessageString_Serialize this TargetPacket =
     (let p = AddHeader (Clear TargetPacket) (of_nat (9 + 1 + 4 + length (Packet_MessageString.Message this))) 4;
          b = encodeField_uint8 (m_data p) (Packet_MessageString.Type this);
          b = encodeField_String b (Packet_MessageString.Message this)
      in AddHash (p\<lparr>m_data := b\<rparr>))"

definition Packet_MessageString_Deserialize ::
  "Packet \<Rightarrow> Packet_MessageString \<Rightarrow> (bool \<times> Packet_MessageString) option" where
  "Packet_MessageString_Deserialize SourcePacket this =
     do {
       ok \<leftarrow> CheckHashSizeAndPID SourcePacket 4;
       if \<not> ok then Some (False, this)
       else if length (m_data SourcePacket) < 9 + 5 then Some (False, this)
       else do {
         (type, iter) \<leftarrow> decodeField_uint8 (m_data SourcePacket) 7;
         (message, iter, MaxBytesForStr) \<leftarrow>
           decodeField_String (m_data SourcePacket) iter
             ((of_nat (length (m_data SourcePacket)) :: 32 word) - 9 - 1);
         Some (True, this\<lparr>Packet_MessageString.Type := type,
                            Packet_MessageString.Message := message\<rparr>)
       }
     }"

subsection \<open>Packet_EmergencyCommand\<close>

text \<open>
  Modelled from the spec: the struct \<open>Packet_EmergencyCommand\<close> is declared in DroneComms.hpp, which is not
  among the sources; its field is the byte \<open>Serialize\<close> writes.
\<close>

record Packet_EmergencyCommand =
  Action :: "8 word"

definition Packet_EmergencyCommand_eq :: "Packet_EmergencyCommand \<Rightarrow> Packet_EmergencyCommand \<Rightarrow> bool" where
  "Packet_EmergencyCommand_eq this Other =
     (Packet_EmergencyCommand.Action this = Packet_EmergencyCommand.Action Other)"

definition Packet_EmergencyCommand_Serialize :: "Packet_EmergencyCommand \<Rightarrow> Packet \<Rightarrow> Packet" where
  "Packet_EmergencyCommand_Serialize this TargetPacket =
     (let p = AddHeader (Clear TargetPacket) (9 + 1) 255;
          b = encodeField_uint8 (m_data p) (Packet_EmergencyCommand.Action this)
      in AddHash (p\<lparr>m_data := b\<rparr>))"

definition Packet_EmergencyCommand_Deserialize ::
  "Packet \<Rightarrow> Packet_EmergencyCommand \<Rightarrow> (bool \<times> Packet_EmergencyCommand) option" where
  "Packet_EmergencyCommand_Deserialize SourcePacket this =
     do {
       ok \<leftarrow> CheckHashSizeAndPID SourcePacket 255;
       if \<not> ok then Some (False, this)
       else if length (m_data SourcePacket) \<noteq> 9 + 1 then Some (False, this)
       else do {
         (action, iter) \<leftarrow> decodeField_uint8 (m_data SourcePacket) 7;
         Some (True, this\<lparr>Packet_EmergencyCommand.Action := action\<rparr>)
       }
     }"

subsection \<open>Packet_CameraControl\<close>

text \<open>
  Modelled from the spec: the struct \<open>Packet_CameraControl\<close> is declared in DroneComms.hpp, which is not among
  the sources; its fields are the byte and the \<open>float\<close> \<open>Serialize\<close> writes.
\<close>

record Packet_CameraControl =
  Action :: "8 word"
  TargetFPS :: float32

definition Packet_CameraControl_eq :: "Packet_CameraControl \<Rightarrow> Packet_CameraControl \<Rightarrow> bool" where
  "Packet_CameraControl_eq this Other =
     (Packet_CameraControl.Action this = Packet_CameraControl.Action Other
      \<and> float32_eq (Packet_CameraControl.TargetFPS this) (Packet_CameraControl.TargetFPS Other))"

definition Packet_CameraControl_Serialize :: "Packet_CameraControl \<Rightarrow> Packet \<Rightarrow> Packet" where
  "Packet_CameraControl_Serialize this TargetPacket =
     (let p = AddHeader (Clear TargetPacket) (9 + 5) 254;
          b = encodeField_uint8 (m_data p) (Packet_CameraControl.Action this);
          b = encodeField_float32 b (Packet_CameraControl.TargetFPS this)
      in AddHash (p\<lparr>m_data := b\<rparr>))"

definition Packet_CameraControl_Deserialize ::
  "Packet \<Rightarrow> Packet_CameraControl \<Rightarrow> (bool \<times> Packet_CameraControl) option" where
  "Packet_CameraControl_Deserialize SourcePacket this =
     do {
       ok \<leftarrow> CheckHashSizeAndPID SourcePacket 254;
       if \<not> ok then Some (False, this)
       else if length (m_data SourcePacket) \<noteq> 9 + 5 then Some (False, this)
       else do {
         (action, iter) \<leftarrow> decodeField_uint8 (m_data SourcePacket) 7;
         (targetFPS, iter) \<leftarrow> decodeField_float32 (m_data SourcePacket) iter;
         Some (True, this\<lparr>Packet_CameraControl.Action := action,
                            Packet_CameraControl.TargetFPS := targetFPS\<rparr>)
       }
     }"

subsection \<open>Waypoint\<close>

record Waypoint =
  Latitude :: float64
  Longitude :: float64
  RelAltitude :: float64
  CornerRadius :: float32
  Speed :: float32
  LoiterTime :: float32
  GimbalPitch :: float32

definition Waypoint_eq :: "Waypoint \<Rightarrow> Waypoint \<Rightarrow> bool" where
  "Waypoint_eq this Other =
     (float64_eq (Waypoint.Latitude this) (Waypoint.Latitude Other)
      \<and> float64_eq (Waypoint.Longitude this) (Waypoint.Longitude Other)
      \<and> float64_eq (Waypoint.RelAltitude this) (Waypoint.RelAltitude Other)
      \<and> float32_eq (Waypoint.CornerRadius this) (Waypoint.CornerRadius Other)
      \<and> float32_eq (Waypoint.Speed this) (Waypoint.Speed Other)
      \<and> float32_eq (Waypoint.LoiterTime this) (Waypoint.LoiterTime Other)
      \<and> float32_eq (Waypoint.GimbalPitch this) (Waypoint.GimbalPitch Other))"

text \<open>
  The default-constructed \<open>Waypoint\<close>: zeros, \<open>CornerRadius = 0.2f\<close>, \<open>Speed = 1.0f\<close>, and
  \<open>std::nanf("")\<close> (the quiet NaN \<open>0x7FC00000\<close>) in \<open>LoiterTime\<close> and \<open>GimbalPitch\<close>.
\<close>

definition Waypoint_default :: Waypoint where
  "Waypoint_default =
     \<lparr>Waypoint.Latitude = 0, Waypoint.Longitude = 0, Waypoint.RelAltitude = 0,
      Waypoint.CornerRadius = 0x3E4CCCCD, Waypoint.Speed = 0x3F800000,
      Waypoint.LoiterTime = 0x7FC00000, Waypoint.GimbalPitch = 0x7FC00000\<rparr>"

subsection \<open>Packet_ExecuteWaypointMission\<close>

text \<open>
  Modelled from the spec: the struct \<open>Packet_ExecuteWaypointMission\<close> is declared in DroneComms.hpp, which is
  not among the sources; its fields are the two bytes and the vector of waypoints that
  \<open>Serialize\<close> writes.
\<close>

record Packet_ExecuteWaypointMission =
  LandAtEnd :: "8 word"
  CurvedFlight :: "8 word"
  Waypoints :: "Waypoint list"

definition Packet_ExecuteWaypointMission_eq ::
  "Packet_ExecuteWaypointMission \<Rightarrow> Packet_ExecuteWaypointMission \<Rightarrow> bool" where
  "Packet_ExecuteWaypointMission_eq this Other =
     (if LandAtEnd this \<noteq> LandAtEnd Other \<or> CurvedFlight this \<noteq> CurvedFlight Other then False
      else if length (Waypoints this) \<noteq> length (Waypoints Other) then False
      else list_all (\<lambda>n. Waypoint_eq (Waypoints this ! n) (Waypoints Other ! n))
             [0..<length (Waypoints this)])"

text \<open>The body of the loop \<open>for (auto const & waypoint : Waypoints)\<close> of \<open>Serialize\<close>.\<close>

definition encode_waypoint :: "fp_ops \<Rightarrow> byte list \<Rightarrow> Waypoint \<Rightarrow> byte list" where
  "encode_waypoint fp b waypoint =
     (let b = encodeField_float64 b
                (fp_div fp (fp_mul fp (Waypoint.Latitude waypoint) lit_180) PI);
          b = encodeField_float64 b
                (fp_div fp (fp_mul fp (Waypoint.Longitude waypoint) lit_180) PI);
          b = encodeField_float64 b (Waypoint.RelAltitude waypoint);
          b = encodeField_float32 b (Waypoint.CornerRadius waypoint);
          b = encodeField_float32 b (Waypoint.Speed waypoint);
          b = encodeField_float32 b (Waypoint.LoiterTime waypoint);
          b = encodeField_float32 b
                (fp_narrow fp
                  (fp_div fp (fp_mul fp (fp_widen fp (Waypoint.GimbalPitch waypoint)) lit_180) PI))
      in b)"

definition Packet_ExecuteWaypointMission_Serialize ::
  "fp_ops \<Rightarrow> Packet_ExecuteWaypointMission \<Rightarrow> Packet \<Rightarrow> Packet" where
  "Packet_ExecuteWaypointMission_Serialize fp this TargetPacket =
     (let p = AddHeader (Clear TargetPacket) (9 + 2 + 40 * of_nat (length (Waypoints this))) 253;
          b = encodeField_uint8 (m_data p) (LandAtEnd this);
          b = encodeField_uint8 b (CurvedFlight this);
          b = foldl (encode_waypoint fp) b (Waypoints this)
      in AddHash (p\<lparr>m_data := b\<rparr>))"

text \<open>
  The loop \<open>for (n = 0U; n < numWaypoints; n++)\<close> of \<open>Deserialize\<close>, by the number of
  iterations left; each iteration appends one waypoint and assigns its seven fields.
\<close>

fun waypoint_loop ::
  "fp_ops \<Rightarrow> byte list \<Rightarrow> nat \<Rightarrow> nat \<Rightarrow> Waypoint list \<Rightarrow> (Waypoint list \<times> nat) option" where
  "waypoint_loop fp v iter 0 Waypoints' = Some (Waypoints', iter)"
| "waypoint_loop fp v iter (Suc k) Waypoints' =
     do {
       (latitude, iter) \<leftarrow> decodeField_float64 v iter;
       (longitude, iter) \<leftarrow> decodeField_float64 v iter;
       (relAltitude, iter) \<leftarrow> decodeField_float64 v iter;
       (cornerRadius, iter) \<leftarrow> decodeField_float32 v iter;
       (speed, iter) \<leftarrow> decodeField_float32 v iter;
       (loiterTime, iter) \<leftarrow> decodeField_float32 v iter;
       (gimbalPitch, iter) \<leftarrow> decodeField_float32 v iter;
       waypoint_loop fp v iter k
         (Waypoints' @
           [\<lparr>Waypoint.Latitude = fp_div fp (fp_mul fp latitude PI) lit_180,
             Waypoint.Longitude = fp_div fp (fp_mul fp longitude PI) lit_180,
             Waypoint.RelAltitude = relAltitude,
             Waypoint.CornerRadius = cornerRadius,
             Waypoint.Speed = speed,
             Waypoint.LoiterTime = loiterTime,
             Waypoint.GimbalPitch =
               fp_narrow fp (fp_div fp (fp_mul fp (fp_widen fp gimbalPitch) PI) lit_180)\<rparr>])
     }"

definition Packet_ExecuteWaypointMission_Deserialize ::
  "fp_ops \<Rightarrow> Packet \<Rightarrow> Packet_ExecuteWaypointMission
     \<Rightarrow> (bool \<times> Packet_ExecuteWaypointMission) option" where
  "Packet_ExecuteWaypointMission_Deserialize fp SourcePacket this =
     do {
       ok \<leftarrow> CheckHashSizeAndPID SourcePacket 253;
       if \<not> ok then Some (False, this)
       else if length (m_data SourcePacket) < 9 + 2 + 40 then Some (False, this)
       else do {
         (landAtEnd, iter) \<leftarrow> decodeField_uint8 (m_data SourcePacket) 7;
         (curvedFlight, iter) \<leftarrow> decodeField_uint8 (m_data SourcePacket) iter;
         let this = this\<lparr>LandAtEnd := landAtEnd, CurvedFlight := curvedFlight, Waypoints := []\<rparr>;
         let waypointBytes = (of_nat (length (m_data SourcePacket)) :: 32 word) - 9 - 2;
         if waypointBytes mod 40 \<noteq> 0 then Some (False, this)
         else do {
           let numWaypoints = waypointBytes div 40;
           (waypoints, iter) \<leftarrow>
             waypoint_loop fp (m_data SourcePacket) iter (unat numWaypoints) [];
           Some (True, this\<lparr>Waypoints := waypoints\<rparr>)
         }
       }
     }"

subsection \<open>Packet_VirtualStickCommand\<close>

text \<open>
  Modelled from the spec: the struct \<open>Packet_VirtualStickCommand\<close> is declared in DroneComms.hpp, which is not
  among the sources; its fields are those \<open>Serialize\<close> writes: a byte and five \<open>float\<close>
  values (f32 in the catalog of the specification).
\<close>

record Packet_VirtualStickCommand =
  Mode :: "8 word"
  Yaw :: float32
  V_x :: float32
  V_y :: float32
  HAG :: float32
  timeout :: float32

definition Packet_VirtualStickCommand_eq ::
  "Packet_VirtualStickCommand \<Rightarrow> Packet_VirtualStickCommand \<Rightarrow> bool" where
  "Packet_VirtualStickCommand_eq this Other =
     (Packet_VirtualStickCommand.Mode this = Packet_VirtualStickCommand.Mode Other
      \<and> float32_eq (Packet_VirtualStickCommand.Yaw this) (Packet_VirtualStickCommand.Yaw Other)
      \<and> float32_eq (Packet_VirtualStickCommand.V_x this) (Packet_VirtualStickCommand.V_x Other)
      \<and> float32_eq (Packet_VirtualStickCommand.V_y this) (Packet_VirtualStickCommand.V_y Other)
      \<and> float32_eq (Packet_VirtualStickCommand.HAG this) (Packet_VirtualStickCommand.HAG Other)
      \<and> float32_eq (Packet_VirtualStickCommand.timeout this)
            (Packet_VirtualStickCommand.timeout Other))"

text \<open>
  The computation of \<open>yaw_deg\<close> in \<open>Serialize\<close> (a \<open>float\<close> variable: every assignment
  narrows the \<open>double\<close> result): to degrees, \<open>fmod\<close> by 360, plus 360 when negative, minus
  360 when above 180.
\<close>

definition yaw_deg_of :: "fp_ops \<Rightarrow> float32 \<Rightarrow> float32" where
  "yaw_deg_of fp Yaw' =
     (let yaw_deg = fp_narrow fp (fp_div fp (fp_mul fp (fp_widen fp Yaw') lit_180) PI);
          yaw_deg = fp_narrow fp (fp_fmod fp (fp_widen fp yaw_deg) lit_360);
          yaw_deg = (if fp_less fp (fp_widen fp yaw_deg) lit_0
                     then fp_narrow fp (fp_add fp (fp_widen fp yaw_deg) lit_360) else yaw_deg);
          yaw_deg = (if fp_less fp lit_180 (fp_widen fp yaw_deg)
                     then fp_narrow fp (fp_sub fp (fp_widen fp yaw_deg) lit_360) else yaw_deg)
      in yaw_deg)"

definition Packet_VirtualStickCommand_Serialize ::
  "fp_ops \<Rightarrow> Packet_VirtualStickCommand \<Rightarrow> Packet \<Rightarrow> Packet" where
  "Packet_VirtualStickCommand_Serialize fp this TargetPacket =
     (let p = AddHeader (Clear TargetPacket) (9 + 21) 252;
          b = encodeField_uint8 (m_data p) (Packet_VirtualStickCommand.Mode this);
          yaw_deg = yaw_deg_of fp (Packet_VirtualStickCommand.Yaw this);
          b = encodeField_float32 b yaw_deg;
          b = encodeField_float32 b (Packet_VirtualStickCommand.V_x this);
          b = encodeField_float32 b (Packet_VirtualStickCommand.V_y this);
          b = encodeField_float32 b (Packet_VirtualStickCommand.HAG this);
          b = encodeField_float32 b (Packet_VirtualStickCommand.timeout this)
      in AddHash (p\<lparr>m_data := b\<rparr>))"

definition Packet_VirtualStickCommand_Deserialize ::
  "fp_ops \<Rightarrow> Packet \<Rightarrow> Packet_VirtualStickCommand
     \<Rightarrow> (bool \<times> Packet_VirtualStickCommand) option" where
  "Packet_VirtualStickCommand_Deserialize fp SourcePacket this =
     do {
       ok \<leftarrow> CheckHashSizeAndPID SourcePacket 252;
       if \<not> ok then Some (False, this)
       else if length (m_data SourcePacket) \<noteq> 9 + 21 then Some (False, this)
       else do {
         (mode, iter) \<leftarrow> decodeField_uint8 (m_data SourcePacket) 7;
         (yaw, iter) \<leftarrow> decodeField_float32 (m_data SourcePacket) iter;
         (v_x, iter) \<leftarrow> decodeField_float32 (m_data SourcePacket) iter;
         (v_y, iter) \<leftarrow> decodeField_float32 (m_data SourcePacket) iter;
         (hag, iter) \<leftarrow> decodeField_float32 (m_data SourcePacket) iter;
         (timeout', iter) \<leftarrow> decodeField_float32 (m_data SourcePacket) iter;
         Some (True, this\<lparr>Packet_VirtualStickCommand.Mode := mode,
                            Packet_VirtualStickCommand.Yaw :=
                              fp_narrow fp (fp_div fp (fp_mul fp (fp_widen fp yaw) PI) lit_180),
                            Packet_VirtualStickCommand.V_x := v_x,
                            Packet_VirtualStickCommand.V_y := v_y,
                            Packet_VirtualStickCommand.HAG := hag,
                            Packet_VirtualStickCommand.timeout := timeout'\<rparr>)
       }
     }"

section \<open>The specification's words\<close>

text \<open>
  The two-stage running sum of the specification: byte by byte,
  \<open>accA += byte; accB += accA\<close>, both modulo 256, on natural numbers.
\<close>

fun running_sums :: "nat list \<Rightarrow> nat \<times> nat \<Rightarrow> nat \<times> nat" where
  "running_sums [] (accA, accB) = (accA, accB)"
| "running_sums (b # bs) (accA, accB) =
     running_sums bs ((accA + b) mod 256, (accB + (accA + b) mod 256) mod 256)"

text \<open>A big-endian unsigned 32-bit integer read from four bytes.\<close>

definition be_u32 :: "byte \<Rightarrow> byte \<Rightarrow> byte \<Rightarrow> byte \<Rightarrow> nat" where
  "be_u32 b0 b1 b2 b3 = unat b0 * 2 ^ 24 + unat b1 * 2 ^ 16 + unat b2 * 2 ^ 8 + unat b3"

text \<open>The sync marker stands at index i, fully inside the buffer.\<close>

definition marker_at :: "byte list \<Rightarrow> nat \<Rightarrow> bool" where
  "marker_at v i = (i + 1 < length v \<and> v ! i = 0xDA \<and> v ! (i + 1) = 0xA7)"

text \<open>
  The advertised total size of a packet with at least 7 bytes: the cached \<open>m_size\<close> when
  the cache is valid, the big-endian size field of the header otherwise.
\<close>

definition advertised_size :: "Packet \<Rightarrow> 32 word" where
  "advertised_size p =
     (if M_highLevelFieldsValid p then m_size p
      else of_nat (be_u32 (m_data p ! 2) (m_data p ! 3) (m_data p ! 4) (m_data p ! 5)))"

text \<open>One step of the checksum loop, on the pair of accumulators.\<close>

definition hash_step :: "byte \<Rightarrow> byte \<times> byte \<Rightarrow> byte \<times> byte" where
  "hash_step b h = (fst h + b, snd h + (fst h + b))"

text \<open>
  The payload bytes that \<open>encodeField_CompressedImage\<close> appends: the JPEG stream, or
  nothing when the frame is not a 3-channel 8-bit image.
\<close>

definition jpeg_bytes :: "(Mat \<Rightarrow> byte list) \<Rightarrow> Mat \<Rightarrow> byte list" where
  "jpeg_bytes imencode x = (if mat_type x = CV_8UC3 then imencode x else [])"

text \<open>The two checksum bytes that \<open>AddHash\<close> appends to a buffer.\<close>

definition hash_bytes :: "byte list \<Rightarrow> byte list" where
  "hash_bytes v = [fst (hash_loop v (length v) 0 (0, 0)), snd (hash_loop v (length v) 0 (0, 0))]"

text \<open>
  The wire format in the specification's words: a multi-byte field is big-endian, most
  significant byte first; a floating-point field is the bit pattern of the value.
\<close>

definition be_nat :: "byte list \<Rightarrow> nat" where
  "be_nat bs = foldl (\<lambda>n b. n * 256 + unat b) 0 bs"

definition wire_u32 :: "byte list \<Rightarrow> nat \<Rightarrow> 32 word" where
  "wire_u32 v i = of_nat (be_nat (take 4 (drop i v)))"

definition wire_u64 :: "byte list \<Rightarrow> nat \<Rightarrow> 64 word" where
  "wire_u64 v i = of_nat (be_nat (take 8 (drop i v)))"

text \<open>
  The waypoint that stands in the 40 bytes at index i: latitude, longitude (degrees on the
  wire, radians in the value), relative altitude, corner radius, speed, loiter time and
  gimbal pitch (degrees on the wire).
\<close>

definition waypoint_at :: "fp_ops \<Rightarrow> byte list \<Rightarrow> nat \<Rightarrow> Waypoint" where
  "waypoint_at fp v i =
     \<lparr>Waypoint.Latitude = fp_div fp (fp_mul fp (wire_u64 v i) PI) lit_180,
      Waypoint.Longitude = fp_div fp (fp_mul fp (wire_u64 v (i + 8)) PI) lit_180,
      Waypoint.RelAltitude = wire_u64 v (i + 16),
      Waypoint.CornerRadius = wire_u32 v (i + 24),
      Waypoint.Speed = wire_u32 v (i + 28),
      Waypoint.LoiterTime = wire_u32 v (i + 32),
      Waypoint.GimbalPitch =
        fp_narrow fp (fp_div fp (fp_mul fp (fp_widen fp (wire_u32 v (i + 36))) PI) lit_180)\<rparr>"

text \<open>A received packet holding the given bytes, and two mission packets with valid
  checksums: 51 bytes (one waypoint, all fields zero) and 52 bytes.\<close>

definition packet_of :: "byte list \<Rightarrow> Packet" where
  "packet_of v = \<lparr>m_data = v, m_size = 0, m_PID = 0, M_highLevelFieldsValid = False\<rparr>"

definition mission_51 :: "byte list" where
  "mission_51 = [218, 167, 0, 0, 0, 51, 253, 1, 0,
                 0, 0, 0, 0, 0, 0, 0, 0, 0, 0, 0, 0, 0, 0, 0, 0, 0, 0, 0, 0,
                 0, 0, 0, 0, 0, 0, 0, 0, 0, 0, 0, 0, 0, 0, 0, 0, 0, 0, 0, 0, 178, 119]"

definition mission_52 :: "byte list" where
  "mission_52 = [218, 167, 0, 0, 0, 52, 253, 1, 1,
                 0, 0, 0, 0, 0, 0, 0, 0, 0, 0, 0, 0, 0, 0, 0, 0, 0, 0, 0, 0,
                 0, 0, 0, 0, 0, 0, 0, 0, 0, 0, 0, 0, 0, 0, 0, 0, 0, 0, 0, 0, 0, 180, 128]"

text \<open>
  The unit conversions as the source writes them: \<open>x*180.0/PI\<close> and \<open>x*PI/180.0\<close> in
  \<open>double\<close>; a \<open>float\<close> operand is widened first and the result narrowed.
\<close>

definition deg_of_rad64 :: "fp_ops \<Rightarrow> float64 \<Rightarrow> float64" where
  "deg_of_rad64 fp x = fp_div fp (fp_mul fp x lit_180) PI"

definition rad_of_deg64 :: "fp_ops \<Rightarrow> float64 \<Rightarrow> float64" where
  "rad_of_deg64 fp x = fp_div fp (fp_mul fp x PI) lit_180"

definition deg_of_rad32 :: "fp_ops \<Rightarrow> float32 \<Rightarrow> float32" where
  "deg_of_rad32 fp x = fp_narrow fp (fp_div fp (fp_mul fp (fp_widen fp x) lit_180) PI)"

definition rad_of_deg32 :: "fp_ops \<Rightarrow> float32 \<Rightarrow> float32" where
  "rad_of_deg32 fp x = fp_narrow fp (fp_div fp (fp_mul fp (fp_widen fp x) PI) lit_180)"

text \<open>
  The wrap that \<open>Packet_VirtualStickCommand::Serialize\<close> applies to the degrees value,
  a \<open>float\<close>: \<open>fmod\<close> by 360, plus 360 when negative, minus 360 when above 180.
\<close>

definition wrap_180 :: "fp_ops \<Rightarrow> float32 \<Rightarrow> float32" where
  "wrap_180 fp d =
     (let y = fp_narrow fp (fp_fmod fp (fp_widen fp d) lit_360);
          y = (if fp_less fp (fp_widen fp y) lit_0
               then fp_narrow fp (fp_add fp (fp_widen fp y) lit_360) else y);
          y = (if fp_less fp lit_180 (fp_widen fp y)
               then fp_narrow fp (fp_sub fp (fp_widen fp y) lit_360) else y)
      in y)"

text \<open>
  A waypoint after one trip over the wire: latitude, longitude and gimbal pitch converted
  to degrees and back, every other field as it was.
\<close>

definition wire_trip :: "fp_ops \<Rightarrow> Waypoint \<Rightarrow> Waypoint" where
  "wire_trip fp w =
     w\<lparr>Waypoint.Latitude := rad_of_deg64 fp (deg_of_rad64 fp (Waypoint.Latitude w)),
       Waypoint.Longitude := rad_of_deg64 fp (deg_of_rad64 fp (Waypoint.Longitude w)),
       Waypoint.GimbalPitch := rad_of_deg32 fp (deg_of_rad32 fp (Waypoint.GimbalPitch w))\<rparr>"

text \<open>The 40 bytes of a waypoint on the wire.\<close>

definition wp_bytes :: "fp_ops \<Rightarrow> Waypoint \<Rightarrow> byte list" where
  "wp_bytes fp w =
     encodeField_float64 [] (deg_of_rad64 fp (Waypoint.Latitude w))
     @ encodeField_float64 [] (deg_of_rad64 fp (Waypoint.Longitude w))
     @ encodeField_float64 [] (Waypoint.RelAltitude w)
     @ encodeField_float32 [] (Waypoint.CornerRadius w)
     @ encodeField_float32 [] (Waypoint.Speed w)
     @ encodeField_float32 [] (Waypoint.LoiterTime w)
     @ encodeField_float32 [] (deg_of_rad32 fp (Waypoint.GimbalPitch w))"

text \<open>The bytes of a serialized mission before its checksum.\<close>

definition mission_wire :: "fp_ops \<Rightarrow> Packet_ExecuteWaypointMission \<Rightarrow> byte list" where
  "mission_wire fp m =
     [0xDA, 0xA7] @ encodeField_uint32 [] (9 + 2 + 40 * of_nat (length (Waypoints m)))
     @ [253] @ [LandAtEnd m, CurvedFlight m] @ concat (map (wp_bytes fp) (Waypoints m))"

section \<open>Lemmas on the codec\<close>

lemma byte_lt: "unat (a::byte) < 256"
  using unsigned_less [of a, where ?'a = nat] by simp

lemma shl8_add: "push_bit 8 (w::'a::len word) + ucast (b::byte) = push_bit 8 w OR ucast b"
  by (rule disjunctive_add_eq_or) (auto simp add: bit_eq_iff bit_simps dest: bit_imp_le_length)

lemma be_step:
  "k' = k + 8 \<Longrightarrow>
   push_bit 8 (drop_bit k' x) OR ucast (ucast (drop_bit k x) :: byte) = drop_bit k (x :: 'a::len word)"
proof (rule bit_word_eqI)
  fix n assume k: "k' = k + 8" and n: "n < LENGTH('a)"
  show "bit (push_bit 8 (drop_bit k' x) OR ucast (ucast (drop_bit k x) :: byte)) n
        = bit (drop_bit k x) n"
  proof (cases "n < 8")
    case True
    then show ?thesis using n by (simp add: bit_simps)
  next
    case False
    then have "k + (8 + (n - 8)) = n + k" by simp
    then show ?thesis using n False k by (simp add: bit_simps ac_simps)
  qed
qed

lemma be_step0: "push_bit 8 (drop_bit 8 x) OR ucast (ucast x :: byte) = (x :: 'a::len word)"
  using be_step [of 8 0 x] by simp

lemma be_top16: "ucast (ucast (drop_bit 8 x) :: byte) = drop_bit 8 (x :: 16 word)"
  by (rule bit_word_eqI) (auto simp add: bit_simps dest: bit_imp_le_length)

lemma be_top32: "ucast (ucast (drop_bit 24 x) :: byte) = drop_bit 24 (x :: 32 word)"
  by (rule bit_word_eqI) (auto simp add: bit_simps dest: bit_imp_le_length)

lemma be_top64: "ucast (ucast (drop_bit 56 x) :: byte) = drop_bit 56 (x :: 64 word)"
  by (rule bit_word_eqI) (auto simp add: bit_simps dest: bit_imp_le_length)

lemma be16_enc:
  "push_bit 8 (ucast (ucast (drop_bit 8 x) :: byte)) + ucast (ucast x :: byte) = (x::16 word)"
  unfolding shl8_add by (simp add: be_top16 be_step0)

lemma be32_enc:
  "push_bit 8 (push_bit 8 (push_bit 8 (ucast (ucast (drop_bit 24 x) :: byte))
      + ucast (ucast (drop_bit 16 x) :: byte)) + ucast (ucast (drop_bit 8 x) :: byte))
      + ucast (ucast x :: byte) = (x::32 word)"
  unfolding shl8_add by (simp add: be_top32 be_step be_step0)

lemma be64_enc:
  "push_bit 8 (push_bit 8 (push_bit 8 (push_bit 8 (push_bit 8 (push_bit 8 (push_bit 8
      (ucast (ucast (drop_bit 56 x) :: byte))
      + ucast (ucast (drop_bit 48 x) :: byte)) + ucast (ucast (drop_bit 40 x) :: byte))
      + ucast (ucast (drop_bit 32 x) :: byte)) + ucast (ucast (drop_bit 24 x) :: byte))
      + ucast (ucast (drop_bit 16 x) :: byte)) + ucast (ucast (drop_bit 8 x) :: byte))
      + ucast (ucast x :: byte) = (x::64 word)"
  unfolding shl8_add by (simp add: be_top64 be_step be_step0)

lemma shl8_unat:
  "unat w < 2 ^ 24 \<Longrightarrow> unat (push_bit 8 (w::32 word) + ucast (b::byte)) = unat w * 256 + unat b"
  using byte_lt [of b]
  by (simp add: unat_word_ariths unsigned_ucast_eq unsigned_push_bit_eq take_bit_eq_mod
      push_bit_eq_mult)

lemma be32_unat:
  "unat (push_bit 8 (push_bit 8 (push_bit 8 (ucast a) + ucast b) + ucast c) + ucast d :: 32 word)
   = be_u32 a b c d"
proof -
  have 1: "unat (ucast a :: 32 word) = unat a"
    using byte_lt [of a] by (simp add: unsigned_ucast_eq take_bit_eq_mod)
  have a: "unat a < 256" "unat b < 256" "unat c < 256" by (rule byte_lt)+
  have 2: "unat (push_bit 8 (ucast a :: 32 word) + ucast b) = unat a * 256 + unat b"
    using a by (subst shl8_unat) (simp_all add: 1)
  have 3: "unat (push_bit 8 (push_bit 8 (ucast a :: 32 word) + ucast b) + ucast c)
           = (unat a * 256 + unat b) * 256 + unat c"
    using a by (subst shl8_unat) (simp_all add: 2)
  show ?thesis
    unfolding be_u32_def using a by (subst shl8_unat) (simp_all add: 3)
qed

lemma decodeField_uint8_nth:
  "Iter < length v \<Longrightarrow> decodeField_uint8 v Iter = Some (v ! Iter, Iter + 1)"
  by (simp add: decodeField_uint8_def)

lemma decodeField_uint32_nth:
  "Iter + 4 \<le> length v \<Longrightarrow>
   decodeField_uint32 v Iter =
     Some (push_bit 8 (push_bit 8 (push_bit 8 (ucast (v ! Iter)) + ucast (v ! (Iter + 1)))
             + ucast (v ! (Iter + 2))) + ucast (v ! (Iter + 3)), Iter + 4)"
proof -
  assume a: "Iter + 4 \<le> length v"
  have e: "Iter + 2 = Suc (Suc Iter)" "Iter + 3 = Suc (Suc (Suc Iter))" by simp_all
  show ?thesis
    using a by (simp add: decodeField_uint32_def decodeField_uint8_def e)
qed

section \<open>Lemmas on the checksum\<close>

lemma hash_step_pair: "hash_step b (hashA, hashB) = (hashA + b, hashB + (hashA + b))"
  by (simp add: hash_step_def)

lemma hash_loop_fold:
  "stop \<le> length v \<Longrightarrow> hash_loop v stop n h = fold hash_step (take (stop - n) (drop n v)) h"
proof (induction v stop n h rule: hash_loop.induct)
  case (1 v stop n hashA hashB)
  show ?case
  proof (cases "n < stop")
    case True
    then have n: "n < length v" using "1.prems" by simp
    have "drop n v = v ! n # drop (n + 1) v"
      using n by (simp add: Cons_nth_drop_Suc)
    moreover have "stop - n = Suc (stop - (n + 1))"
      using True by simp
    ultimately have "take (stop - n) (drop n v) = v ! n # take (stop - (n + 1)) (drop (n + 1) v)"
      by (metis take_Suc_Cons)
    then show ?thesis
      using True "1.IH" [OF True "1.prems"]
      by (subst hash_loop.simps) (simp add: hash_step_pair)
  next
    case False
    then show ?thesis by (subst hash_loop.simps) simp
  qed
qed

lemma fold_hash_step_running_sums:
  "unat hashA = a \<Longrightarrow> unat hashB = b \<Longrightarrow>
   running_sums (map unat bs) (a, b) =
     (unat (fst (fold hash_step bs (hashA, hashB))), unat (snd (fold hash_step bs (hashA, hashB))))"
proof (induction bs arbitrary: hashA hashB a b)
  case Nil
  then show ?case by simp
next
  case (Cons x bs)
  have A: "unat (hashA + x) = (a + unat x) mod 256"
    using Cons.prems by (simp add: unat_word_ariths)
  have B: "unat (hashB + (hashA + x)) = (b + (a + unat x) mod 256) mod 256"
    using Cons.prems by (simp add: unat_word_ariths mod_add_right_eq)
  show ?case
    using Cons.IH [OF A B] by (simp add: hash_step_pair)
qed

lemma hash_loop_running_sums:
  "stop \<le> length v \<Longrightarrow>
   running_sums (map unat (take stop v)) (0, 0) =
     (unat (fst (hash_loop v stop 0 (0, 0))), unat (snd (hash_loop v stop 0 (0, 0))))"
  using fold_hash_step_running_sums [of 0 0 0 0 "take stop v"]
  by (simp add: hash_loop_fold)

section \<open>Lemmas on the packet operations\<close>

lemma CheckHash_char:
  "CheckHash p =
     Some (9 \<le> length (m_data p)
           \<and> be_u32 (m_data p ! 2) (m_data p ! 3) (m_data p ! 4) (m_data p ! 5)
               = length (m_data p)
           \<and> running_sums (map unat (take (length (m_data p) - 2) (m_data p))) (0, 0)
               = (unat (m_data p ! (length (m_data p) - 2)),
                  unat (m_data p ! (length (m_data p) - 1))))"
proof (cases "length (m_data p) < 9")
  case True
  then show ?thesis by (simp add: CheckHash_def)
next
  case False
  then have dec: "decodeField_uint32 (m_data p) 2 =
      Some (push_bit 8 (push_bit 8 (push_bit 8 (ucast (m_data p ! 2)) + ucast (m_data p ! 3))
             + ucast (m_data p ! 4)) + ucast (m_data p ! 5), 6)"
    using decodeField_uint32_nth [of 2 "m_data p"] by simp
  have rs: "running_sums (map unat (take (length (m_data p) - 2) (m_data p))) (0, 0) =
      (unat (fst (hash_loop (m_data p) (length (m_data p) - 2) 0 (0, 0))),
       unat (snd (hash_loop (m_data p) (length (m_data p) - 2) 0 (0, 0))))"
    using hash_loop_running_sums [of "length (m_data p) - 2" "m_data p"] by simp
  show ?thesis
    using False
    by (auto simp add: CheckHash_def dec be32_unat rs word_unat_eq_iff split: prod.split)
qed

lemma sync_scan_None:
  "sync_scan v n = None \<longleftrightarrow> (\<forall>i. n \<le> i \<longrightarrow> \<not> marker_at v i)"
proof (induction v n rule: sync_scan.induct)
  case (1 v n)
  show ?case
  proof (cases "n + 1 < length v")
    case True
    show ?thesis
    proof (cases "v ! n = 218 \<and> v ! (n + 1) = 167")
      case m: True
      then have "marker_at v n" using True by (simp add: marker_at_def)
      then show ?thesis using True m by (subst sync_scan.simps) auto
    next
      case False
      then have nm: "\<not> marker_at v n" by (auto simp add: marker_at_def)
      have "(\<forall>i. n \<le> i \<longrightarrow> \<not> marker_at v i) \<longleftrightarrow> (\<forall>i. n + 1 \<le> i \<longrightarrow> \<not> marker_at v i)"
      proof -
        have "n + 1 \<le> i" if "n \<le> i" "marker_at v i" for i
          using that nm by (cases "i = n") auto
        then show ?thesis by (metis (no_types) le_add1 le_trans)
      qed
      moreover have "sync_scan v n = sync_scan v (n + 1)"
        using True False by (subst sync_scan.simps) auto
      ultimately show ?thesis
        using "1.IH" [OF True False] by simp
    qed
  next
    case False
    then have "\<forall>i. n \<le> i \<longrightarrow> \<not> marker_at v i" by (auto simp add: marker_at_def)
    then show ?thesis using False by (subst sync_scan.simps) simp
  qed
qed

lemma sync_scan_Some:
  "sync_scan v n = Some i \<Longrightarrow> n \<le> i \<and> marker_at v i \<and> (\<forall>j. n \<le> j \<and> j < i \<longrightarrow> \<not> marker_at v j)"
proof (induction v n rule: sync_scan.induct)
  case (1 v n)
  show ?case
  proof (cases "n + 1 < length v")
    case True
    show ?thesis
    proof (cases "v ! n = 218 \<and> v ! (n + 1) = 167")
      case m: True
      then have "sync_scan v n = Some n" using True by (subst sync_scan.simps) simp
      then show ?thesis using "1.prems" True m by (auto simp add: marker_at_def)
    next
      case False
      then have nm: "\<not> marker_at v n" by (auto simp add: marker_at_def)
      have "sync_scan v n = sync_scan v (n + 1)"
        using True False by (subst sync_scan.simps) auto
      then have ih: "n + 1 \<le> i \<and> marker_at v i \<and> (\<forall>j. n + 1 \<le> j \<and> j < i \<longrightarrow> \<not> marker_at v j)"
        using "1.IH" [OF True False] "1.prems" by simp
      have "\<not> marker_at v j" if "n \<le> j" "j < i" for j
        using that nm ih by (cases "j = n") auto
      then show ?thesis using ih by auto
    qed
  next
    case False
    then have "sync_scan v n = None" by (subst sync_scan.simps) simp
    then show ?thesis using "1.prems" by simp
  qed
qed

lemma ForwardScanForSync_None:
  "m_data p \<noteq> [] \<Longrightarrow> sync_scan (m_data p) 1 = None \<Longrightarrow>
   ForwardScanForSync p =
     (if 1 < length (m_data p) \<and> last (m_data p) = 218
      then p\<lparr>m_data := [218], M_highLevelFieldsValid := False\<rparr>
      else p\<lparr>m_data := [], M_highLevelFieldsValid := False\<rparr>)"
  by (simp add: ForwardScanForSync_def)

lemma ForwardScanForSync_Some:
  "m_data p \<noteq> [] \<Longrightarrow> sync_scan (m_data p) 1 = Some k \<Longrightarrow>
   ForwardScanForSync p = p\<lparr>m_data := drop k (m_data p), M_highLevelFieldsValid := False\<rparr>"
  by (simp add: ForwardScanForSync_def)

lemma be32_of_nat:
  "push_bit 8 (push_bit 8 (push_bit 8 (ucast a) + ucast b) + ucast c) + ucast d
   = (of_nat (be_u32 a b c d) :: 32 word)"
  by (simp only: be32_unat [symmetric] of_nat_unat ucast_id)

lemma BytesNeeded_result:
  assumes "7 \<le> length (m_data p)"
  shows "BytesNeeded p ByteCount =
     Some (True, advertised_size p - of_nat (length (m_data p)),
           if M_highLevelFieldsValid p then p
           else p\<lparr>m_size := advertised_size p, m_PID := m_data p ! 6,
                  M_highLevelFieldsValid := True\<rparr>)"
proof (cases "M_highLevelFieldsValid p")
  case True
  then show ?thesis using assms by (simp add: BytesNeeded_def advertised_size_def)
next
  case False
  have dec: "decodeField_uint32 (m_data p) 2 = Some (advertised_size p, 6)"
    using assms False decodeField_uint32_nth [of 2 "m_data p"]
    by (simp add: be32_of_nat advertised_size_def)
  have dec8: "decodeField_uint8 (m_data p) 6 = Some (m_data p ! 6, 7)"
    using assms by (simp add: decodeField_uint8_nth)
  show ?thesis
    using assms False by (simp add: BytesNeeded_def dec dec8)
qed

lemma encodeField_sync:
  "encodeField_uint16 Buffer 55975 = Buffer @ [0xDA, 0xA7]"
proof -
  have "(ucast (drop_bit 8 (55975 :: 16 word)) :: byte) = 0xDA" by simp
  moreover have "(ucast (55975 :: 16 word) :: byte) = 0xA7" by simp
  ultimately show ?thesis by (simp only: encodeField_uint16_def)
qed

lemma AddHeader_data:
  "m_data (AddHeader p Size PID) =
     m_data p @ [0xDA, 0xA7, ucast (drop_bit 24 Size), ucast (drop_bit 16 Size),
                 ucast (drop_bit 8 Size), ucast Size, PID]"
  by (simp add: AddHeader_def encodeField_sync encodeField_uint32_def encodeField_uint8_def)

lemma AddHeader_other:
  "m_size (AddHeader p Size PID) = m_size p"
  "m_PID (AddHeader p Size PID) = m_PID p"
  "M_highLevelFieldsValid (AddHeader p Size PID) = M_highLevelFieldsValid p"
  by (simp_all add: AddHeader_def)

lemma be_u32_bytes:
  "be_u32 (ucast (drop_bit 24 x)) (ucast (drop_bit 16 x)) (ucast (drop_bit 8 x)) (ucast x)
   = unat (x :: 32 word)"
  by (simp only: be32_unat [symmetric] be32_enc)

lemma AddHash_data:
  "\<exists>hashA hashB. m_data (AddHash p) = m_data p @ [hashA, hashB]"
  by (simp add: AddHash_def encodeField_uint8_def split: prod.split)

lemma AddHash_nth:
  "k < length (m_data p) \<Longrightarrow> m_data (AddHash p) ! k = m_data p ! k"
  using AddHash_data [of p] by (auto simp add: nth_append)

lemma AddHash_length: "length (m_data (AddHash p)) = length (m_data p) + 2"
  using AddHash_data [of p] by auto

section \<open>Lemmas on the string decoder\<close>

lemma string_loop_short:
  "0 < k \<Longrightarrow> length v < Iter + k \<Longrightarrow> string_loop v Iter k S = None"
proof (induction k arbitrary: Iter S)
  case 0
  then show ?case by simp
next
  case (Suc k)
  show ?case
  proof (cases "Iter < length v")
    case True
    have "length v < (Iter + 1) + k" using Suc.prems by simp
    moreover from this True have "0 < k" by simp
    ultimately have "string_loop v (Iter + 1) k (S @ [char_of (unat (v ! Iter))]) = None"
      by (rule Suc.IH [rotated])
    then show ?thesis using True by (simp add: decodeField_uint8_def)
  next
    case False
    then show ?thesis by (simp add: decodeField_uint8_def)
  qed
qed

lemma string_loop_enough:
  "Iter + k \<le> length v \<Longrightarrow>
   string_loop v Iter k S = Some (S @ map (\<lambda>b. char_of (unat b)) (take k (drop Iter v)), Iter + k)"
proof (induction k arbitrary: Iter S)
  case 0
  then show ?case by simp
next
  case (Suc k)
  have lt: "Iter < length v" using Suc.prems by simp
  have "(Iter + 1) + k \<le> length v" using Suc.prems by simp
  from Suc.IH [OF this, of "S @ [char_of (unat (v ! Iter))]"]
  have "string_loop v (Iter + 1) k (S @ [char_of (unat (v ! Iter))]) =
     Some (S @ char_of (unat (v ! Iter)) # map (\<lambda>b. char_of (unat b)) (take k (drop (Iter + 1) v)),
           Iter + Suc k)"
    by simp
  moreover have "take (Suc k) (drop Iter v) = v ! Iter # take k (drop (Iter + 1) v)"
    using lt by (metis Cons_nth_drop_Suc Suc_eq_plus1 take_Suc_Cons)
  ultimately show ?case using lt by (simp add: decodeField_uint8_def)
qed

section \<open>Lemmas on the messages\<close>

lemma decodeField_uint8_drop:
  assumes "drop i v = b # r"
  shows "decodeField_uint8 v i = Some (b, Suc i)" and "drop (Suc i) v = r"
proof -
  have lt: "i < length v" using assms by (cases "i < length v") simp_all
  have "v ! i = hd (drop i v)" using lt by (simp add: hd_drop_conv_nth)
  then show "decodeField_uint8 v i = Some (b, Suc i)"
    using assms lt by (simp add: decodeField_uint8_def)
  have "drop (Suc i) v = tl (drop i v)" by (simp add: drop_Suc tl_drop)
  then show "drop (Suc i) v = r" using assms by simp
qed

lemma drop_step: "drop i v = xs @ r \<Longrightarrow> drop (i + length xs) v = r"
proof -
  assume a: "drop i v = xs @ r"
  have "drop (i + length xs) v = drop (length xs) (drop i v)"
    by (simp add: add.commute)
  then show ?thesis using a by simp
qed

lemma decodeField_uint16_drop:
  assumes "drop i v = encodeField_uint16 [] x @ r"
  shows "decodeField_uint16 v i = Some (x, i + 2)"
proof -
  have 0: "drop i v = ucast (drop_bit 8 x) # ucast x # r"
    using assms by (simp add: encodeField_uint16_def)
  note d0 = decodeField_uint8_drop [OF 0]
  note d1 = decodeField_uint8_drop [OF d0(2)]
  show ?thesis
    unfolding decodeField_uint16_def
    by (simp add: d0(1) d1(1) be16_enc)
qed

lemma decodeField_uint32_drop:
  assumes "drop i v = encodeField_uint32 [] x @ r"
  shows "decodeField_uint32 v i = Some (x, i + 4)"
proof -
  have 0: "drop i v = ucast (drop_bit 24 x) # ucast (drop_bit 16 x) # ucast (drop_bit 8 x) # ucast x # r"
    using assms by (simp add: encodeField_uint32_def)
  note d0 = decodeField_uint8_drop [OF 0]
  note d1 = decodeField_uint8_drop [OF d0(2)]
  note d2 = decodeField_uint8_drop [OF d1(2)]
  note d3 = decodeField_uint8_drop [OF d2(2)]
  show ?thesis
    unfolding decodeField_uint32_def
    by (simp add: d0(1) d1(1) d2(1) d3(1) be32_enc)
qed

lemma decodeField_uint64_drop:
  assumes "drop i v = encodeField_uint64 [] x @ r"
  shows "decodeField_uint64 v i = Some (x, i + 8)"
proof -
  have 0: "drop i v = ucast (drop_bit 56 x) # ucast (drop_bit 48 x) # ucast (drop_bit 40 x)
      # ucast (drop_bit 32 x) # ucast (drop_bit 24 x) # ucast (drop_bit 16 x)
      # ucast (drop_bit 8 x) # ucast x # r"
    using assms by (simp add: encodeField_uint64_def)
  note d0 = decodeField_uint8_drop [OF 0]
  note d1 = decodeField_uint8_drop [OF d0(2)]
  note d2 = decodeField_uint8_drop [OF d1(2)]
  note d3 = decodeField_uint8_drop [OF d2(2)]
  note d4 = decodeField_uint8_drop [OF d3(2)]
  note d5 = decodeField_uint8_drop [OF d4(2)]
  note d6 = decodeField_uint8_drop [OF d5(2)]
  note d7 = decodeField_uint8_drop [OF d6(2)]
  show ?thesis
    unfolding decodeField_uint64_def
    by (simp add: d0(1) d1(1) d2(1) d3(1) d4(1) d5(1) d6(1) d7(1) be64_enc)
qed

lemma AddHash_hash_bytes: "m_data (AddHash p) = m_data p @ hash_bytes (m_data p)"
  by (simp add: AddHash_def hash_bytes_def encodeField_uint8_def split: prod.split)

lemma length_hash_bytes [simp]: "length (hash_bytes v) = 2"
  by (simp add: hash_bytes_def)

lemma length_encode [simp]:
  "length (encodeField_uint8 [] x8) = 1"
  "length (encodeField_uint16 [] x16) = 2"
  "length (encodeField_uint32 [] x32) = 4"
  "length (encodeField_uint64 [] x64) = 8"
  "length (encodeField_float32 [] x32) = 4"
  "length (encodeField_float64 [] x64) = 8"
  by (simp_all add: encodeField_uint8_def encodeField_uint16_def encodeField_uint32_def
      encodeField_uint64_def encodeField_float32_def encodeField_float64_def)

lemma hash_loop_append:
  "hash_loop (v @ w) (length v) 0 h = hash_loop v (length v) 0 h"
  by (simp add: hash_loop_fold)

lemma CheckHash_framed:
  assumes d: "v = [0xDA, 0xA7] @ encodeField_uint32 [] S @ [PID] @ payload @ hash_bytes
                ([0xDA, 0xA7] @ encodeField_uint32 [] S @ [PID] @ payload)"
    and S: "unat S = length payload + 9"
  shows "CheckHashSizeAndPID (p\<lparr>m_data := v\<rparr>) PID' = Some (PID = PID')"
proof -
  let ?b = "[0xDA, 0xA7] @ encodeField_uint32 [] S @ [PID] @ payload"
  have v: "v = ?b @ hash_bytes ?b" using d by simp
  have lb: "length ?b = length payload + 7" by simp
  have lv: "length v = length payload + 9" by (simp add: v lb)
  have "drop 2 v = encodeField_uint32 [] S @ ([PID] @ payload @ hash_bytes ?b)"
    by (simp add: d)
  from decodeField_uint32_drop [OF this]
  have dec: "decodeField_uint32 v 2 = Some (S, 6)" by simp
  have "drop 6 v = PID # (payload @ hash_bytes ?b)"
    by (simp add: d encodeField_uint32_def)
  from decodeField_uint8_drop(1) [OF this]
  have pid: "decodeField_uint8 v 6 = Some (PID, 7)" by simp
  have hl: "hash_loop v (length v - 2) 0 (0, 0) = hash_loop ?b (length ?b) 0 (0, 0)"
  proof -
    have "length v - 2 = length ?b" by (simp add: lv)
    then show ?thesis
      using hash_loop_append [of ?b "hash_bytes ?b" "(0, 0)"] v by simp
  qed
  have i1: "length v - 2 = length ?b" and i2: "length v - 1 = length ?b + 1"
    by (simp_all add: lv)
  have n1: "v ! (length v - 2) = fst (hash_loop ?b (length ?b) 0 (0, 0))"
    unfolding i1 by (subst v) (simp add: nth_append hash_bytes_def del: append.simps)
  have n2: "v ! (length v - 1) = snd (hash_loop ?b (length ?b) 0 (0, 0))"
    unfolding i2 by (subst v) (simp add: nth_append hash_bytes_def del: append.simps)
  have ge: "\<not> length v < 9" and eq: "unat S = length v" by (simp_all add: lv S)
  have "CheckHash (p\<lparr>m_data := v\<rparr>) = Some True"
    by (simp add: CheckHash_def dec ge eq hl n1 n2 [unfolded One_nat_def] split: prod.split)
  then show ?thesis
    by (simp add: CheckHashSizeAndPID_def pid)
qed

lemma AddHash_eq: "AddHash p = p\<lparr>m_data := m_data p @ hash_bytes (m_data p)\<rparr>"
  by (simp add: AddHash_def hash_bytes_def encodeField_uint8_def split: prod.split)

lemma dec_u8:
  assumes "drop i v = encodeField_uint8 [] x @ r"
  shows "decodeField_uint8 v i = Some (x, i + 1)" and "drop (i + 1) v = r"
  using decodeField_uint8_drop [of i v x r] assms by (simp_all add: encodeField_uint8_def)

lemma dec_u16:
  assumes "drop i v = encodeField_uint16 [] x @ r"
  shows "decodeField_uint16 v i = Some (x, i + 2)" and "drop (i + 2) v = r"
  using decodeField_uint16_drop [OF assms] drop_step [OF assms] by simp_all

lemma dec_u32:
  assumes "drop i v = encodeField_uint32 [] x @ r"
  shows "decodeField_uint32 v i = Some (x, i + 4)" and "drop (i + 4) v = r"
  using decodeField_uint32_drop [OF assms] drop_step [OF assms] by simp_all

lemma dec_u64:
  assumes "drop i v = encodeField_uint64 [] x @ r"
  shows "decodeField_uint64 v i = Some (x, i + 8)" and "drop (i + 8) v = r"
  using decodeField_uint64_drop [OF assms] drop_step [OF assms] by simp_all

lemma dec_f32:
  assumes "drop i v = encodeField_float32 [] x @ r"
  shows "decodeField_float32 v i = Some (x, i + 4)" and "drop (i + 4) v = r"
  using dec_u32 [of i v x r] assms by (simp_all add: encodeField_float32_def decodeField_float32_def)

lemma dec_f64:
  assumes "drop i v = encodeField_float64 [] x @ r"
  shows "decodeField_float64 v i = Some (x, i + 8)" and "drop (i + 8) v = r"
  using dec_u64 [of i v x r] assms by (simp_all add: encodeField_float64_def decodeField_float64_def)

lemma encode_app:
  "B \<noteq> [] \<Longrightarrow> encodeField_uint8 B x8 = B @ encodeField_uint8 [] x8"
  "B \<noteq> [] \<Longrightarrow> encodeField_uint16 B x16 = B @ encodeField_uint16 [] x16"
  "B \<noteq> [] \<Longrightarrow> encodeField_uint32 B x32 = B @ encodeField_uint32 [] x32"
  "B \<noteq> [] \<Longrightarrow> encodeField_uint64 B x64 = B @ encodeField_uint64 [] x64"
  "B \<noteq> [] \<Longrightarrow> encodeField_float32 B x32 = B @ encodeField_float32 [] x32"
  "B \<noteq> [] \<Longrightarrow> encodeField_float64 B x64 = B @ encodeField_float64 [] x64"
  by (simp_all add: encodeField_uint8_def encodeField_uint16_def encodeField_uint32_def
      encodeField_uint64_def encodeField_float32_def encodeField_float64_def)

lemma header_data:
  "m_data (AddHeader (Clear p) S PID) = [0xDA, 0xA7] @ encodeField_uint32 [] S @ [PID]"
  by (simp add: AddHeader_data Clear_def encodeField_uint32_def)

lemma CoreTelemetry_roundtrip:
  "Packet_CoreTelemetry_Deserialize (Packet_CoreTelemetry_Serialize m p) this = Some (True, m)"
proof -
  define pl where "pl = encodeField_uint8 [] (Packet_CoreTelemetry.IsFlying m)
    @ encodeField_float64 [] (Packet_CoreTelemetry.Latitude m)
    @ encodeField_float64 [] (Packet_CoreTelemetry.Longitude m)
    @ encodeField_float64 [] (Packet_CoreTelemetry.Altitude m)
    @ encodeField_float64 [] (Packet_CoreTelemetry.HAG m)
    @ encodeField_float32 [] (Packet_CoreTelemetry.V_N m)
    @ encodeField_float32 [] (Packet_CoreTelemetry.V_E m)
    @ encodeField_float32 [] (Packet_CoreTelemetry.V_D m)
    @ encodeField_float64 [] (Packet_CoreTelemetry.Yaw m)
    @ encodeField_float64 [] (Packet_CoreTelemetry.Pitch m)
    @ encodeField_float64 [] (Packet_CoreTelemetry.Roll m)"
  define b where "b = [0xDA, 0xA7] @ encodeField_uint32 [] 78 @ [0 :: byte] @ pl"
  define v where "v = b @ hash_bytes b"
  define q where "q = AddHeader (Clear p) 78 0"
  have ser: "Packet_CoreTelemetry_Serialize m p = q\<lparr>m_data := v\<rparr>"
    unfolding v_def b_def pl_def q_def
    by (simp add: Packet_CoreTelemetry_Serialize_def Let_def AddHash_eq header_data encode_app)
  have lpl: "length pl = 69" by (simp add: pl_def)
  have lv: "length v = 78" by (simp add: v_def b_def lpl)
  have chk: "CheckHashSizeAndPID (q\<lparr>m_data := v\<rparr>) 0 = Some True"
    using CheckHash_framed [of v 78 0 pl q 0] by (simp add: v_def b_def lpl)
  have d0: "drop 7 v = encodeField_uint8 [] (Packet_CoreTelemetry.IsFlying m)
    @ (encodeField_float64 [] (Packet_CoreTelemetry.Latitude m)
    @ (encodeField_float64 [] (Packet_CoreTelemetry.Longitude m)
    @ (encodeField_float64 [] (Packet_CoreTelemetry.Altitude m)
    @ (encodeField_float64 [] (Packet_CoreTelemetry.HAG m)
    @ (encodeField_float32 [] (Packet_CoreTelemetry.V_N m)
    @ (encodeField_float32 [] (Packet_CoreTelemetry.V_E m)
    @ (encodeField_float32 [] (Packet_CoreTelemetry.V_D m)
    @ (encodeField_float64 [] (Packet_CoreTelemetry.Yaw m)
    @ (encodeField_float64 [] (Packet_CoreTelemetry.Pitch m)
    @ (encodeField_float64 [] (Packet_CoreTelemetry.Roll m) @ hash_bytes b))))))))))"
    by (simp add: v_def b_def pl_def)
  note a1 = dec_u8 [OF d0, simplified]
  note a2 = dec_f64 [OF a1(2), simplified]
  note a3 = dec_f64 [OF a2(2), simplified]
  note a4 = dec_f64 [OF a3(2), simplified]
  note a5 = dec_f64 [OF a4(2), simplified]
  note a6 = dec_f32 [OF a5(2), simplified]
  note a7 = dec_f32 [OF a6(2), simplified]
  note a8 = dec_f32 [OF a7(2), simplified]
  note a9 = dec_f64 [OF a8(2), simplified]
  note a10 = dec_f64 [OF a9(2), simplified]
  note a11 = dec_f64 [OF a10(2), simplified]
  show ?thesis
    unfolding ser
    by (simp add: Packet_CoreTelemetry_Deserialize_def chk lv a1(1) a2(1) a3(1) a4(1) a5(1)
        a6(1) a7(1) a8(1) a9(1) a10(1) a11(1))
qed

lemma Acknowledgment_roundtrip:
  "Packet_Acknowledgment_Deserialize (Packet_Acknowledgment_Serialize m p) this = Some (True, m)"
proof -
  define pl where "pl = encodeField_uint8 [] (Packet_Acknowledgment.Positive m)
    @ encodeField_uint8 [] (Packet_Acknowledgment.SourcePID m)"
  define b where "b = [0xDA, 0xA7] @ encodeField_uint32 [] 11 @ [3 :: byte] @ pl"
  define v where "v = b @ hash_bytes b"
  define q where "q = AddHeader (Clear p) 11 3"
  have ser: "Packet_Acknowledgment_Serialize m p = q\<lparr>m_data := v\<rparr>"
    unfolding v_def b_def pl_def q_def
    by (simp add: Packet_Acknowledgment_Serialize_def Let_def AddHash_eq header_data encode_app)
  have lpl: "length pl = 2" by (simp add: pl_def)
  have lv: "length v = 11" by (simp add: v_def b_def lpl)
  have chk: "CheckHashSizeAndPID (q\<lparr>m_data := v\<rparr>) 3 = Some True"
    using CheckHash_framed [of v 11 3 pl q 3] by (simp add: v_def b_def lpl)
  have d0: "drop 7 v = encodeField_uint8 [] (Packet_Acknowledgment.Positive m)
    @ (encodeField_uint8 [] (Packet_Acknowledgment.SourcePID m) @ hash_bytes b)"
    by (simp add: v_def b_def pl_def)
  note a1 = dec_u8 [OF d0, simplified]
  note a2 = dec_u8 [OF a1(2), simplified]
  show ?thesis
    unfolding ser
    by (simp add: Packet_Acknowledgment_Deserialize_def chk lv a1(1) a2(1))
qed

lemma EmergencyCommand_roundtrip:
  "Packet_EmergencyCommand_Deserialize (Packet_EmergencyCommand_Serialize m p) this = Some (True, m)"
proof -
  define pl where "pl = encodeField_uint8 [] (Packet_EmergencyCommand.Action m)"
  define b where "b = [0xDA, 0xA7] @ encodeField_uint32 [] 10 @ [255 :: byte] @ pl"
  define v where "v = b @ hash_bytes b"
  define q where "q = AddHeader (Clear p) 10 255"
  have ser: "Packet_EmergencyCommand_Serialize m p = q\<lparr>m_data := v\<rparr>"
    unfolding v_def b_def pl_def q_def
    by (simp add: Packet_EmergencyCommand_Serialize_def Let_def AddHash_eq header_data encode_app)
  have lpl: "length pl = 1" by (simp add: pl_def)
  have lv: "length v = 10" by (simp add: v_def b_def lpl)
  have chk: "CheckHashSizeAndPID (q\<lparr>m_data := v\<rparr>) 255 = Some True"
    using CheckHash_framed [of v 10 255 pl q 255] by (simp add: v_def b_def lpl)
  have d0: "drop 7 v = encodeField_uint8 [] (Packet_EmergencyCommand.Action m) @ hash_bytes b"
    by (simp add: v_def b_def pl_def)
  note a1 = dec_u8 [OF d0, simplified]
  show ?thesis
    unfolding ser
    by (simp add: Packet_EmergencyCommand_Deserialize_def chk lv a1(1))
qed

lemma CameraControl_roundtrip:
  "Packet_CameraControl_Deserialize (Packet_CameraControl_Serialize m p) this = Some (True, m)"
proof -
  define pl where "pl = encodeField_uint8 [] (Packet_CameraControl.Action m)
    @ encodeField_float32 [] (Packet_CameraControl.TargetFPS m)"
  define b where "b = [0xDA, 0xA7] @ encodeField_uint32 [] 14 @ [254 :: byte] @ pl"
  define v where "v = b @ hash_bytes b"
  define q where "q = AddHeader (Clear p) 14 254"
  have ser: "Packet_CameraControl_Serialize m p = q\<lparr>m_data := v\<rparr>"
    unfolding v_def b_def pl_def q_def
    by (simp add: Packet_CameraControl_Serialize_def Let_def AddHash_eq header_data encode_app)
  have lpl: "length pl = 5" by (simp add: pl_def)
  have lv: "length v = 14" by (simp add: v_def b_def lpl)
  have chk: "CheckHashSizeAndPID (q\<lparr>m_data := v\<rparr>) 254 = Some True"
    using CheckHash_framed [of v 14 254 pl q 254] by (simp add: v_def b_def lpl)
  have d0: "drop 7 v = encodeField_uint8 [] (Packet_CameraControl.Action m)
    @ (encodeField_float32 [] (Packet_CameraControl.TargetFPS m) @ hash_bytes b)"
    by (simp add: v_def b_def pl_def)
  note a1 = dec_u8 [OF d0, simplified]
  note a2 = dec_f32 [OF a1(2), simplified]
  show ?thesis
    unfolding ser
    by (simp add: Packet_CameraControl_Deserialize_def chk lv a1(1) a2(1))
qed

lemma VirtualStickCommand_roundtrip:
  "Packet_VirtualStickCommand_Deserialize fp (Packet_VirtualStickCommand_Serialize fp m p) this = Some (True, m\<lparr>Packet_VirtualStickCommand.Yaw :=
        fp_narrow fp (fp_div fp (fp_mul fp (fp_widen fp
          (yaw_deg_of fp (Packet_VirtualStickCommand.Yaw m))) PI) lit_180)\<rparr>)"
proof -
  define pl where "pl = encodeField_uint8 [] (Packet_VirtualStickCommand.Mode m)
    @ encodeField_float32 [] (yaw_deg_of fp (Packet_VirtualStickCommand.Yaw m))
    @ encodeField_float32 [] (Packet_VirtualStickCommand.V_x m)
    @ encodeField_float32 [] (Packet_VirtualStickCommand.V_y m)
    @ encodeField_float32 [] (Packet_VirtualStickCommand.HAG m)
    @ encodeField_float32 [] (Packet_VirtualStickCommand.timeout m)"
  define b where "b = [0xDA, 0xA7] @ encodeField_uint32 [] 30 @ [252 :: byte] @ pl"
  define v where "v = b @ hash_bytes b"
  define q where "q = AddHeader (Clear p) 30 252"
  have ser: "Packet_VirtualStickCommand_Serialize fp m p = q\<lparr>m_data := v\<rparr>"
    unfolding v_def b_def pl_def q_def
    by (simp add: Packet_VirtualStickCommand_Serialize_def Let_def AddHash_eq header_data encode_app)
  have lpl: "length pl = 21" by (simp add: pl_def)
  have lv: "length v = 30" by (simp add: v_def b_def lpl)
  have chk: "CheckHashSizeAndPID (q\<lparr>m_data := v\<rparr>) 252 = Some True"
    using CheckHash_framed [of v 30 252 pl q 252] by (simp add: v_def b_def lpl)
  have d0: "drop 7 v = encodeField_uint8 [] (Packet_VirtualStickCommand.Mode m)
    @ (encodeField_float32 [] (yaw_deg_of fp (Packet_VirtualStickCommand.Yaw m))
    @ (encodeField_float32 [] (Packet_VirtualStickCommand.V_x m)
    @ (encodeField_float32 [] (Packet_VirtualStickCommand.V_y m)
    @ (encodeField_float32 [] (Packet_VirtualStickCommand.HAG m)
    @ (encodeField_float32 [] (Packet_VirtualStickCommand.timeout m) @ hash_bytes b)))))"
    by (simp add: v_def b_def pl_def)
  note a1 = dec_u8 [OF d0, simplified]
  note a2 = dec_f32 [OF a1(2), simplified]
  note a3 = dec_f32 [OF a2(2), simplified]
  note a4 = dec_f32 [OF a3(2), simplified]
  note a5 = dec_f32 [OF a4(2), simplified]
  note a6 = dec_f32 [OF a5(2), simplified]
  show ?thesis
    unfolding ser
    by (simp add: Packet_VirtualStickCommand_Deserialize_def chk lv a1(1) a2(1) a3(1) a4(1) a5(1) a6(1))
qed

lemma char_of_unat_of_char: "char_of (unat (of_char c :: byte)) = c"
proof -
  have "(of_char c :: byte) = of_nat (of_char c)" by (simp add: of_nat_of_char)
  then have "unat (of_char c :: byte) = of_char c mod 256"
    by (simp add: unat_of_nat)
  then show ?thesis by simp
qed

lemma unat_of_nat32: "n < 2 ^ 32 \<Longrightarrow> unat (of_nat n :: 32 word) = n"
  by (simp add: unat_of_nat)

lemma foldl_push_back:
  "foldl (\<lambda>B item. B @ [f item]) B0 xs = B0 @ map f xs"
  by (induction xs arbitrary: B0) simp_all

lemma encodeField_String_eq:
  "encodeField_String B s = B @ encodeField_uint32 [] (of_nat (length s)) @ map of_char s"
  by (simp add: encodeField_String_def foldl_push_back encodeField_uint32_def)

lemma dec_String:
  assumes d: "drop i v = encodeField_uint32 [] (of_nat (length s)) @ map of_char s @ r"
    and small: "length s + 4 < 2 ^ 32"
    and mb: "MaxBytes = of_nat (length s + 4)"
  shows "decodeField_String v i MaxBytes = Some (s, i + 4 + length s, 0)"
proof -
  have us: "unat (of_nat (length s) :: 32 word) = length s"
    using small by (simp add: unat_of_nat)
  have um: "unat MaxBytes = length s + 4"
    unfolding mb using small by (intro unat_of_nat32)
  have ge: "\<not> MaxBytes < 4"
    using um by (simp add: word_less_nat_alt)
  have bfo: "(of_nat (length s) :: 32 word) + 4 = MaxBytes" by (simp add: mb)
  note a = dec_u32 [OF d]
  have "i + 4 + length s \<le> length v"
  proof -
    have "length (drop i v) = 4 + length s + length r" using d by simp
    then show ?thesis by simp
  qed
  from string_loop_enough [OF this, of "[]"]
  have loop: "string_loop v (i + 4) (length s) [] = Some (s, i + 4 + length s)"
    by (simp add: a(2) comp_def char_of_unat_of_char)
  show ?thesis
    by (simp add: decodeField_String_def ge a(1) bfo us loop)
qed

lemma ExtendedTelemetry_roundtrip:
  assumes small: "length (Packet_ExtendedTelemetry.DroneSerial m) + 25 < 2 ^ 32"
  shows "Packet_ExtendedTelemetry_Deserialize (Packet_ExtendedTelemetry_Serialize m p) this
         = Some (True, m)"
proof -
  define s where "s = Packet_ExtendedTelemetry.DroneSerial m"
  define S where "S = (of_nat (9 + 12 + 4 + length s) :: 32 word)"
  define pl where "pl = encodeField_uint16 [] (Packet_ExtendedTelemetry.GNSSSatCount m)
    @ encodeField_uint8 [] (Packet_ExtendedTelemetry.GNSSSignal m)
    @ encodeField_uint8 [] (Packet_ExtendedTelemetry.MaxHeight m)
    @ encodeField_uint8 [] (Packet_ExtendedTelemetry.MaxDist m)
    @ encodeField_uint8 [] (Packet_ExtendedTelemetry.BatLevel m)
    @ encodeField_uint8 [] (Packet_ExtendedTelemetry.BatWarning m)
    @ encodeField_uint8 [] (Packet_ExtendedTelemetry.WindLevel m)
    @ encodeField_uint8 [] (Packet_ExtendedTelemetry.DJICam m)
    @ encodeField_uint8 [] (Packet_ExtendedTelemetry.FlightMode m)
    @ encodeField_uint16 [] (Packet_ExtendedTelemetry.MissionID m)
    @ encodeField_uint32 [] (of_nat (length s)) @ map of_char s"
  define b where "b = [0xDA, 0xA7] @ encodeField_uint32 [] S @ [1 :: byte] @ pl"
  define v where "v = b @ hash_bytes b"
  define q where "q = AddHeader (Clear p) S 1"
  have ser: "Packet_ExtendedTelemetry_Serialize m p = q\<lparr>m_data := v\<rparr>"
    unfolding v_def b_def pl_def q_def S_def s_def
    by (simp add: Packet_ExtendedTelemetry_Serialize_def Let_def AddHash_eq header_data
        encode_app encodeField_String_eq)
  have lpl: "length pl = 16 + length s" by (simp add: pl_def)
  have lv: "length v = 25 + length s" by (simp add: v_def b_def lpl)
  have "unat S = 9 + 12 + 4 + length s"
    unfolding S_def using small by (intro unat_of_nat32) (simp add: s_def)
  then have uS: "unat S = length pl + 9" by (simp add: lpl)
  have chk: "CheckHashSizeAndPID (q\<lparr>m_data := v\<rparr>) 1 = Some True"
    using CheckHash_framed [of v S 1 pl q 1] uS by (simp add: v_def b_def)
  have d0: "drop 7 v = encodeField_uint16 [] (Packet_ExtendedTelemetry.GNSSSatCount m)
    @ (encodeField_uint8 [] (Packet_ExtendedTelemetry.GNSSSignal m)
    @ (encodeField_uint8 [] (Packet_ExtendedTelemetry.MaxHeight m)
    @ (encodeField_uint8 [] (Packet_ExtendedTelemetry.MaxDist m)
    @ (encodeField_uint8 [] (Packet_ExtendedTelemetry.BatLevel m)
    @ (encodeField_uint8 [] (Packet_ExtendedTelemetry.BatWarning m)
    @ (encodeField_uint8 [] (Packet_ExtendedTelemetry.WindLevel m)
    @ (encodeField_uint8 [] (Packet_ExtendedTelemetry.DJICam m)
    @ (encodeField_uint8 [] (Packet_ExtendedTelemetry.FlightMode m)
    @ (encodeField_uint16 [] (Packet_ExtendedTelemetry.MissionID m)
    @ (encodeField_uint32 [] (of_nat (length s)) @ map of_char s @ hash_bytes b))))))))))"
    by (simp add: v_def b_def pl_def)
  note a1 = dec_u16 [OF d0, simplified]
  note a2 = dec_u8 [OF a1(2), simplified]
  note a3 = dec_u8 [OF a2(2), simplified]
  note a4 = dec_u8 [OF a3(2), simplified]
  note a5 = dec_u8 [OF a4(2), simplified]
  note a6 = dec_u8 [OF a5(2), simplified]
  note a7 = dec_u8 [OF a6(2), simplified]
  note a8 = dec_u8 [OF a7(2), simplified]
  note a9 = dec_u8 [OF a8(2), simplified]
  note a10 = dec_u16 [OF a9(2), simplified]
  have mb: "(of_nat (length v) :: 32 word) - 9 - 12 = of_nat (length s + 4)"
    by (simp add: lv)
  have small': "length s + 4 < 2 ^ 32" using small by (simp add: s_def)
  note a11 = dec_String [OF a10(2) small' mb, simplified]
  have ge: "\<not> length v < 25" by (simp add: lv)
  show ?thesis
    unfolding ser
    by (simp add: Packet_ExtendedTelemetry_Deserialize_def chk ge a1(1) a2(1) a3(1) a4(1) a5(1)
        a6(1) a7(1) a8(1) a9(1) a10(1) a11 s_def)
qed

lemma MessageString_roundtrip:
  assumes small: "length (Packet_MessageString.Message m) + 14 < 2 ^ 32"
  shows "Packet_MessageString_Deserialize (Packet_MessageString_Serialize m p) this
         = Some (True, m)"
proof -
  define s where "s = Packet_MessageString.Message m"
  define S where "S = (of_nat (9 + 1 + 4 + length s) :: 32 word)"
  define pl where "pl = encodeField_uint8 [] (Packet_MessageString.Type m)
    @ encodeField_uint32 [] (of_nat (length s)) @ map of_char s"
  define b where "b = [0xDA, 0xA7] @ encodeField_uint32 [] S @ [4 :: byte] @ pl"
  define v where "v = b @ hash_bytes b"
  define q where "q = AddHeader (Clear p) S 4"
  have ser: "Packet_MessageString_Serialize m p = q\<lparr>m_data := v\<rparr>"
    unfolding v_def b_def pl_def q_def S_def s_def
    by (simp add: Packet_MessageString_Serialize_def Let_def AddHash_eq header_data
        encode_app encodeField_String_eq)
  have lpl: "length pl = 5 + length s" by (simp add: pl_def)
  have lv: "length v = 14 + length s" by (simp add: v_def b_def lpl)
  have "unat S = 9 + 1 + 4 + length s"
    unfolding S_def using small by (intro unat_of_nat32) (simp add: s_def)
  then have uS: "unat S = length pl + 9" by (simp add: lpl)
  have chk: "CheckHashSizeAndPID (q\<lparr>m_data := v\<rparr>) 4 = Some True"
    using CheckHash_framed [of v S 4 pl q 4] uS by (simp add: v_def b_def)
  have d0: "drop 7 v = encodeField_uint8 [] (Packet_MessageString.Type m)
    @ (encodeField_uint32 [] (of_nat (length s)) @ map of_char s @ hash_bytes b)"
    by (simp add: v_def b_def pl_def)
  note a1 = dec_u8 [OF d0, simplified]
  have mb: "(of_nat (length v) :: 32 word) - 9 - 1 = of_nat (length s + 4)"
    by (simp add: lv)
  have small': "length s + 4 < 2 ^ 32" using small by (simp add: s_def)
  note a2 = dec_String [OF a1(2) small' mb, simplified]
  have ge: "\<not> length v < 14" by (simp add: lv)
  show ?thesis
    unfolding ser
    by (simp add: Packet_MessageString_Deserialize_def chk ge a1(1) a2 s_def)
qed

lemma shl8_of_nat:
  "push_bit 8 (of_nat n :: 'a::len word) + ucast (b::byte) = of_nat (n * 256 + unat b)"
  by (simp add: push_bit_eq_mult)

lemma ucast_of_nat0: "(ucast (b::byte) :: 'a::len word) = of_nat (0 * 256 + unat b)"
  by simp

lemma take_drop_4:
  "i + 4 \<le> length v \<Longrightarrow> take 4 (drop i v) = [v ! i, v ! (i + 1), v ! (i + 2), v ! (i + 3)]"
  by (auto simp add: list_eq_iff_nth_eq nth_Cons' less_Suc_eq numeral_eq_Suc add.commute)

lemma decodeField_uint32_wire:
  assumes "i + 4 \<le> length v"
  shows "decodeField_uint32 v i = Some (wire_u32 v i, i + 4)"
proof -
  have "push_bit 8 (push_bit 8 (push_bit 8 (ucast (v ! i)) + ucast (v ! (i + 1)))
             + ucast (v ! (i + 2))) + ucast (v ! (i + 3)) = wire_u32 v i"
    unfolding wire_u32_def take_drop_4 [OF assms] be_nat_def
    by (subst ucast_of_nat0) (simp only: shl8_of_nat foldl.simps)
  then show ?thesis using decodeField_uint32_nth [OF assms] by simp
qed

lemma length8E:
  assumes "length xs = 8"
  obtains b0 b1 b2 b3 b4 b5 b6 b7 where "xs = [b0, b1, b2, b3, b4, b5, b6, b7]"
  using assms by (auto simp add: numeral_eq_Suc length_Suc_conv)

lemma decodeField_uint64_bytes:
  assumes 0: "drop i v = b0 # b1 # b2 # b3 # b4 # b5 # b6 # b7 # r"
  shows "decodeField_uint64 v i = Some (of_nat (be_nat [b0, b1, b2, b3, b4, b5, b6, b7]), i + 8)"
proof -
  note d0 = decodeField_uint8_drop [OF 0]
  note d1 = decodeField_uint8_drop [OF d0(2)]
  note d2 = decodeField_uint8_drop [OF d1(2)]
  note d3 = decodeField_uint8_drop [OF d2(2)]
  note d4 = decodeField_uint8_drop [OF d3(2)]
  note d5 = decodeField_uint8_drop [OF d4(2)]
  note d6 = decodeField_uint8_drop [OF d5(2)]
  note d7 = decodeField_uint8_drop [OF d6(2)]
  have "push_bit 8 (push_bit 8 (push_bit 8 (push_bit 8 (push_bit 8 (push_bit 8
                (push_bit 8 (ucast b0) + ucast b1) + ucast b2) + ucast b3) + ucast b4)
                + ucast b5) + ucast b6) + ucast b7
        = (of_nat (be_nat [b0, b1, b2, b3, b4, b5, b6, b7]) :: 64 word)"
    unfolding be_nat_def
    by (subst ucast_of_nat0) (simp only: shl8_of_nat foldl.simps)
  then show ?thesis
    unfolding decodeField_uint64_def
    by (simp add: d0(1) d1(1) d2(1) d3(1) d4(1) d5(1) d6(1) d7(1))
qed

lemma decodeField_uint64_wire:
  assumes "i + 8 \<le> length v"
  shows "decodeField_uint64 v i = Some (wire_u64 v i, i + 8)"
proof -
  have "length (take 8 (drop i v)) = 8" using assms by simp
  then obtain b0 b1 b2 b3 b4 b5 b6 b7
    where t: "take 8 (drop i v) = [b0, b1, b2, b3, b4, b5, b6, b7]"
    by (rule length8E)
  have "drop i v = take 8 (drop i v) @ drop 8 (drop i v)"
    by (rule append_take_drop_id [symmetric])
  then have "drop i v = b0 # b1 # b2 # b3 # b4 # b5 # b6 # b7 # drop 8 (drop i v)"
    by (simp only: t append.simps)
  from decodeField_uint64_bytes [OF this] show ?thesis
    by (simp add: wire_u64_def t)
qed

lemma dec_f32_wire:
  "i + 4 \<le> length v \<Longrightarrow> decodeField_float32 v i = Some (wire_u32 v i, i + 4)"
  by (simp add: decodeField_float32_def decodeField_uint32_wire)

lemma dec_f64_wire:
  "i + 8 \<le> length v \<Longrightarrow> decodeField_float64 v i = Some (wire_u64 v i, i + 8)"
  by (simp add: decodeField_float64_def decodeField_uint64_wire)

lemma waypoint_loop_step:
  assumes "i + 40 \<le> length v"
  shows "waypoint_loop fp v i (Suc k) acc
         = waypoint_loop fp v (i + 40) k (acc @ [waypoint_at fp v i])"
proof -
  have f1: "decodeField_float64 v i = Some (wire_u64 v i, i + 8)"
    using assms by (intro dec_f64_wire) simp
  have f2: "decodeField_float64 v (i + 8) = Some (wire_u64 v (i + 8), i + 16)"
    using assms dec_f64_wire [of "i + 8" v] by simp
  have f3: "decodeField_float64 v (i + 16) = Some (wire_u64 v (i + 16), i + 24)"
    using assms dec_f64_wire [of "i + 16" v] by simp
  have f4: "decodeField_float32 v (i + 24) = Some (wire_u32 v (i + 24), i + 28)"
    using assms dec_f32_wire [of "i + 24" v] by simp
  have f5: "decodeField_float32 v (i + 28) = Some (wire_u32 v (i + 28), i + 32)"
    using assms dec_f32_wire [of "i + 28" v] by simp
  have f6: "decodeField_float32 v (i + 32) = Some (wire_u32 v (i + 32), i + 36)"
    using assms dec_f32_wire [of "i + 32" v] by simp
  have f7: "decodeField_float32 v (i + 36) = Some (wire_u32 v (i + 36), i + 40)"
    using assms dec_f32_wire [of "i + 36" v] by simp
  show ?thesis
    by (simp only: waypoint_loop.simps f1 f2 f3 f4 f5 f6 f7 bind.bind_lunit prod.case
        waypoint_at_def)
qed

lemma map_upt_Suc': "map f [0..<Suc k] = f 0 # map (\<lambda>n. f (Suc n)) [0..<k]"
  by (simp only: map_upt_Suc)

lemma waypoint_loop_general:
  "i + 40 * k \<le> length v \<Longrightarrow>
   waypoint_loop fp v i k acc
     = Some (acc @ map (\<lambda>n. waypoint_at fp v (i + 40 * n)) [0..<k], i + 40 * k)"
proof (induction k arbitrary: i acc)
  case 0
  then show ?case by simp
next
  case (Suc k)
  have s: "i + 40 \<le> length v" and r: "(i + 40) + 40 * k \<le> length v"
    using Suc.prems by simp_all
  have "waypoint_loop fp v i (Suc k) acc
        = waypoint_loop fp v (i + 40) k (acc @ [waypoint_at fp v i])"
    by (rule waypoint_loop_step [OF s])
  also have "\<dots> = Some ((acc @ [waypoint_at fp v i])
        @ map (\<lambda>n. waypoint_at fp v ((i + 40) + 40 * n)) [0..<k], (i + 40) + 40 * k)"
    by (rule Suc.IH [OF r])
  also have "(acc @ [waypoint_at fp v i]) @ map (\<lambda>n. waypoint_at fp v ((i + 40) + 40 * n)) [0..<k]
        = acc @ map (\<lambda>n. waypoint_at fp v (i + 40 * n)) [0..<Suc k]"
    by (simp only: map_upt_Suc') (simp add: add.assoc)
  finally show ?case by (simp add: add.assoc)
qed

lemma be_u32_less: "be_u32 a b c d < 2 ^ 32"
  using unsigned_less [of "push_bit 8 (push_bit 8 (push_bit 8 (ucast a) + ucast b) + ucast c)
      + ucast d :: 32 word", where ?'a = nat]
  by (simp only: be32_unat) simp

lemma CheckHashSizeAndPID_True:
  assumes "CheckHashSizeAndPID p PID = Some True"
  shows "9 \<le> length (m_data p)" and "length (m_data p) < 2 ^ 32" and "m_data p ! 6 = PID"
proof -
  have c: "CheckHash p = Some True"
    using assms by (auto simp add: CheckHashSizeAndPID_def split: option.splits if_splits)
  then show 9: "9 \<le> length (m_data p)" by (simp add: CheckHash_char)
  have "be_u32 (m_data p ! 2) (m_data p ! 3) (m_data p ! 4) (m_data p ! 5) = length (m_data p)"
    using c by (simp add: CheckHash_char)
  then show "length (m_data p) < 2 ^ 32" using be_u32_less by metis
  have "decodeField_uint8 (m_data p) 6 = Some (m_data p ! 6, 7)"
    using 9 by (simp add: decodeField_uint8_def)
  then show "m_data p ! 6 = PID"
    using assms c by (simp add: CheckHashSizeAndPID_def)
qed

lemma unat_sub11:
  assumes "11 \<le> n" "n < 2 ^ 32"
  shows "unat ((of_nat n :: 32 word) - 9 - 2) = n - 11"
proof -
  have "(of_nat n :: 32 word) - 9 - 2 = of_nat (n - 11)"
    using assms(1) by (simp add: of_nat_diff)
  moreover have "n - 11 < 2 ^ 32" using assms(2) by simp
  ultimately show ?thesis by (simp add: unat_of_nat32)
qed

lemma ExecuteWaypointMission_Deserialize_char:
  assumes ok: "CheckHashSizeAndPID p 253 = Some True"
  shows "Packet_ExecuteWaypointMission_Deserialize fp p this =
    (if length (m_data p) < 51 then Some (False, this)
     else if (length (m_data p) - 11) mod 40 \<noteq> 0
       then Some (False, this\<lparr>LandAtEnd := m_data p ! 7, CurvedFlight := m_data p ! 8,
                               Waypoints := []\<rparr>)
       else Some (True, this\<lparr>LandAtEnd := m_data p ! 7, CurvedFlight := m_data p ! 8,
                  Waypoints := map (\<lambda>n. waypoint_at fp (m_data p) (9 + 40 * n))
                                   [0..<(length (m_data p) - 11) div 40]\<rparr>))"
proof (cases "length (m_data p) < 51")
  case True
  then show ?thesis by (simp add: Packet_ExecuteWaypointMission_Deserialize_def ok)
next
  case False
  define v where "v = m_data p"
  define w where "w = (of_nat (length v) :: 32 word) - 9 - 2"
  have L: "51 \<le> length v" "length v < 2 ^ 32"
    using False CheckHashSizeAndPID_True(2) [OF ok] by (simp_all add: v_def)
  have uw: "unat w = length v - 11"
    unfolding w_def using L by (intro unat_sub11) simp_all
  have d7: "decodeField_uint8 v 7 = Some (v ! 7, 8)"
    and d8: "decodeField_uint8 v 8 = Some (v ! 8, 9)"
    using L by (simp_all add: decodeField_uint8_def)
  have m: "(w mod 40 \<noteq> 0) = ((length v - 11) mod 40 \<noteq> 0)"
  proof -
    have "unat (w mod 40) = (length v - 11) mod 40" by (simp add: unat_mod uw)
    then show ?thesis by (metis unat_eq_zero)
  qed
  have dv: "unat (w div 40) = (length v - 11) div 40" by (simp add: unat_div uw)
  have fit: "9 + 40 * ((length v - 11) div 40) \<le> length v"
    using L by simp
  note loop = waypoint_loop_general [OF fit, of fp "[]"]
  have nl: "\<not> length v < 51" using L by simp
  show ?thesis
    using nl
    by (simp add: Packet_ExecuteWaypointMission_Deserialize_def ok v_def [symmetric] d7 d8
        w_def [symmetric] m dv loop Let_def)
qed

lemma CheckHashSizeAndPID_char:
  "CheckHashSizeAndPID p PID =
     Some (9 \<le> length (m_data p)
           \<and> be_u32 (m_data p ! 2) (m_data p ! 3) (m_data p ! 4) (m_data p ! 5)
               = length (m_data p)
           \<and> running_sums (map unat (take (length (m_data p) - 2) (m_data p))) (0, 0)
               = (unat (m_data p ! (length (m_data p) - 2)),
                  unat (m_data p ! (length (m_data p) - 1)))
           \<and> m_data p ! 6 = PID)"
proof (cases "9 \<le> length (m_data p)")
  case True
  then have d: "decodeField_uint8 (m_data p) 6 = Some (m_data p ! 6, 7)"
    by (simp add: decodeField_uint8_def)
  show ?thesis by (auto simp add: CheckHashSizeAndPID_def CheckHash_char d)
next
  case False
  then show ?thesis by (simp add: CheckHashSizeAndPID_def CheckHash_char)
qed

lemma mission_51_valid: "CheckHashSizeAndPID (packet_of mission_51) 253 = Some True"
  by (simp add: CheckHashSizeAndPID_char packet_of_def mission_51_def be_u32_def)

lemma mission_52_valid: "CheckHashSizeAndPID (packet_of mission_52) 253 = Some True"
  by (simp add: CheckHashSizeAndPID_char packet_of_def mission_52_def be_u32_def)

lemma encode_waypoint_eq: "encode_waypoint fp B w = B @ wp_bytes fp w"
  by (simp add: encode_waypoint_def wp_bytes_def Let_def deg_of_rad64_def deg_of_rad32_def
      encodeField_float64_def encodeField_float32_def encodeField_uint64_def
      encodeField_uint32_def)

lemma foldl_encode_waypoint:
  "foldl (encode_waypoint fp) B ws = B @ concat (map (wp_bytes fp) ws)"
  by (induction ws arbitrary: B) (simp_all add: encode_waypoint_eq)

lemma length_wp_bytes [simp]: "length (wp_bytes fp w) = 40"
  by (simp add: wp_bytes_def)

lemma length_concat_wp_bytes [simp]:
  "length (concat (map (wp_bytes fp) ws)) = 40 * length ws"
  by (induction ws) simp_all

lemma waypoint_at_encoded:
  assumes d: "drop i v = wp_bytes fp w @ r"
  shows "waypoint_at fp v i = wire_trip fp w"
proof -
  have "length (drop i v) = 40 + length r" using d by simp
  then have len: "i + 40 \<le> length v" by simp
  have d0: "drop i v = encodeField_float64 [] (deg_of_rad64 fp (Waypoint.Latitude w))
     @ (encodeField_float64 [] (deg_of_rad64 fp (Waypoint.Longitude w))
     @ (encodeField_float64 [] (Waypoint.RelAltitude w)
     @ (encodeField_float32 [] (Waypoint.CornerRadius w)
     @ (encodeField_float32 [] (Waypoint.Speed w)
     @ (encodeField_float32 [] (Waypoint.LoiterTime w)
     @ (encodeField_float32 [] (deg_of_rad32 fp (Waypoint.GimbalPitch w)) @ r))))))"
    using d by (simp add: wp_bytes_def)
  note a1 = dec_f64 [OF d0]
  note a2 = dec_f64 [OF a1(2)]
  note a3 = dec_f64 [OF a2(2)]
  note a4 = dec_f32 [OF a3(2)]
  note a5 = dec_f32 [OF a4(2)]
  note a6 = dec_f32 [OF a5(2)]
  note a7 = dec_f32 [OF a6(2)]
  have w1: "wire_u64 v i = deg_of_rad64 fp (Waypoint.Latitude w)"
    using a1(1) dec_f64_wire [of i v] len by (simp add: ac_simps)
  have w2: "wire_u64 v (i + 8) = deg_of_rad64 fp (Waypoint.Longitude w)"
    using a2(1) dec_f64_wire [of "i + 8" v] len by (simp add: ac_simps)
  have w3: "wire_u64 v (i + 16) = Waypoint.RelAltitude w"
    using a3(1) dec_f64_wire [of "i + 8 + 8" v] len by (simp add: ac_simps)
  have w4: "wire_u32 v (i + 24) = Waypoint.CornerRadius w"
    using a4(1) dec_f32_wire [of "i + 8 + 8 + 8" v] len by (simp add: ac_simps)
  have w5: "wire_u32 v (i + 28) = Waypoint.Speed w"
    using a5(1) dec_f32_wire [of "i + 8 + 8 + 8 + 4" v] len by (simp add: ac_simps)
  have w6: "wire_u32 v (i + 32) = Waypoint.LoiterTime w"
    using a6(1) dec_f32_wire [of "i + 8 + 8 + 8 + 4 + 4" v] len by (simp add: ac_simps)
  have w7: "wire_u32 v (i + 36) = deg_of_rad32 fp (Waypoint.GimbalPitch w)"
    using a7(1) dec_f32_wire [of "i + 8 + 8 + 8 + 4 + 4 + 4" v] len by (simp add: ac_simps)
  show ?thesis
    by (simp add: waypoint_at_def wire_trip_def w1 w2 w3 w4 w5 w6 w7 rad_of_deg64_def
        rad_of_deg32_def)
qed

lemma waypoint_loop_encoded:
  assumes "drop i v = concat (map (wp_bytes fp) ws) @ r"
  shows "waypoint_loop fp v i (length ws) acc
         = Some (acc @ map (wire_trip fp) ws, i + 40 * length ws)"
  using assms
proof (induction ws arbitrary: i acc)
  case Nil
  then show ?case by simp
next
  case (Cons w ws)
  have d: "drop i v = wp_bytes fp w @ (concat (map (wp_bytes fp) ws) @ r)"
    using Cons.prems by simp
  have "length (drop i v) = 40 + (40 * length ws + length r)" using d by simp
  then have len: "i + 40 \<le> length v" by simp
  have nx: "drop (i + 40) v = concat (map (wp_bytes fp) ws) @ r"
    using drop_step [OF d] by simp
  have "waypoint_loop fp v i (length (w # ws)) acc
        = waypoint_loop fp v (i + 40) (length ws) (acc @ [waypoint_at fp v i])"
    using waypoint_loop_step [OF len] by simp
  also have "\<dots> = Some ((acc @ [waypoint_at fp v i]) @ map (wire_trip fp) ws,
                         (i + 40) + 40 * length ws)"
    by (rule Cons.IH [OF nx])
  finally show ?case
    by (simp add: waypoint_at_encoded [OF d])
qed

lemma float32_eq_refl: "float32_eq x x = (\<not> isnan32 x)"
  by (auto simp add: float32_eq_def)

lemma float64_eq_refl: "float64_eq x x = (\<not> isnan64 x)"
  by (auto simp add: float64_eq_def)

lemma Waypoint_eq_nan: "isnan32 (Waypoint.LoiterTime w) \<Longrightarrow> \<not> Waypoint_eq w' w"
  by (simp add: Waypoint_eq_def float32_eq_def)

lemma ExecuteWaypointMission_eq_map:
  "Packet_ExecuteWaypointMission_eq (m\<lparr>Waypoints := map f (Waypoints m)\<rparr>) m
   = list_all (\<lambda>w. Waypoint_eq (f w) w) (Waypoints m)"
proof -
  have "list_all (\<lambda>n. Waypoint_eq (map f ws ! n) (ws ! n)) [0..<length ws]
        = list_all (\<lambda>w. Waypoint_eq (f w) w) ws" for ws
    by (auto simp add: list_all_iff all_set_conv_all_nth)
  then show ?thesis by (simp add: Packet_ExecuteWaypointMission_eq_def)
qed

lemma ExecuteWaypointMission_wire:
  assumes small: "11 + 40 * length (Waypoints m) < 2 ^ 32"
  shows "Packet_ExecuteWaypointMission_Serialize fp m p
           = (AddHeader (Clear p) (9 + 2 + 40 * of_nat (length (Waypoints m))) 253)
               \<lparr>m_data := mission_wire fp m @ hash_bytes (mission_wire fp m)\<rparr>"
    and "CheckHashSizeAndPID (q\<lparr>m_data := mission_wire fp m @ hash_bytes (mission_wire fp m)\<rparr>) 253
           = Some True"
    and "length (mission_wire fp m @ hash_bytes (mission_wire fp m))
           = 11 + 40 * length (Waypoints m)"
    and "(mission_wire fp m @ hash_bytes (mission_wire fp m)) ! 7 = LandAtEnd m"
    and "(mission_wire fp m @ hash_bytes (mission_wire fp m)) ! 8 = CurvedFlight m"
    and "drop 9 (mission_wire fp m @ hash_bytes (mission_wire fp m))
           = concat (map (wp_bytes fp) (Waypoints m)) @ hash_bytes (mission_wire fp m)"
proof -
  define pl where "pl = [LandAtEnd m, CurvedFlight m] @ concat (map (wp_bytes fp) (Waypoints m))"
  define S where "S = (9 + 2 + 40 * of_nat (length (Waypoints m)) :: 32 word)"
  have b: "mission_wire fp m = [0xDA, 0xA7] @ encodeField_uint32 [] S @ [253 :: byte] @ pl"
    by (simp add: mission_wire_def pl_def S_def)
  show "Packet_ExecuteWaypointMission_Serialize fp m p
           = (AddHeader (Clear p) (9 + 2 + 40 * of_nat (length (Waypoints m))) 253)
               \<lparr>m_data := mission_wire fp m @ hash_bytes (mission_wire fp m)\<rparr>"
    by (simp add: Packet_ExecuteWaypointMission_Serialize_def Let_def AddHash_eq header_data
        encode_app foldl_encode_waypoint encodeField_uint8_def mission_wire_def)
  have lpl: "length pl = 2 + 40 * length (Waypoints m)" by (simp add: pl_def)
  have "S = of_nat (11 + 40 * length (Waypoints m))" by (simp add: S_def)
  then have "unat S = 11 + 40 * length (Waypoints m)"
    using small by (simp only: unat_of_nat32)
  then have uS: "unat S = length pl + 9" by (simp add: lpl)
  show "CheckHashSizeAndPID (q\<lparr>m_data := mission_wire fp m @ hash_bytes (mission_wire fp m)\<rparr>) 253
           = Some True"
    using CheckHash_framed [of "mission_wire fp m @ hash_bytes (mission_wire fp m)" S 253 pl q 253]
      uS by (simp add: b)
  show "length (mission_wire fp m @ hash_bytes (mission_wire fp m))
           = 11 + 40 * length (Waypoints m)"
    by (simp add: b lpl)
  show "(mission_wire fp m @ hash_bytes (mission_wire fp m)) ! 7 = LandAtEnd m"
    "(mission_wire fp m @ hash_bytes (mission_wire fp m)) ! 8 = CurvedFlight m"
    by (simp_all add: mission_wire_def encodeField_uint32_def)
  show "drop 9 (mission_wire fp m @ hash_bytes (mission_wire fp m))
           = concat (map (wp_bytes fp) (Waypoints m)) @ hash_bytes (mission_wire fp m)"
    by (simp add: mission_wire_def encodeField_uint32_def)
qed

lemma ExecuteWaypointMission_roundtrip:
  assumes ne: "Waypoints m \<noteq> []"
    and small: "11 + 40 * length (Waypoints m) < 2 ^ 32"
  shows "Packet_ExecuteWaypointMission_Deserialize fp
           (Packet_ExecuteWaypointMission_Serialize fp m p) this
         = Some (True, m\<lparr>Waypoints := map (wire_trip fp) (Waypoints m)\<rparr>)"
proof -
  define n where "n = length (Waypoints m)"
  define v where "v = mission_wire fp m"
  define q where "q = (AddHeader (Clear p) (9 + 2 + 40 * of_nat (length (Waypoints m))) 253)
      \<lparr>m_data := v @ hash_bytes v\<rparr>"
  note w = ExecuteWaypointMission_wire [OF small, of fp, folded v_def]
  have ser: "Packet_ExecuteWaypointMission_Serialize fp m p = q"
    using w(1) by (simp add: q_def)
  have chk: "CheckHashSizeAndPID q 253 = Some True"
    unfolding q_def by (rule w(2))
  have dq: "m_data q = v @ hash_bytes v" by (simp add: q_def)
  have len: "length (m_data q) = 11 + 40 * n"
    using w(3) by (simp add: dq n_def)
  have n1: "1 \<le> n" using ne by (cases "Waypoints m") (simp_all add: n_def)
  have b7: "m_data q ! 7 = LandAtEnd m" and b8: "m_data q ! 8 = CurvedFlight m"
    using w(4,5) by (simp_all only: dq)
  have d9: "drop 9 (m_data q) = concat (map (wp_bytes fp) (Waypoints m)) @ hash_bytes v"
    using w(6) by (simp only: dq)
  have fit: "9 + 40 * n \<le> length (m_data q)" by (simp add: len)
  have "Some ([] @ map (\<lambda>k. waypoint_at fp (m_data q) (9 + 40 * k)) [0..<n], 9 + 40 * n)
        = Some ([] @ map (wire_trip fp) (Waypoints m), 9 + 40 * length (Waypoints m))"
    using waypoint_loop_general [OF fit, of fp "[]"] waypoint_loop_encoded [OF d9, of "[]"]
    by (simp add: n_def)
  then have wps: "map (\<lambda>k. waypoint_at fp (m_data q) (9 + 40 * k)) [0..<n]
        = map (wire_trip fp) (Waypoints m)" by (simp add: n_def)
  have "\<not> length (m_data q) < 51" "(length (m_data q) - 11) mod 40 = 0"
    "(length (m_data q) - 11) div 40 = n"
    using n1 by (simp_all add: len)
  then show ?thesis
    unfolding ser
    by (simp add: ExecuteWaypointMission_Deserialize_char [OF chk] b7 b8 wps)
qed

lemma ExecuteWaypointMission_empty:
  assumes "Waypoints m = []"
  shows "Packet_ExecuteWaypointMission_Deserialize fp
           (Packet_ExecuteWaypointMission_Serialize fp m p) this = Some (False, this)"
proof -
  have small: "11 + 40 * length (Waypoints m) < 2 ^ 32" using assms by simp
  note w = ExecuteWaypointMission_wire [OF small, of fp]
  define q where "q = Packet_ExecuteWaypointMission_Serialize fp m p"
  have dq: "m_data q = mission_wire fp m @ hash_bytes (mission_wire fp m)"
    by (simp add: q_def w(1))
  have chk: "CheckHashSizeAndPID q 253 = Some True"
    unfolding q_def w(1) by (rule w(2))
  have "length (m_data q) < 51"
    using w(3) assms by (simp only: dq) simp
  then show ?thesis
    unfolding q_def [symmetric]
    by (simp add: ExecuteWaypointMission_Deserialize_char [OF chk])
qed

lemma CoreTelemetry_eq_refl:
  "Packet_CoreTelemetry_eq m m =
     (\<not> isnan64 (Packet_CoreTelemetry.Latitude m) \<and> \<not> isnan64 (Packet_CoreTelemetry.Longitude m)
      \<and> \<not> isnan64 (Packet_CoreTelemetry.Altitude m) \<and> \<not> isnan64 (Packet_CoreTelemetry.HAG m)
      \<and> \<not> isnan32 (Packet_CoreTelemetry.V_N m) \<and> \<not> isnan32 (Packet_CoreTelemetry.V_E m)
      \<and> \<not> isnan32 (Packet_CoreTelemetry.V_D m) \<and> \<not> isnan64 (Packet_CoreTelemetry.Yaw m)
      \<and> \<not> isnan64 (Packet_CoreTelemetry.Pitch m) \<and> \<not> isnan64 (Packet_CoreTelemetry.Roll m))"
  by (simp add: Packet_CoreTelemetry_eq_def float32_eq_refl float64_eq_refl)

lemma VirtualStickCommand_roundtrip':
  "Packet_VirtualStickCommand_Deserialize fp (Packet_VirtualStickCommand_Serialize fp m p) this
   = Some (True, m\<lparr>Packet_VirtualStickCommand.Yaw :=
        rad_of_deg32 fp (yaw_deg_of fp (Packet_VirtualStickCommand.Yaw m))\<rparr>)"
  by (simp add: VirtualStickCommand_roundtrip rad_of_deg32_def)

lemma isnan32_default: "isnan32 (Waypoint.LoiterTime Waypoint_default)"
  by (simp add: Waypoint_default_def isnan32_def)

text \<open>The packet of a compressed image passes the validation of the receiver.\<close>

lemma CompressedImage_Serialize_framed:
  assumes small: "length (m_data (Packet_CompressedImage_Serialize imencode this TargetPacket)) < 2 ^ 32"
  shows "CheckHashSizeAndPID (Packet_CompressedImage_Serialize imencode this TargetPacket) 5
           = Some True"
proof -
  define pl where "pl = encodeField_float32 [] (Packet_CompressedImage.TargetFPS this)
      @ jpeg_bytes imencode (Packet_CompressedImage.Frame this)"
  define d4 where "d4 = [0xDA, 0xA7, 0, 0, 0, 0, 5 :: byte] @ pl"
  define packetSize where "packetSize = (of_nat (length d4) :: 32 word) + 2"
  define d5 where "d5 = [0xDA, 0xA7] @ encodeField_uint32 [] packetSize @ [5 :: byte] @ pl"
  define p5 where "p5 = TargetPacket\<lparr>M_highLevelFieldsValid := False, m_data := d5\<rparr>"
  have ser: "Packet_CompressedImage_Serialize imencode this TargetPacket = AddHash p5"
    unfolding p5_def d5_def packetSize_def d4_def pl_def
    by (simp add: Packet_CompressedImage_Serialize_def Let_def AddHeader_def Clear_def
        encodeField_uint8_def encodeField_sync encodeField_uint32_def
        encodeField_float32_def encodeField_CompressedImage_def jpeg_bytes_def)
  have l4: "length d4 = length pl + 7" by (simp add: d4_def)
  have l5: "length d5 = length pl + 7" by (simp add: d5_def)
  have "length (m_data (AddHash p5)) = length pl + 9"
    by (simp add: AddHash_length p5_def l5)
  then have "length pl + 9 < 2 ^ 32" using small by (simp add: ser)
  then have ps: "unat packetSize = length pl + 9"
    by (simp add: packetSize_def l4 unat_word_ariths unat_of_nat)
  have e: "AddHash p5 = p5\<lparr>m_data := d5 @ hash_bytes d5\<rparr>"
    by (simp add: AddHash_eq p5_def)
  have "CheckHashSizeAndPID (p5\<lparr>m_data := d5 @ hash_bytes d5\<rparr>) 5 = Some (5 = (5 :: byte))"
    by (rule CheckHash_framed [OF _ ps]) (simp add: d5_def)
  then show ?thesis by (simp add: ser e)
qed

section \<open>Equality after one trip over the wire\<close>

lemma VirtualStickCommand_eq_trip:
  "Packet_VirtualStickCommand_eq (m\<lparr>Packet_VirtualStickCommand.Yaw := y\<rparr>) m
   = (float32_eq y (Packet_VirtualStickCommand.Yaw m)
      \<and> \<not> isnan32 (Packet_VirtualStickCommand.V_x m)
      \<and> \<not> isnan32 (Packet_VirtualStickCommand.V_y m)
      \<and> \<not> isnan32 (Packet_VirtualStickCommand.HAG m)
      \<and> \<not> isnan32 (Packet_VirtualStickCommand.timeout m))"
  by (simp add: Packet_VirtualStickCommand_eq_def float32_eq_refl)

lemma Waypoint_eq_trip:
  "Waypoint_eq (wire_trip fp w) w
   = (float64_eq (rad_of_deg64 fp (deg_of_rad64 fp (Waypoint.Latitude w))) (Waypoint.Latitude w)
      \<and> float64_eq (rad_of_deg64 fp (deg_of_rad64 fp (Waypoint.Longitude w)))
            (Waypoint.Longitude w)
      \<and> \<not> isnan64 (Waypoint.RelAltitude w)
      \<and> \<not> isnan32 (Waypoint.CornerRadius w)
      \<and> \<not> isnan32 (Waypoint.Speed w)
      \<and> \<not> isnan32 (Waypoint.LoiterTime w)
      \<and> float32_eq (rad_of_deg32 fp (deg_of_rad32 fp (Waypoint.GimbalPitch w)))
            (Waypoint.GimbalPitch w))"
  by (simp add: Waypoint_eq_def wire_trip_def float32_eq_refl float64_eq_refl)

lemma waypoint_at_angles:
  "Waypoint.Latitude (waypoint_at fp v i) = rad_of_deg64 fp (wire_u64 v i)"
  "Waypoint.Longitude (waypoint_at fp v i) = rad_of_deg64 fp (wire_u64 v (i + 8))"
  "Waypoint.GimbalPitch (waypoint_at fp v i) = rad_of_deg32 fp (wire_u32 v (i + 36))"
  by (simp_all add: waypoint_at_def rad_of_deg64_def rad_of_deg32_def)

section \<open>Lemmas on IEEE 754 rounding\<close>

text \<open>
  The magnitude bits order the values: \<open>valn p\<close> is strictly increasing.  Rounding returns
  one of the two neighbouring values of the exact result, so it never crosses a value of
  the format and returns such a value unchanged.
\<close>

lemma bitlen_less: "n < 2 ^ bitlen n"
proof (induction n rule: bitlen.induct)
  case (1 n)
  show ?case
  proof (cases "n = 0")
    case True
    then show ?thesis by (simp add: bitlen.simps)
  next
    case False
    with 1 have "n div 2 < 2 ^ bitlen (n div 2)" by simp
    then have "n < 2 * 2 ^ bitlen (n div 2)" by linarith
    then show ?thesis using False by (subst bitlen.simps) simp
  qed
qed

lemma bitlen_ge: "0 < n \<Longrightarrow> 2 ^ (bitlen n - 1) \<le> n"
proof (induction n rule: bitlen.induct)
  case (1 n)
  then have n: "n \<noteq> 0" by simp
  have b: "bitlen n = Suc (bitlen (n div 2))" using n by (subst bitlen.simps) simp
  show ?case
  proof (cases "n div 2 = 0")
    case True
    then have "bitlen (n div 2) = 0" by (simp add: bitlen.simps)
    then show ?thesis using b 1(2) by simp
  next
    case False
    then have pos: "0 < n div 2" by simp
    have ih: "2 ^ (bitlen (n div 2) - 1) \<le> n div 2" using 1(1) [OF n pos] .
    have "bitlen (n div 2) \<noteq> 0" using False by (subst bitlen.simps) simp
    then have "(2::nat) ^ bitlen (n div 2) = 2 * 2 ^ (bitlen (n div 2) - 1)"
      by (cases "bitlen (n div 2)") simp_all
    then have "(2::nat) ^ bitlen (n div 2) \<le> n" using ih by linarith
    then show ?thesis using b by simp
  qed
qed

lemma valn_shift:
  assumes p: "0 < p" and c: "(s = 0 \<and> m \<le> 2 ^ p) \<or> (2 ^ (p - 1) \<le> m \<and> m \<le> 2 ^ p)"
  shows "valn p (s * 2 ^ (p - 1) + m) = m * 2 ^ s"
proof -
  define P :: nat where "P = 2 ^ (p - 1)"
  have P: "0 < P" by (simp add: P_def)
  have pp: "(2::nat) ^ p = 2 * P" using p by (cases p) (simp_all add: P_def)
  have c': "(s = 0 \<and> m \<le> 2 * P) \<or> (P \<le> m \<and> m \<le> 2 * P)"
    using c unfolding pp P_def [symmetric] .
  then consider (a) "s = 0" "m < P" | (b) "P \<le> m" "m < 2 * P" | (c) "m = 2 * P"
    by linarith
  then show ?thesis
  proof cases
    case a
    show ?thesis unfolding valn_def P_def [symmetric] using a by simp
  next
    case b
    then obtain F where F: "m = P + F" "F < P" by (metis le_Suc_ex add.commute less_diff_conv2 mult_2 nat_add_left_cancel_less)
    have e: "s * P + m = F + Suc s * P" using F by simp
    have "(F + Suc s * P) div P = Suc s + F div P" using P by (intro div_mult_self1) simp
    then have d: "(F + Suc s * P) div P = Suc s" using F(2) by simp
    have "(F + Suc s * P) mod P = F mod P" by (rule mod_mult_self1)
    then have md: "(F + Suc s * P) mod P = F" using F(2) by simp
    show ?thesis
      unfolding valn_def P_def [symmetric] e d md using F by simp
  next
    case c
    have e: "s * P + m = (s + 2) * P" using c by simp
    have d: "((s + 2) * P) div P = s + 2" using P by simp
    have md: "((s + 2) * P) mod P = 0" by simp
    show ?thesis
      unfolding valn_def P_def [symmetric] e d md using c by simp
  qed
qed

lemma valn_decomp:
  assumes p: "0 < p"
  shows "\<exists>s m. (b::nat) = s * 2 ^ (p - 1) + m \<and> m < 2 ^ p \<and> (s = 0 \<or> 2 ^ (p - 1) \<le> m)"
proof -
  define P :: nat where "P = 2 ^ (p - 1)"
  have P: "0 < P" by (simp add: P_def)
  have pp: "(2::nat) ^ p = 2 * P" using p by (cases p) (simp_all add: P_def)
  have F: "b mod P < P" using P by simp
  show ?thesis
  proof (cases "b div P = 0")
    case True
    then have "b = 0 * P + b mod P" by (metis add_cancel_left_left div_mult_mod_eq mult_zero_left mult_zero_right)
    moreover have "b mod P < 2 ^ p" using F pp by simp
    ultimately show ?thesis unfolding P_def [symmetric] by blast
  next
    case False
    then obtain s where s: "b div P = Suc s" by (cases "b div P") simp_all
    have "b = Suc s * P + b mod P" using s by (metis div_mult_mod_eq mult.commute)
    then have "b = s * P + (P + b mod P)" by simp
    moreover have "P + b mod P < 2 ^ p" using F pp by simp
    moreover have "P \<le> P + b mod P" by simp
    ultimately show ?thesis unfolding P_def [symmetric] by blast
  qed
qed

lemma valn_Suc: "0 < p \<Longrightarrow> valn p b < valn p (Suc b)"
proof -
  assume p: "0 < p"
  from valn_decomp [OF p, of b] obtain s m where
    b: "b = s * 2 ^ (p - 1) + m" and m: "m < 2 ^ p" and c: "s = 0 \<or> 2 ^ (p - 1) \<le> m"
    by blast
  have v1: "valn p b = m * 2 ^ s"
    unfolding b using m c by (intro valn_shift [OF p]) auto
  have "Suc b = s * 2 ^ (p - 1) + Suc m" by (simp add: b)
  moreover have "valn p (s * 2 ^ (p - 1) + Suc m) = Suc m * 2 ^ s"
    using m c by (intro valn_shift [OF p]) auto
  ultimately have v2: "valn p (Suc b) = Suc m * 2 ^ s" by simp
  show ?thesis by (simp add: v1 v2)
qed


lemma valn_mono: "0 < p \<Longrightarrow> b \<le> c \<Longrightarrow> valn p b \<le> valn p c"
  using lift_Suc_mono_le [of "valn p" b c] valn_Suc [of p] by (simp add: less_imp_le)

lemma rnd_floor:
  assumes p: "0 < p" and D: "0 < D"
  shows "\<exists>bd. valn p bd * D \<le> N \<and> N < valn p (Suc bd) * D
              \<and> (rnd p N D = bd \<or> rnd p N D = Suc bd)
              \<and> (N = valn p bd * D \<longrightarrow> rnd p N D = bd)
              \<and> (1 < p \<longrightarrow> rnd p N D =
                   (if 2 * (N - valn p bd * D) < (valn p (Suc bd) - valn p bd) * D
                     \<or> (2 * (N - valn p bd * D) = (valn p (Suc bd) - valn p bd) * D \<and> even bd)
                    then bd else Suc bd))"
proof -
  define Q where "Q = N div D"
  define k where "k = bitlen Q"
  define s where "s = k - p"
  define u where "u = D * 2 ^ s"
  define m where "m = N div u"
  define r where "r = N mod u"
  define bd where "bd = s * 2 ^ (p - 1) + m"
  have u: "0 < u" using D by (simp add: u_def)
  have mq: "m = Q div 2 ^ s" by (simp add: m_def u_def Q_def div_mult2_eq)
  have Qk: "Q < 2 ^ k" by (simp add: k_def bitlen_less)
  have m1: "m < 2 ^ p"
  proof (cases "k \<le> p")
    case True
    then have "s = 0" by (simp add: s_def)
    then have "m = Q" by (simp add: mq)
    moreover have "(2::nat) ^ k \<le> 2 ^ p" using True by simp
    ultimately show ?thesis using Qk by linarith
  next
    case False
    then have "k = p + s" by (simp add: s_def)
    then have "Q < 2 ^ p * 2 ^ s" using Qk by (simp add: power_add)
    then show ?thesis unfolding mq by (simp add: less_mult_imp_div_less)
  qed
  have m2: "s = 0 \<or> 2 ^ (p - 1) \<le> m"
  proof (cases "k \<le> p")
    case True
    then show ?thesis by (simp add: s_def)
  next
    case False
    then have ks: "k - 1 = (p - 1) + s" using p by (simp add: s_def)
    have "0 < Q" using False p by (cases "Q = 0") (simp_all add: k_def bitlen.simps)
    then have "2 ^ (k - 1) \<le> Q" unfolding k_def by (rule bitlen_ge)
    then have "2 ^ (p - 1) * 2 ^ s \<le> Q" by (simp only: ks power_add)
    then have "2 ^ (p - 1) \<le> Q div 2 ^ s" by (simp add: less_eq_div_iff_mult_less_eq)
    then show ?thesis by (simp add: mq)
  qed
  have v1: "valn p bd = m * 2 ^ s"
    unfolding bd_def using m1 m2 by (intro valn_shift [OF p]) auto
  have "Suc bd = s * 2 ^ (p - 1) + Suc m" by (simp add: bd_def)
  moreover have "valn p (s * 2 ^ (p - 1) + Suc m) = Suc m * 2 ^ s"
    using m1 m2 by (intro valn_shift [OF p]) auto
  ultimately have v2: "valn p (Suc bd) = Suc m * 2 ^ s" by simp
  have N: "N = m * u + r" by (simp add: m_def r_def)
  have ru: "r < u" using u by (simp add: r_def)
  have a: "valn p bd * D \<le> N" unfolding v1 using N by (simp add: u_def mult.assoc mult.left_commute mult.commute)
  have b: "N < valn p (Suc bd) * D"
  proof -
    have "N < Suc m * u" using N ru by simp
    then show ?thesis unfolding v2 by (simp add: u_def mult.assoc mult.left_commute mult.commute)
  qed
  have rn: "rnd p N D = (if 2 * r < u \<or> (2 * r = u \<and> even m) then bd else Suc bd)"
    unfolding rnd_def Let_def
    unfolding Q_def [symmetric] k_def [symmetric] s_def [symmetric]
        u_def [symmetric] m_def [symmetric] r_def [symmetric] bd_def [symmetric]
    by simp
  have c: "rnd p N D = bd \<or> rnd p N D = Suc bd" by (simp add: rn)
  have d: "N = valn p bd * D \<longrightarrow> rnd p N D = bd"
  proof
    assume "N = valn p bd * D"
    then have "N = m * u" unfolding v1 by (simp add: u_def mult.assoc mult.left_commute mult.commute)
    then have "r = 0" using N by simp
    then show "rnd p N D = bd" using u by (simp add: rn)
  qed
  have e: "1 < p \<longrightarrow> rnd p N D =
                   (if 2 * (N - valn p bd * D) < (valn p (Suc bd) - valn p bd) * D
                     \<or> (2 * (N - valn p bd * D) = (valn p (Suc bd) - valn p bd) * D \<and> even bd)
                    then bd else Suc bd)"
  proof
    assume p1: "1 < p"
    have r: "N - valn p bd * D = r"
      unfolding v1 using N by (simp add: u_def mult.assoc mult.left_commute mult.commute)
    have "valn p (Suc bd) - valn p bd = 2 ^ s" unfolding v1 v2 by simp
    then have g: "(valn p (Suc bd) - valn p bd) * D = u" by (simp add: u_def)
    have "even ((2::nat) ^ (p - 1))" using p1 by simp
    then have ev: "even bd = even m" unfolding bd_def by simp
    show "rnd p N D =
                   (if 2 * (N - valn p bd * D) < (valn p (Suc bd) - valn p bd) * D
                     \<or> (2 * (N - valn p bd * D) = (valn p (Suc bd) - valn p bd) * D \<and> even bd)
                    then bd else Suc bd)"
      unfolding r g ev by (rule rn)
  qed
  show ?thesis using a b c d e by blast
qed

lemma rnd_cert:
  assumes p: "1 < p" and D: "0 < D" and lo: "valn p b * D \<le> N" and hi: "N < valn p (Suc b) * D"
  shows "rnd p N D =
           (if 2 * (N - valn p b * D) < (valn p (Suc b) - valn p b) * D
             \<or> (2 * (N - valn p b * D) = (valn p (Suc b) - valn p b) * D \<and> even b)
            then b else Suc b)"
proof -
  have p0: "0 < p" using p by simp
  from rnd_floor [OF p0 D, of N] p obtain bd where
    a: "valn p bd * D \<le> N" and b: "N < valn p (Suc bd) * D"
    and e: "rnd p N D =
                   (if 2 * (N - valn p bd * D) < (valn p (Suc bd) - valn p bd) * D
                     \<or> (2 * (N - valn p bd * D) = (valn p (Suc bd) - valn p bd) * D \<and> even bd)
                    then bd else Suc bd)" by blast
  have "valn p b * D < valn p (Suc bd) * D" using lo b by (rule le_less_trans)
  then have "valn p b < valn p (Suc bd)" using D by simp
  then have 1: "b < Suc bd" using valn_mono [OF p0, of "Suc bd" b] by (cases "b < Suc bd") simp_all
  have "valn p bd * D < valn p (Suc b) * D" using a hi by (rule le_less_trans)
  then have "valn p bd < valn p (Suc b)" using D by simp
  then have 2: "bd < Suc b" using valn_mono [OF p0, of "Suc b" bd] by (cases "bd < Suc b") simp_all
  have "bd = b" using 1 2 by simp
  then show ?thesis using e by simp
qed


























lemma yaw_deg_of_wrap: "yaw_deg_of fp Y = wrap_180 fp (deg_of_rad32 fp Y)"
  by (simp add: yaw_deg_of_def wrap_180_def deg_of_rad32_def Let_def)




section \<open>Computations under IEEE 754\<close>

text \<open>
  Conversions of concrete values, operation by operation.  Each rounding is certified by
  \<open>rnd_cert\<close> from the value of the format just below the exact result:
  -7 rad is -401.07 degrees and wraps to -41.07 degrees, which is -0.7168 rad;
  0.03 rad is 1.7188733853924711 degrees, which is 0.029999999999999995 rad;
  the degrees value of 1e38 rad overflows \<open>float\<close> to infinity, and the wrap of infinity
  is a NaN; 0.5 rad, as \<open>float\<close> and as \<open>double\<close>, comes back as it was.
\<close>

lemma deg_of_rad32_minus_7:
  "deg_of_rad32 ieee 0xC0E00000 = 0xC3C88905"
proof -
  have e1: "ieee_widen 0xC0E00000 = 0xC01C000000000000"
    by (simp add: ieee_widen_def mag32_def neg32_def inf32_def mk64_def inf64_def valn_def nan64_def
        rnd_cert [where b = "4619567317775286272"])
  have e2: "ieee_mul 0xC01C000000000000 lit_180 = 0xC093B00000000000"
    by (simp add: mag64_def neg64_def inf64_def mk64_def valn_def ieee_mul_def nan64_def lit_180_def
        rnd_cert [where b = "4653256354050342912"])
  have e3: "ieee_div 0xC093B00000000000 PI = 0xC0791120971749C0"
    by (simp add: mag64_def neg64_def inf64_def mk64_def valn_def ieee_div_def nan64_def PI_def
        rnd_cert [where b = "4645763322280888768"])
  have e4: "ieee_narrow 0xC0791120971749C0 = 0xC3C88905"
    by (simp add: ieee_narrow_def mag64_def neg64_def inf64_def mk32_def inf32_def valn_def
        nan32_def rnd_cert [where b = "1137215748"])
  show ?thesis
    by (simp add: deg_of_rad32_def ieee_def e1 e2 e3 e4)
qed

lemma wrap_180_minus_401:
  "wrap_180 ieee 0xC3C88905 = 0xC2244828"
proof -
  have e1: "ieee_widen 0xC3C88905 = 0xC0791120A0000000"
    by (simp add: ieee_widen_def mag32_def neg32_def inf32_def mk64_def inf64_def valn_def nan64_def
        rnd_cert [where b = "4645763322430357504"])
  have e2: "ieee_fmod 0xC0791120A0000000 lit_360 = 0xC044890500000000"
    by (simp add: mag64_def neg64_def inf64_def mk64_def valn_def ieee_fmod_def nan64_def
        lit_360_def rnd_cert [where b = "4630976971411554304"])
  have e3: "ieee_narrow 0xC044890500000000 = 0xC2244828"
    by (simp add: ieee_narrow_def mag64_def neg64_def inf64_def mk32_def inf32_def valn_def
        nan32_def rnd_cert [where b = "1109674024"])
  have e4: "ieee_widen 0xC2244828 = 0xC044890500000000"
    by (simp add: ieee_widen_def mag32_def neg32_def inf32_def mk64_def inf64_def valn_def nan64_def
        rnd_cert [where b = "4630976971411554304"])
  have e5: "ieee_less 0xC044890500000000 lit_0"
    by (simp add: ieee_less_def ival64_def mag64_def neg64_def inf64_def valn_def lit_0_def)
  have e6: "ieee_add 0xC044890500000000 lit_360 = 0x4073EEDF60000000"
    by (simp add: mag64_def neg64_def inf64_def mk64_def valn_def ieee_add_def ival64_def nan64_def
        lit_360_def rnd_cert [where b = "4644318283904843776"])
  have e7: "ieee_narrow 0x4073EEDF60000000 = 0x439F76FB"
    by (simp add: ieee_narrow_def mag64_def neg64_def inf64_def mk32_def inf32_def valn_def
        nan32_def rnd_cert [where b = "1134524155"])
  have e8: "ieee_widen 0x439F76FB = 0x4073EEDF60000000"
    by (simp add: ieee_widen_def mag32_def neg32_def inf32_def mk64_def inf64_def valn_def nan64_def
        rnd_cert [where b = "4644318283904843776"])
  have e9: "ieee_less lit_180 0x4073EEDF60000000"
    by (simp add: ieee_less_def ival64_def mag64_def neg64_def inf64_def valn_def lit_180_def)
  have e10: "ieee_sub 0x4073EEDF60000000 lit_360 = 0xC044890500000000"
    by (simp add: mag64_def neg64_def inf64_def mk64_def valn_def ieee_sub_def ival64_def nan64_def
        lit_360_def rnd_cert [where b = "4630976971411554304"])
  show ?thesis
    by (simp add: wrap_180_def Let_def ieee_def e1 e2 e3 e4 e5 e6 e7 e8 e9 e10)
qed

lemma rad_of_deg32_minus_41:
  "rad_of_deg32 ieee 0xC2244828 = 0xBF37812D"
proof -
  have e1: "ieee_widen 0xC2244828 = 0xC044890500000000"
    by (simp add: ieee_widen_def mag32_def neg32_def inf32_def mk64_def inf64_def valn_def nan64_def
        rnd_cert [where b = "4630976971411554304"])
  have e2: "ieee_mul 0xC044890500000000 PI = 0xC06020DA7DFAA536"
    by (simp add: mag64_def neg64_def inf64_def mk64_def valn_def ieee_mul_def nan64_def PI_def
        rnd_cert [where b = "4638743738980148534"])
  have e3: "ieee_div 0xC06020DA7DFAA536 lit_180 = 0xBFE6F025AD7B3A9C"
    by (simp add: mag64_def neg64_def inf64_def mk64_def valn_def ieee_div_def nan64_def lit_180_def
        rnd_cert [where b = "4604631713647901340"])
  have e4: "ieee_narrow 0xBFE6F025AD7B3A9C = 0xBF37812D"
    by (simp add: ieee_narrow_def mag64_def neg64_def inf64_def mk32_def inf32_def valn_def
        nan32_def rnd_cert [where b = "1060602157"])
  show ?thesis
    by (simp add: rad_of_deg32_def ieee_def e1 e2 e3 e4)
qed

lemma deg_of_rad64_003:
  "deg_of_rad64 ieee 0x3F9EB851EB851EB8 = 0x3FFB808161039B84"
proof -
  have e1: "ieee_mul 0x3F9EB851EB851EB8 lit_180 = 0x4015999999999999"
    by (simp add: mag64_def neg64_def inf64_def mk64_def valn_def ieee_mul_def nan64_def lit_180_def
        rnd_cert [where b = "4617765877924338073"])
  have e2: "ieee_div 0x4015999999999999 PI = 0x3FFB808161039B84"
    by (simp add: mag64_def neg64_def inf64_def mk64_def valn_def ieee_div_def nan64_def PI_def
        rnd_cert [where b = "4610419936710597508"])
  show ?thesis
    by (simp add: deg_of_rad64_def ieee_def e1 e2)
qed

lemma rad_of_deg64_003:
  "rad_of_deg64 ieee 0x3FFB808161039B84 = 0x3F9EB851EB851EB7"
proof -
  have e1: "ieee_mul 0x3FFB808161039B84 PI = 0x4015999999999999"
    by (simp add: mag64_def neg64_def inf64_def mk64_def valn_def ieee_mul_def nan64_def PI_def
        rnd_cert [where b = "4617765877924338072"])
  have e2: "ieee_div 0x4015999999999999 lit_180 = 0x3F9EB851EB851EB7"
    by (simp add: mag64_def neg64_def inf64_def mk64_def valn_def ieee_div_def nan64_def lit_180_def
        rnd_cert [where b = "4584304132692975287"])
  show ?thesis
    by (simp add: rad_of_deg64_def ieee_def e1 e2)
qed




lemma deg_of_rad64_zero:
  "deg_of_rad64 ieee 0x0000000000000000 = 0x0000000000000000"
proof -
  have e1: "ieee_mul 0x0000000000000000 lit_180 = 0x0000000000000000"
    by (simp add: mag64_def neg64_def inf64_def mk64_def valn_def ieee_mul_def nan64_def lit_180_def
        rnd_cert [where b = "0"])
  have e2: "ieee_div 0x0000000000000000 PI = 0x0000000000000000"
    by (simp add: mag64_def neg64_def inf64_def mk64_def valn_def ieee_div_def nan64_def PI_def
        rnd_cert [where b = "0"])
  show ?thesis
    by (simp add: deg_of_rad64_def ieee_def e1 e2)
qed

lemma rad_of_deg64_zero:
  "rad_of_deg64 ieee 0x0000000000000000 = 0x0000000000000000"
proof -
  have e1: "ieee_mul 0x0000000000000000 PI = 0x0000000000000000"
    by (simp add: mag64_def neg64_def inf64_def mk64_def valn_def ieee_mul_def nan64_def PI_def
        rnd_cert [where b = "0"])
  have e2: "ieee_div 0x0000000000000000 lit_180 = 0x0000000000000000"
    by (simp add: mag64_def neg64_def inf64_def mk64_def valn_def ieee_div_def nan64_def lit_180_def
        rnd_cert [where b = "0"])
  show ?thesis
    by (simp add: rad_of_deg64_def ieee_def e1 e2)
qed

lemma deg_of_rad32_zero:
  "deg_of_rad32 ieee 0x00000000 = 0x00000000"
proof -
  have e1: "ieee_widen 0x00000000 = 0x0000000000000000"
    by (simp add: ieee_widen_def mag32_def neg32_def inf32_def mk64_def inf64_def valn_def nan64_def
        rnd_cert [where b = "0"])
  have e2: "ieee_mul 0x0000000000000000 lit_180 = 0x0000000000000000"
    by (simp add: mag64_def neg64_def inf64_def mk64_def valn_def ieee_mul_def nan64_def lit_180_def
        rnd_cert [where b = "0"])
  have e3: "ieee_div 0x0000000000000000 PI = 0x0000000000000000"
    by (simp add: mag64_def neg64_def inf64_def mk64_def valn_def ieee_div_def nan64_def PI_def
        rnd_cert [where b = "0"])
  have e4: "ieee_narrow 0x0000000000000000 = 0x00000000"
    by (simp add: ieee_narrow_def mag64_def neg64_def inf64_def mk32_def inf32_def valn_def
        nan32_def rnd_cert [where b = "0"])
  show ?thesis
    by (simp add: deg_of_rad32_def ieee_def e1 e2 e3 e4)
qed

lemma rad_of_deg32_zero:
  "rad_of_deg32 ieee 0x00000000 = 0x00000000"
proof -
  have e1: "ieee_widen 0x00000000 = 0x0000000000000000"
    by (simp add: ieee_widen_def mag32_def neg32_def inf32_def mk64_def inf64_def valn_def nan64_def
        rnd_cert [where b = "0"])
  have e2: "ieee_mul 0x0000000000000000 PI = 0x0000000000000000"
    by (simp add: mag64_def neg64_def inf64_def mk64_def valn_def ieee_mul_def nan64_def PI_def
        rnd_cert [where b = "0"])
  have e3: "ieee_div 0x0000000000000000 lit_180 = 0x0000000000000000"
    by (simp add: mag64_def neg64_def inf64_def mk64_def valn_def ieee_div_def nan64_def lit_180_def
        rnd_cert [where b = "0"])
  have e4: "ieee_narrow 0x0000000000000000 = 0x00000000"
    by (simp add: ieee_narrow_def mag64_def neg64_def inf64_def mk32_def inf32_def valn_def
        nan32_def rnd_cert [where b = "0"])
  show ?thesis
    by (simp add: rad_of_deg32_def ieee_def e1 e2 e3 e4)
qed


lemma deg_of_rad32_half:
  "deg_of_rad32 ieee 0x3F000000 = 0x41E52EE1"
proof -
  have e1: "ieee_widen 0x3F000000 = 0x3FE0000000000000"
    by (simp add: ieee_widen_def mag32_def neg32_def inf32_def mk64_def inf64_def valn_def nan64_def
        rnd_cert [where b = "4602678819172646912"])
  have e2: "ieee_mul 0x3FE0000000000000 lit_180 = 0x4056800000000000"
    by (simp add: mag64_def neg64_def inf64_def mk64_def valn_def ieee_mul_def nan64_def lit_180_def
        rnd_cert [where b = "4636033603912859648"])
  have e3: "ieee_div 0x4056800000000000 PI = 0x403CA5DC1A63C200"
    by (simp add: mag64_def neg64_def inf64_def mk64_def valn_def ieee_div_def nan64_def PI_def
        rnd_cert [where b = "4628756881784160768"])
  have e4: "ieee_narrow 0x403CA5DC1A63C200 = 0x41E52EE1"
    by (simp add: ieee_narrow_def mag64_def neg64_def inf64_def mk32_def inf32_def valn_def
        nan32_def rnd_cert [where b = "1105538784"])
  show ?thesis
    by (simp add: deg_of_rad32_def ieee_def e1 e2 e3 e4)
qed

lemma wrap_180_28:
  "wrap_180 ieee 0x41E52EE1 = 0x41E52EE1"
proof -
  have e1: "ieee_widen 0x41E52EE1 = 0x403CA5DC20000000"
    by (simp add: ieee_widen_def mag32_def neg32_def inf32_def mk64_def inf64_def valn_def nan64_def
        rnd_cert [where b = "4628756881878286336"])
  have e2: "ieee_fmod 0x403CA5DC20000000 lit_360 = 0x403CA5DC20000000"
    by (simp add: mag64_def neg64_def inf64_def mk64_def valn_def ieee_fmod_def nan64_def
        lit_360_def rnd_cert [where b = "4628756881878286336"])
  have e3: "ieee_narrow 0x403CA5DC20000000 = 0x41E52EE1"
    by (simp add: ieee_narrow_def mag64_def neg64_def inf64_def mk32_def inf32_def valn_def
        nan32_def rnd_cert [where b = "1105538785"])
  have e4: "\<not> ieee_less 0x403CA5DC20000000 lit_0"
    by (simp add: ieee_less_def ival64_def mag64_def neg64_def inf64_def valn_def lit_0_def)
  have e5: "\<not> ieee_less lit_180 0x403CA5DC20000000"
    by (simp add: ieee_less_def ival64_def mag64_def neg64_def inf64_def valn_def lit_180_def)
  show ?thesis
    by (simp add: wrap_180_def Let_def ieee_def e1 e2 e3 e4 e5)
qed

lemma rad_of_deg32_28:
  "rad_of_deg32 ieee 0x41E52EE1 = 0x3F000000"
proof -
  have e1: "ieee_widen 0x41E52EE1 = 0x403CA5DC20000000"
    by (simp add: ieee_widen_def mag32_def neg32_def inf32_def mk64_def inf64_def valn_def nan64_def
        rnd_cert [where b = "4628756881878286336"])
  have e2: "ieee_mul 0x403CA5DC20000000 PI = 0x40568000046805A0"
    by (simp add: mag64_def neg64_def inf64_def mk64_def valn_def ieee_mul_def nan64_def PI_def
        rnd_cert [where b = "4636033603986785696"])
  have e3: "ieee_div 0x40568000046805A0 lit_180 = 0x3FE0000003222622"
    by (simp add: mag64_def neg64_def inf64_def mk64_def valn_def ieee_div_def nan64_def lit_180_def
        rnd_cert [where b = "4602678819225216546"])
  have e4: "ieee_narrow 0x3FE0000003222622 = 0x3F000000"
    by (simp add: ieee_narrow_def mag64_def neg64_def inf64_def mk32_def inf32_def valn_def
        nan32_def rnd_cert [where b = "1056964608"])
  show ?thesis
    by (simp add: rad_of_deg32_def ieee_def e1 e2 e3 e4)
qed

lemma deg_of_rad64_half:
  "deg_of_rad64 ieee 0x3FE0000000000000 = 0x403CA5DC1A63C200"
proof -
  have e1: "ieee_mul 0x3FE0000000000000 lit_180 = 0x4056800000000000"
    by (simp add: mag64_def neg64_def inf64_def mk64_def valn_def ieee_mul_def nan64_def lit_180_def
        rnd_cert [where b = "4636033603912859648"])
  have e2: "ieee_div 0x4056800000000000 PI = 0x403CA5DC1A63C200"
    by (simp add: mag64_def neg64_def inf64_def mk64_def valn_def ieee_div_def nan64_def PI_def
        rnd_cert [where b = "4628756881784160768"])
  show ?thesis
    by (simp add: deg_of_rad64_def ieee_def e1 e2)
qed

lemma rad_of_deg64_28:
  "rad_of_deg64 ieee 0x403CA5DC1A63C200 = 0x3FE0000000000000"
proof -
  have e1: "ieee_mul 0x403CA5DC1A63C200 PI = 0x4056800000000000"
    by (simp add: mag64_def neg64_def inf64_def mk64_def valn_def ieee_mul_def nan64_def PI_def
        rnd_cert [where b = "4636033603912859647"])
  have e2: "ieee_div 0x4056800000000000 lit_180 = 0x3FE0000000000000"
    by (simp add: mag64_def neg64_def inf64_def mk64_def valn_def ieee_div_def nan64_def lit_180_def
        rnd_cert [where b = "4602678819172646912"])
  show ?thesis
    by (simp add: rad_of_deg64_def ieee_def e1 e2)
qed

section \<open>The angle fields on the wire\<close>





section \<open>Claims\<close>

text \<open>
  C4.  \<open>AddHash\<close> appends exactly two bytes, accA then accB, the two-stage running sums
  (\<open>accA += byte; accB += accA\<close>, both modulo 256) over every byte already in the buffer;
  for the buffer \<open>[0x00, 0x01, 0x02]\<close> the two appended bytes are 3 and 4.
\<close>

theorem AddHash_appends_running_sums:
  "m_data (AddHash p) =
     m_data p @ [of_nat (fst (running_sums (map unat (m_data p)) (0, 0))),
                 of_nat (snd (running_sums (map unat (m_data p)) (0, 0)))]
   \<and> length (m_data (AddHash p)) = length (m_data p) + 2
   \<and> fst (running_sums (map unat (m_data p)) (0, 0)) < 256
   \<and> snd (running_sums (map unat (m_data p)) (0, 0)) < 256
   \<and> m_data (AddHash \<lparr>m_data = [0, 1, 2], m_size = s, m_PID = t, M_highLevelFieldsValid = c\<rparr>)
       = [0, 1, 2, 3, 4]"
proof -
  have rs: "running_sums (map unat (m_data q)) (0, 0) =
      (unat (fst (hash_loop (m_data q) (length (m_data q)) 0 (0, 0))),
       unat (snd (hash_loop (m_data q) (length (m_data q)) 0 (0, 0))))" for q :: Packet
    using hash_loop_running_sums [of "length (m_data q)" "m_data q"] by simp
  have app: "m_data (AddHash q) =
     m_data q @ [of_nat (fst (running_sums (map unat (m_data q)) (0, 0))),
                 of_nat (snd (running_sums (map unat (m_data q)) (0, 0)))]" for q :: Packet
    by (simp add: AddHash_def encodeField_uint8_def rs split: prod.split)
  have vec: "running_sums (map unat [0, 1, 2 :: byte]) (0, 0) = (3, 4)"
    by simp
  show ?thesis
    using app [of p]
      app [of "\<lparr>m_data = [0, 1, 2], m_size = s, m_PID = t, M_highLevelFieldsValid = c\<rparr>"]
    by (simp add: rs [of p] byte_lt vec)
qed

text \<open>
  C5.  \<open>CheckHash\<close> returns true if and only if the buffer holds at least 9 bytes, the
  big-endian 32-bit size field read at byte offsets 2 to 5 equals the buffer's actual
  length, and the two-stage running sum recomputed over all bytes except the last two
  equals those last two bytes (accA at position length - 2, accB at position length - 1).
  It always returns (no read is out of range).
\<close>

theorem CheckHash_iff:
  "CheckHash p =
     Some (9 \<le> length (m_data p)
           \<and> be_u32 (m_data p ! 2) (m_data p ! 3) (m_data p ! 4) (m_data p ! 5)
               = length (m_data p)
           \<and> running_sums (map unat (take (length (m_data p) - 2) (m_data p))) (0, 0)
               = (unat (m_data p ! (length (m_data p) - 2)),
                  unat (m_data p ! (length (m_data p) - 1))))"
  by (rule CheckHash_char)

text \<open>
  C2 (as amended).  \<open>ForwardScanForSync\<close> on a non-empty buffer: if the sync marker
  0xDA, 0xA7 occurs fully inside the buffer starting at some index \<open>\<ge> 1\<close>, every byte before
  the first such occurrence is discarded; otherwise, if the buffer holds more than one byte
  and its last byte is 0xDA, the buffer is replaced by that single byte; otherwise the buffer
  is cleared.  In every case the cached header fields are invalidated and the buffer is at
  least one byte shorter.
\<close>

theorem ForwardScanForSync_cases:
  assumes "m_data p \<noteq> []"
  shows "(\<forall>i. 1 \<le> i \<and> marker_at (m_data p) i
              \<and> (\<forall>j. 1 \<le> j \<and> j < i \<longrightarrow> \<not> marker_at (m_data p) j)
            \<longrightarrow> m_data (ForwardScanForSync p) = drop i (m_data p))
       \<and> ((\<forall>i. 1 \<le> i \<longrightarrow> \<not> marker_at (m_data p) i)
            \<and> 1 < length (m_data p) \<and> last (m_data p) = 0xDA
            \<longrightarrow> m_data (ForwardScanForSync p) = [0xDA])
       \<and> ((\<forall>i. 1 \<le> i \<longrightarrow> \<not> marker_at (m_data p) i)
            \<and> \<not> (1 < length (m_data p) \<and> last (m_data p) = 0xDA)
            \<longrightarrow> m_data (ForwardScanForSync p) = [])
       \<and> \<not> M_highLevelFieldsValid (ForwardScanForSync p)
       \<and> length (m_data (ForwardScanForSync p)) < length (m_data p)"
proof (cases "sync_scan (m_data p) 1")
  case None
  note fs = ForwardScanForSync_None [OF assms None]
  have no: "\<not> marker_at (m_data p) i" if "1 \<le> i" for i
    using None that by (simp add: sync_scan_None)
  have len: "0 < length (m_data p)" using assms by simp
  have c1: "\<forall>i. 1 \<le> i \<and> marker_at (m_data p) i
              \<and> (\<forall>j. 1 \<le> j \<and> j < i \<longrightarrow> \<not> marker_at (m_data p) j)
            \<longrightarrow> m_data (ForwardScanForSync p) = drop i (m_data p)"
    using no by blast
  have c2: "(\<forall>i. 1 \<le> i \<longrightarrow> \<not> marker_at (m_data p) i)
            \<and> 1 < length (m_data p) \<and> last (m_data p) = 0xDA
            \<longrightarrow> m_data (ForwardScanForSync p) = [0xDA]"
    by (simp add: fs)
  have c3: "(\<forall>i. 1 \<le> i \<longrightarrow> \<not> marker_at (m_data p) i)
            \<and> \<not> (1 < length (m_data p) \<and> last (m_data p) = 0xDA)
            \<longrightarrow> m_data (ForwardScanForSync p) = []"
    by (simp add: fs)
  have c4: "\<not> M_highLevelFieldsValid (ForwardScanForSync p)"
    by (simp add: fs)
  have c5: "length (m_data (ForwardScanForSync p)) < length (m_data p)"
    using len by (simp add: fs)
  show ?thesis using c1 c2 c3 c4 c5 by blast
next
  case (Some k)
  note fs = ForwardScanForSync_Some [OF assms Some]
  from sync_scan_Some [OF Some]
  have k: "1 \<le> k" "marker_at (m_data p) k"
    and least: "\<And>j. 1 \<le> j \<Longrightarrow> j < k \<Longrightarrow> \<not> marker_at (m_data p) j" by auto
  have uniq: "i = k" if i: "1 \<le> i" "marker_at (m_data p) i"
    and li: "\<forall>j. 1 \<le> j \<and> j < i \<longrightarrow> \<not> marker_at (m_data p) j" for i
  proof (rule ccontr)
    assume "i \<noteq> k"
    then consider "i < k" | "k < i" by linarith
    then show False
    proof cases
      case 1 then show ?thesis using least [OF i(1)] i(2) by simp
    next
      case 2 then show ?thesis using li k by simp
    qed
  qed
  have klen: "k < length (m_data p)" using k(2) by (simp add: marker_at_def)
  have c1: "\<forall>i. 1 \<le> i \<and> marker_at (m_data p) i
              \<and> (\<forall>j. 1 \<le> j \<and> j < i \<longrightarrow> \<not> marker_at (m_data p) j)
            \<longrightarrow> m_data (ForwardScanForSync p) = drop i (m_data p)"
  proof (intro allI impI)
    fix i assume "1 \<le> i \<and> marker_at (m_data p) i
              \<and> (\<forall>j. 1 \<le> j \<and> j < i \<longrightarrow> \<not> marker_at (m_data p) j)"
    then have "i = k" using uniq by blast
    then show "m_data (ForwardScanForSync p) = drop i (m_data p)" by (simp add: fs)
  qed
  have ex: "\<not> (\<forall>i. 1 \<le> i \<longrightarrow> \<not> marker_at (m_data p) i)"
    using k by blast
  have c4: "\<not> M_highLevelFieldsValid (ForwardScanForSync p)"
    by (simp add: fs)
  have c5: "length (m_data (ForwardScanForSync p)) < length (m_data p)"
    using k(1) klen by (simp add: fs)
  show ?thesis using c1 ex c4 c5 by blast
qed

theorem ForwardScanForSync_cases_witness:
  "m_data (ForwardScanForSync \<lparr>m_data = [0xFF, 0xFF, 0xFF, 0xDA, 0xA7, 0x00], m_size = 0,
      m_PID = 0, M_highLevelFieldsValid = True\<rparr>) = [0xDA, 0xA7, 0x00]
   \<and> m_data (ForwardScanForSync \<lparr>m_data = [0xDA, 0x01, 0xDA], m_size = 0,
      m_PID = 0, M_highLevelFieldsValid = True\<rparr>) = [0xDA]
   \<and> m_data (ForwardScanForSync \<lparr>m_data = [0xDA, 0xA7, 0x01], m_size = 0,
      m_PID = 0, M_highLevelFieldsValid = True\<rparr>) = []"
proof -
  let ?p1 = "\<lparr>m_data = [0xFF, 0xFF, 0xFF, 0xDA, 0xA7, 0x00], m_size = 0,
      m_PID = 0, M_highLevelFieldsValid = True\<rparr>"
  let ?p2 = "\<lparr>m_data = [0xDA, 0x01, 0xDA], m_size = 0,
      m_PID = 0, M_highLevelFieldsValid = True\<rparr>"
  let ?p3 = "\<lparr>m_data = [0xDA, 0xA7, 0x01], m_size = 0,
      m_PID = 0, M_highLevelFieldsValid = True\<rparr>"
  have j3: "j = 1 \<or> j = 2" if "1 \<le> j \<and> j < 3" for j :: nat using that by auto
  have "\<not> marker_at (m_data ?p1) 1" "\<not> marker_at (m_data ?p1) 2" "marker_at (m_data ?p1) 3"
    by (simp_all add: marker_at_def)
  moreover have "(1::nat) \<le> 3" by simp
  ultimately have m1: "1 \<le> (3::nat) \<and> marker_at (m_data ?p1) 3
      \<and> (\<forall>j. 1 \<le> j \<and> j < 3 \<longrightarrow> \<not> marker_at (m_data ?p1) j)"
    using j3 by blast
  have i3: "\<not> marker_at [a, b, c] i" if "1 \<le> i" "b \<noteq> 0xDA" for i a b c
  proof (cases "i = 1")
    case True
    then show ?thesis using that by (simp add: marker_at_def)
  next
    case False
    then have "\<not> i + 1 < 3" using that by simp
    then show ?thesis by (simp add: marker_at_def)
  qed
  have m2: "(\<forall>i. 1 \<le> i \<longrightarrow> \<not> marker_at (m_data ?p2) i)
      \<and> 1 < length (m_data ?p2) \<and> last (m_data ?p2) = 0xDA"
    using i3 [of _ 1] by simp
  have m3: "(\<forall>i. 1 \<le> i \<longrightarrow> \<not> marker_at (m_data ?p3) i)
      \<and> \<not> (1 < length (m_data ?p3) \<and> last (m_data ?p3) = 0xDA)"
    using i3 [of _ "0xA7"] by simp
  have ne: "m_data ?p1 \<noteq> []" "m_data ?p2 \<noteq> []" "m_data ?p3 \<noteq> []" by simp_all
  note T1 = ForwardScanForSync_cases [OF ne(1)]
  note T2 = ForwardScanForSync_cases [OF ne(2)]
  note T3 = ForwardScanForSync_cases [OF ne(3)]
  have "m_data (ForwardScanForSync ?p1) = drop 3 (m_data ?p1)"
    using T1 [THEN conjunct1, THEN spec, of 3] m1 by (rule mp)
  moreover have "m_data (ForwardScanForSync ?p2) = [0xDA]"
    using T2 [THEN conjunct2, THEN conjunct1] m2 by (rule mp)
  moreover have "m_data (ForwardScanForSync ?p3) = []"
    using T3 [THEN conjunct2, THEN conjunct2, THEN conjunct1] m3 by (rule mp)
  ultimately show ?thesis by simp
qed

text \<open>
  C2 as stated fails on the one-byte buffer \<open>[0xDA]\<close>: its last byte is 0xDA, and the
  buffer is cleared, not replaced by that byte.
\<close>

theorem ForwardScanForSync_single_byte_counterexample:
  "m_data \<lparr>m_data = [0xDA], m_size = 0, m_PID = 0, M_highLevelFieldsValid = True\<rparr> \<noteq> []
   \<and> last (m_data \<lparr>m_data = [0xDA], m_size = 0, m_PID = 0, M_highLevelFieldsValid = True\<rparr>) = 0xDA
   \<and> m_data (ForwardScanForSync
        \<lparr>m_data = [0xDA], m_size = 0, m_PID = 0, M_highLevelFieldsValid = True\<rparr>) = []
   \<and> m_data (ForwardScanForSync
        \<lparr>m_data = [0xDA], m_size = 0, m_PID = 0, M_highLevelFieldsValid = True\<rparr>) \<noteq> [0xDA]"
proof -
  have "sync_scan [0xDA] 1 = None" by (subst sync_scan.simps) simp
  then show ?thesis by (simp add: ForwardScanForSync_def)
qed

text \<open>
  C10.  Whenever at least 7 bytes are buffered, \<open>BytesNeeded\<close> returns true and sets
  \<open>ByteCount\<close> to the advertised total size minus the buffer length in unsigned 32-bit
  arithmetic; when the buffer holds more bytes than advertised, the count wraps modulo
  \<open>2 ^ 32\<close> to \<open>2 ^ 32 - (length - advertised)\<close>.
\<close>

theorem BytesNeeded_wraps:
  assumes "7 \<le> length (m_data p)"
  shows "(\<exists>p'. BytesNeeded p ByteCount =
            Some (True, advertised_size p - of_nat (length (m_data p)), p')
          \<and> m_data p' = m_data p)
       \<and> unat (advertised_size p - of_nat (length (m_data p)))
           = (unat (advertised_size p) + 2 ^ 32 - length (m_data p) mod 2 ^ 32) mod 2 ^ 32
       \<and> (unat (advertised_size p) < length (m_data p) \<and> length (m_data p) < 2 ^ 32
            \<longrightarrow> unat (advertised_size p - of_nat (length (m_data p)))
                 = 2 ^ 32 - (length (m_data p) - unat (advertised_size p)))"
proof -
  define a where "a = unat (advertised_size p)"
  define n where "n = length (m_data p)"
  define m where "m = n mod 4294967296"
  have a: "a < 4294967296"
    unfolding a_def using unsigned_less [of "advertised_size p", where ?'a = nat] by simp
  have m: "m < 4294967296" unfolding m_def by simp
  have un: "unat (of_nat n :: 32 word) = m"
    unfolding m_def by (simp add: unat_of_nat)
  have raw: "unat (advertised_size p - of_nat n) = (if m \<le> a then a - m else a + 4294967296 - m)"
    using unat_sub_if_size [of "advertised_size p" "of_nat n :: 32 word"]
    by (simp only: un a_def [symmetric] word_size) simp
  have sub: "unat (advertised_size p - of_nat n) = (a + 4294967296 - m) mod 4294967296"
  proof (cases "m \<le> a")
    case True
    then have "a + 4294967296 - m = (a - m) + 4294967296" by simp
    moreover have "a - m < 4294967296" using a by simp
    ultimately have "(a + 4294967296 - m) mod 4294967296 = a - m"
      by (metis mod_add_self2 mod_less)
    then show ?thesis using True raw by simp
  next
    case False
    then have "a + 4294967296 - m < 4294967296" by simp
    then have "(a + 4294967296 - m) mod 4294967296 = a + 4294967296 - m"
      by (rule mod_less)
    then show ?thesis using False raw by simp
  qed
  have big: "unat (advertised_size p - of_nat n) = 4294967296 - (n - a)"
    if "a < n" "n < 4294967296"
  proof -
    have "m = n" unfolding m_def using that by simp
    then show ?thesis using that raw by simp
  qed
  have ex: "\<exists>p'. BytesNeeded p ByteCount =
            Some (True, advertised_size p - of_nat (length (m_data p)), p')
          \<and> m_data p' = m_data p"
    by (simp add: BytesNeeded_result [OF assms])
  show ?thesis
  proof (intro conjI impI)
    show "\<exists>p'. BytesNeeded p ByteCount =
            Some (True, advertised_size p - of_nat (length (m_data p)), p')
          \<and> m_data p' = m_data p" by (rule ex)
    show "unat (advertised_size p - of_nat (length (m_data p)))
           = (unat (advertised_size p) + 2 ^ 32 - length (m_data p) mod 2 ^ 32) mod 2 ^ 32"
      using sub unfolding a_def n_def m_def by simp
    assume "unat (advertised_size p) < length (m_data p) \<and> length (m_data p) < 2 ^ 32"
    then have "a < n" "n < 4294967296" unfolding a_def n_def by simp_all
    from big [OF this]
    show "unat (advertised_size p - of_nat (length (m_data p)))
                 = 2 ^ 32 - (length (m_data p) - unat (advertised_size p))"
      unfolding a_def n_def by simp
  qed
qed

theorem BytesNeeded_wraps_witness:
  "BytesNeeded \<lparr>m_data = [0xDA, 0xA7, 0, 0, 0, 7, 3, 1, 2, 3], m_size = 0, m_PID = 0,
                 M_highLevelFieldsValid = False\<rparr> 0
     = Some (True, 0xFFFFFFFD,
             \<lparr>m_data = [0xDA, 0xA7, 0, 0, 0, 7, 3, 1, 2, 3], m_size = 7, m_PID = 3,
              M_highLevelFieldsValid = True\<rparr>)"
proof -
  let ?p = "\<lparr>m_data = [0xDA, 0xA7, 0, 0, 0, 7, 3, 1, 2, 3], m_size = 0, m_PID = 0,
                 M_highLevelFieldsValid = False\<rparr>"
  have l: "7 \<le> length (m_data ?p)" by simp
  have adv: "advertised_size ?p = 7" by (simp add: advertised_size_def be_u32_def)
  obtain p' where p': "BytesNeeded ?p 0 = Some (True, advertised_size ?p - of_nat (length (m_data ?p)), p')"
    using BytesNeeded_wraps [OF l, of 0] by blast
  have "advertised_size ?p - of_nat (length (m_data ?p)) = (0xFFFFFFFD :: 32 word)"
    by (simp add: adv)
  moreover have "BytesNeeded ?p 0 = Some (True, advertised_size ?p - of_nat (length (m_data ?p)),
      \<lparr>m_data = [0xDA, 0xA7, 0, 0, 0, 7, 3, 1, 2, 3], m_size = 7, m_PID = 3,
              M_highLevelFieldsValid = True\<rparr>)"
    using p' by (simp add: BytesNeeded_result [OF l] adv)
  ultimately show ?thesis by simp
qed

text \<open>
  C3.  \<open>decodeField_String\<close> is claimed to return the empty string, set the budget to
  zero and advance the cursor by exactly the remainder of the budget whenever the declared
  length plus its 4-byte prefix exceeds the budget, never reading past the boundary.  The
  code does not: with a budget of 4 and the declared length \<open>0xFFFFFFFF\<close> the sum
  \<open>size + 4U\<close> wraps to 3, the guard passes and the loop reads past the budget and past the
  end of the vector (\<open>None\<close>); with a budget of 6 and the declared length 5 the string is
  empty and the budget zero, but the cursor has advanced by 10 = 4 + 6.
\<close>

theorem decodeField_String_overflow:
  "decodeField_String [0xFF, 0xFF, 0xFF, 0xFF, 0x10, 0x20] 0 4 = None
   \<and> decodeField_String [0x00, 0x00, 0x00, 0x05, 0x41, 0x42] 0 6 = Some ([], 10, 0)"
proof -
  have d1: "decodeField_uint32 [0xFF, 0xFF, 0xFF, 0xFF, 0x10, 0x20] 0 = Some (0xFFFFFFFF, 4)"
    by (simp add: decodeField_uint32_def decodeField_uint8_def)
  have u: "unat (0xFFFFFFFF :: 32 word) = 4294967295" by simp
  have l: "string_loop [0xFF, 0xFF, 0xFF, 0xFF, 0x10, 0x20] 4 4294967295 [] = None"
    by (rule string_loop_short) simp_all
  have d2: "decodeField_uint32 [0x00, 0x00, 0x00, 0x05, 0x41, 0x42] 0 = Some (5, 4)"
    by (simp add: decodeField_uint32_def decodeField_uint8_def)
  show ?thesis
    by (simp add: decodeField_String_def d1 d2 u l)
qed

text \<open>
  C7.  After \<open>Packet_CompressedImage::Serialize\<close>, the four bytes at offsets 2 to 5 of
  the packet, read as a big-endian unsigned 32-bit integer, equal the packet's final
  length (payload length plus 9), for every packet whose length fits the 32-bit size field;
  the header is first written with the placeholder size 0.  The size is patched before
  the checksum is appended: the last two bytes are the running sums over all the bytes
  before them, the patched size field among them, so that the packet passes
  \<open>CheckHashSizeAndPID\<close>.
\<close>

theorem CompressedImage_size_patched:
  assumes "length (m_data (Packet_CompressedImage_Serialize imencode this TargetPacket)) < 2 ^ 32"
  shows "be_u32 (m_data (Packet_CompressedImage_Serialize imencode this TargetPacket) ! 2)
                (m_data (Packet_CompressedImage_Serialize imencode this TargetPacket) ! 3)
                (m_data (Packet_CompressedImage_Serialize imencode this TargetPacket) ! 4)
                (m_data (Packet_CompressedImage_Serialize imencode this TargetPacket) ! 5)
           = length (m_data (Packet_CompressedImage_Serialize imencode this TargetPacket))
       \<and> length (m_data (Packet_CompressedImage_Serialize imencode this TargetPacket))
           = (4 + length (jpeg_bytes imencode (Packet_CompressedImage.Frame this))) + 9
       \<and> m_data (AddHeader (Clear TargetPacket) 0 5) = [0xDA, 0xA7, 0, 0, 0, 0, 5]
       \<and> running_sums
            (map unat (take
               (length (m_data (Packet_CompressedImage_Serialize imencode this TargetPacket)) - 2)
               (m_data (Packet_CompressedImage_Serialize imencode this TargetPacket)))) (0, 0)
           = (unat (m_data (Packet_CompressedImage_Serialize imencode this TargetPacket)
                     ! (length (m_data (Packet_CompressedImage_Serialize imencode this TargetPacket)) - 2)),
              unat (m_data (Packet_CompressedImage_Serialize imencode this TargetPacket)
                     ! (length (m_data (Packet_CompressedImage_Serialize imencode this TargetPacket)) - 1)))
       \<and> CheckHashSizeAndPID (Packet_CompressedImage_Serialize imencode this TargetPacket) 5
           = Some True"
proof -
  define q where "q = Packet_CompressedImage_Serialize imencode this TargetPacket"
  define d4 where "d4 = [0xDA, 0xA7, 0, 0, 0, 0, 5 :: byte]
      @ encodeField_uint32 [] (Packet_CompressedImage.TargetFPS this) @ jpeg_bytes imencode (Packet_CompressedImage.Frame this)"
  define d5 where "d5 = d4 [2 := ucast (drop_bit 24 ((of_nat (length d4) :: 32 word) + 2)),
                   3 := ucast (drop_bit 16 ((of_nat (length d4) :: 32 word) + 2)),
                   4 := ucast (drop_bit 8 ((of_nat (length d4) :: 32 word) + 2)),
                   5 := ucast ((of_nat (length d4) :: 32 word) + 2)]"
  define p5 where "p5 = TargetPacket\<lparr>M_highLevelFieldsValid := False, m_data := d5\<rparr>"
  have hdr: "m_data (AddHeader (Clear TargetPacket) 0 5) = [0xDA, 0xA7, 0, 0, 0, 0, 5]"
    by (simp add: AddHeader_data Clear_def)
  have ser: "q = AddHash p5"
    unfolding q_def p5_def d5_def d4_def
    by (simp add: Packet_CompressedImage_Serialize_def Let_def AddHeader_def Clear_def
        encodeField_uint8_def encodeField_sync encodeField_uint32_def
        encodeField_float32_def encodeField_CompressedImage_def jpeg_bytes_def)
  have l4: "length d4 = 11 + length (jpeg_bytes imencode (Packet_CompressedImage.Frame this))"
    by (simp add: d4_def encodeField_uint32_def)
  have l5: "length d5 = length d4" by (simp add: d5_def)
  have len: "length (m_data q) = (4 + length (jpeg_bytes imencode (Packet_CompressedImage.Frame this))) + 9"
    by (simp add: ser AddHash_length p5_def l5 l4)
  have chk: "CheckHashSizeAndPID q 5 = Some True"
    unfolding q_def using assms by (rule CompressedImage_Serialize_framed)
  note c = chk [unfolded CheckHashSizeAndPID_char, simplified]
  show ?thesis
    unfolding q_def [symmetric] using c len hdr chk by simp
qed

theorem CompressedImage_size_patched_witness:
  "length (m_data (Packet_CompressedImage_Serialize (\<lambda>x. [0xFF, 0xD8, 0xFF, 0xD9])
      \<lparr>Packet_CompressedImage.TargetFPS = 0x41F00000,
       Frame = \<lparr>rows = 1, cols = 1, mat_type = 16, pixels = [(1, 2, 3)]\<rparr>\<rparr>
      \<lparr>m_data = [], m_size = 0, m_PID = 0, M_highLevelFieldsValid = False\<rparr>)) = 17
   \<and> (let d = m_data (Packet_CompressedImage_Serialize (\<lambda>x. [0xFF, 0xD8, 0xFF, 0xD9])
      \<lparr>Packet_CompressedImage.TargetFPS = 0x41F00000,
       Frame = \<lparr>rows = 1, cols = 1, mat_type = 16, pixels = [(1, 2, 3)]\<rparr>\<rparr>
      \<lparr>m_data = [], m_size = 0, m_PID = 0, M_highLevelFieldsValid = False\<rparr>)
      in be_u32 (d ! 2) (d ! 3) (d ! 4) (d ! 5)) = 17
   \<and> CheckHashSizeAndPID (Packet_CompressedImage_Serialize (\<lambda>x. [0xFF, 0xD8, 0xFF, 0xD9])
      \<lparr>Packet_CompressedImage.TargetFPS = 0x41F00000,
       Frame = \<lparr>rows = 1, cols = 1, mat_type = 16, pixels = [(1, 2, 3)]\<rparr>\<rparr>
      \<lparr>m_data = [], m_size = 0, m_PID = 0, M_highLevelFieldsValid = False\<rparr>) 5 = Some True"
proof -
  let ?s = "Packet_CompressedImage_Serialize (\<lambda>x. [0xFF, 0xD8, 0xFF, 0xD9])
      \<lparr>Packet_CompressedImage.TargetFPS = 0x41F00000,
       Frame = \<lparr>rows = 1, cols = 1, mat_type = 16, pixels = [(1, 2, 3)]\<rparr>\<rparr>
      \<lparr>m_data = [], m_size = 0, m_PID = 0, M_highLevelFieldsValid = False\<rparr>"
  have len: "length (m_data ?s) = 17"
    by (simp add: Packet_CompressedImage_Serialize_def Let_def AddHash_length AddHeader_data
        Clear_def encodeField_float32_def encodeField_uint32_def
        encodeField_CompressedImage_def CV_8UC3_def)
  then have small: "length (m_data ?s) < 2 ^ 32" by simp
  note t = CompressedImage_size_patched [OF small]
  have sz: "be_u32 (m_data ?s ! 2) (m_data ?s ! 3) (m_data ?s ! 4) (m_data ?s ! 5) = 17"
    using t len by simp
  have chk: "CheckHashSizeAndPID ?s 5 = Some True"
    using t by simp
  show ?thesis using len sz chk by (simp only: Let_def)
qed

text \<open>
  C6.  \<open>Packet_ExecuteWaypointMission::Deserialize\<close> on a validated packet returns false
  whenever the total length is below 51 bytes or the waypoint-list byte count (length minus
  11) is not a multiple of 40; when the length is valid it returns true and decodes exactly
  (length - 11) / 40 waypoints, the n-th from the 40 bytes at offset 9 + 40 n.
\<close>

theorem ExecuteWaypointMission_Deserialize_lengths:
  assumes "CheckHashSizeAndPID p 253 = Some True"
  shows "(length (m_data p) < 51 \<or> (length (m_data p) - 11) mod 40 \<noteq> 0
          \<longrightarrow> (\<exists>t. Packet_ExecuteWaypointMission_Deserialize fp p this = Some (False, t)))
       \<and> (51 \<le> length (m_data p) \<and> (length (m_data p) - 11) mod 40 = 0
          \<longrightarrow> Packet_ExecuteWaypointMission_Deserialize fp p this =
                Some (True, this\<lparr>LandAtEnd := m_data p ! 7, CurvedFlight := m_data p ! 8,
                  Waypoints := map (\<lambda>n. waypoint_at fp (m_data p) (9 + 40 * n))
                                   [0..<(length (m_data p) - 11) div 40]\<rparr>))"
  by (simp add: ExecuteWaypointMission_Deserialize_char [OF assms])

theorem ExecuteWaypointMission_Deserialize_lengths_witness:
  "\<forall>fp this.
     (\<exists>t. Packet_ExecuteWaypointMission_Deserialize fp (packet_of mission_52) this
            = Some (False, t))
     \<and> Packet_ExecuteWaypointMission_Deserialize fp (packet_of mission_51) this =
         Some (True, this\<lparr>LandAtEnd := 1, CurvedFlight := 0,
                 Waypoints := [waypoint_at fp mission_51 9]\<rparr>)"
proof (intro allI conjI)
  fix fp this
  have l52: "length (m_data (packet_of mission_52)) = 52"
    and l51: "length (m_data (packet_of mission_51)) = 51"
    by (simp_all add: packet_of_def mission_52_def mission_51_def)
  have b51: "m_data (packet_of mission_51) ! 7 = 1" "m_data (packet_of mission_51) ! 8 = 0"
    by (simp_all add: packet_of_def mission_51_def)
  show "\<exists>t. Packet_ExecuteWaypointMission_Deserialize fp (packet_of mission_52) this
            = Some (False, t)"
    using ExecuteWaypointMission_Deserialize_lengths [OF mission_52_valid, of fp this]
    by (simp add: l52)
  have "Packet_ExecuteWaypointMission_Deserialize fp (packet_of mission_51) this =
         Some (True, this\<lparr>LandAtEnd := m_data (packet_of mission_51) ! 7,
                 CurvedFlight := m_data (packet_of mission_51) ! 8,
                 Waypoints := map (\<lambda>n. waypoint_at fp (m_data (packet_of mission_51)) (9 + 40 * n))
                                   [0..<(length (m_data (packet_of mission_51)) - 11) div 40]\<rparr>)"
    using ExecuteWaypointMission_Deserialize_lengths [OF mission_51_valid, of fp this]
    by (simp add: l51)
  then show "Packet_ExecuteWaypointMission_Deserialize fp (packet_of mission_51) this =
         Some (True, this\<lparr>LandAtEnd := 1, CurvedFlight := 0,
                 Waypoints := [waypoint_at fp mission_51 9]\<rparr>)"
    by (simp add: l51 b51) (simp add: packet_of_def)
qed

text \<open>
  C9.  When \<open>Packet_ExecuteWaypointMission::Deserialize\<close> fails because the waypoint-list
  byte count is not a multiple of 40, it returns false having overwritten the target's
  \<open>LandAtEnd\<close> and \<open>CurvedFlight\<close> with the bytes at offsets 7 and 8 of the packet and
  cleared the target's \<open>Waypoints\<close>: the failure path is not atomic.
\<close>

theorem ExecuteWaypointMission_Deserialize_not_atomic:
  assumes "CheckHashSizeAndPID p 253 = Some True"
    and "51 \<le> length (m_data p)"
    and "(length (m_data p) - 11) mod 40 \<noteq> 0"
  shows "Packet_ExecuteWaypointMission_Deserialize fp p this =
           Some (False, this\<lparr>LandAtEnd := m_data p ! 7, CurvedFlight := m_data p ! 8,
                               Waypoints := []\<rparr>)"
  using assms(2,3) by (simp add: ExecuteWaypointMission_Deserialize_char [OF assms(1)])

theorem ExecuteWaypointMission_Deserialize_not_atomic_witness:
  "\<forall>fp. Packet_ExecuteWaypointMission_Deserialize fp (packet_of mission_52)
           \<lparr>LandAtEnd = 0, CurvedFlight = 0, Waypoints = [Waypoint_default]\<rparr>
         = Some (False, \<lparr>LandAtEnd = 1, CurvedFlight = 1, Waypoints = []\<rparr>)"
proof
  fix fp
  have l52: "51 \<le> length (m_data (packet_of mission_52))"
    "(length (m_data (packet_of mission_52)) - 11) mod 40 \<noteq> 0"
    by (simp_all add: packet_of_def mission_52_def)
  have b52: "m_data (packet_of mission_52) ! 7 = 1" "m_data (packet_of mission_52) ! 8 = 1"
    by (simp_all add: packet_of_def mission_52_def)
  show "Packet_ExecuteWaypointMission_Deserialize fp (packet_of mission_52)
           \<lparr>LandAtEnd = 0, CurvedFlight = 0, Waypoints = [Waypoint_default]\<rparr>
         = Some (False, \<lparr>LandAtEnd = 1, CurvedFlight = 1, Waypoints = []\<rparr>)"
    using ExecuteWaypointMission_Deserialize_not_atomic [OF mission_52_valid l52, of fp
        "\<lparr>LandAtEnd = 0, CurvedFlight = 0, Waypoints = [Waypoint_default]\<rparr>"]
    by (simp add: b52)
qed

text \<open>
  C1 (as amended).  For \<open>CoreTelemetry\<close>, \<open>ExtendedTelemetry\<close>, \<open>Acknowledgment\<close>,
  \<open>MessageString\<close>, \<open>EmergencyCommand\<close> and \<open>CameraControl\<close> (a string field short enough
  for the 32-bit size field), \<open>Serialize\<close> into a packet followed by \<open>Deserialize\<close>
  succeeds and yields the value itself, every field with the same bit pattern; the value is
  equal to itself under \<open>operator==\<close> exactly when none of its floating-point fields is a
  NaN.

  For \<open>VirtualStickCommand\<close> the round trip succeeds and yields the value with \<open>Yaw\<close>
  replaced by the wrapped degrees value converted back to radians; the result equals the
  original under \<open>operator==\<close> exactly when that yaw equals the original one and no
  other floating-point field is a NaN.

  For \<open>ExecuteWaypointMission\<close> with at least one waypoint (and a length that fits the
  size field) the round trip succeeds and yields the mission with every waypoint's
  latitude, longitude and gimbal pitch converted to degrees and back, the other fields
  unchanged; it equals the original under \<open>operator==\<close> exactly when, in every waypoint,
  the three converted fields equal the original ones and no other floating-point field is
  a NaN, which a waypoint whose \<open>LoiterTime\<close> is the NaN sentinel never satisfies.  A
  mission with no waypoints serializes to a packet that \<open>Deserialize\<close> rejects, leaving the
  target as it was.

  The statements hold for every floating-point unit \<open>fp\<close>.  Under IEEE 754 arithmetic the
  conditions on the converted fields do fail for ordinary values (a yaw of -7 rad, a
  latitude of 0.03 rad) and do hold for others (0.5 rad): see the counterexample and the
  witness.
\<close>

theorem roundtrip:
  "Packet_CoreTelemetry_Deserialize (Packet_CoreTelemetry_Serialize ct p) ct' = Some (True, ct)
   \<and> Packet_CoreTelemetry_eq ct ct =
     (\<not> isnan64 (Packet_CoreTelemetry.Latitude ct) \<and> \<not> isnan64 (Packet_CoreTelemetry.Longitude ct)
      \<and> \<not> isnan64 (Packet_CoreTelemetry.Altitude ct) \<and> \<not> isnan64 (Packet_CoreTelemetry.HAG ct)
      \<and> \<not> isnan32 (Packet_CoreTelemetry.V_N ct) \<and> \<not> isnan32 (Packet_CoreTelemetry.V_E ct)
      \<and> \<not> isnan32 (Packet_CoreTelemetry.V_D ct) \<and> \<not> isnan64 (Packet_CoreTelemetry.Yaw ct)
      \<and> \<not> isnan64 (Packet_CoreTelemetry.Pitch ct) \<and> \<not> isnan64 (Packet_CoreTelemetry.Roll ct))
   \<and> (length (Packet_ExtendedTelemetry.DroneSerial et) + 25 < 2 ^ 32 \<longrightarrow>
        Packet_ExtendedTelemetry_Deserialize (Packet_ExtendedTelemetry_Serialize et p) et'
          = Some (True, et))
   \<and> Packet_ExtendedTelemetry_eq et et
   \<and> Packet_Acknowledgment_Deserialize (Packet_Acknowledgment_Serialize ak p) ak' = Some (True, ak)
   \<and> Packet_Acknowledgment_eq ak ak
   \<and> (length (Packet_MessageString.Message ms) + 14 < 2 ^ 32 \<longrightarrow>
        Packet_MessageString_Deserialize (Packet_MessageString_Serialize ms p) ms' = Some (True, ms))
   \<and> Packet_MessageString_eq ms ms
   \<and> Packet_EmergencyCommand_Deserialize (Packet_EmergencyCommand_Serialize ec p) ec'
        = Some (True, ec)
   \<and> Packet_EmergencyCommand_eq ec ec
   \<and> Packet_CameraControl_Deserialize (Packet_CameraControl_Serialize cc p) cc' = Some (True, cc)
   \<and> Packet_CameraControl_eq cc cc = (\<not> isnan32 (Packet_CameraControl.TargetFPS cc))
   \<and> Packet_VirtualStickCommand_Deserialize fp (Packet_VirtualStickCommand_Serialize fp vs p) vs'
        = Some (True, vs\<lparr>Packet_VirtualStickCommand.Yaw :=
            rad_of_deg32 fp (yaw_deg_of fp (Packet_VirtualStickCommand.Yaw vs))\<rparr>)
   \<and> Packet_VirtualStickCommand_eq
         (vs\<lparr>Packet_VirtualStickCommand.Yaw :=
            rad_of_deg32 fp (yaw_deg_of fp (Packet_VirtualStickCommand.Yaw vs))\<rparr>) vs
        = (float32_eq (rad_of_deg32 fp (yaw_deg_of fp (Packet_VirtualStickCommand.Yaw vs)))
             (Packet_VirtualStickCommand.Yaw vs)
           \<and> \<not> isnan32 (Packet_VirtualStickCommand.V_x vs)
           \<and> \<not> isnan32 (Packet_VirtualStickCommand.V_y vs)
           \<and> \<not> isnan32 (Packet_VirtualStickCommand.HAG vs)
           \<and> \<not> isnan32 (Packet_VirtualStickCommand.timeout vs))
   \<and> (Waypoints wm \<noteq> [] \<and> 11 + 40 * length (Waypoints wm) < 2 ^ 32 \<longrightarrow>
        Packet_ExecuteWaypointMission_Deserialize fp
          (Packet_ExecuteWaypointMission_Serialize fp wm p) wm'
        = Some (True, wm\<lparr>Waypoints := map (wire_trip fp) (Waypoints wm)\<rparr>))
   \<and> Packet_ExecuteWaypointMission_eq (wm\<lparr>Waypoints := map (wire_trip fp) (Waypoints wm)\<rparr>) wm
        = list_all (\<lambda>w. Waypoint_eq (wire_trip fp w) w) (Waypoints wm)
   \<and> Waypoint_eq (wire_trip fp w) w
        = (float64_eq (rad_of_deg64 fp (deg_of_rad64 fp (Waypoint.Latitude w))) (Waypoint.Latitude w)
           \<and> float64_eq (rad_of_deg64 fp (deg_of_rad64 fp (Waypoint.Longitude w)))
                 (Waypoint.Longitude w)
           \<and> \<not> isnan64 (Waypoint.RelAltitude w)
           \<and> \<not> isnan32 (Waypoint.CornerRadius w)
           \<and> \<not> isnan32 (Waypoint.Speed w)
           \<and> \<not> isnan32 (Waypoint.LoiterTime w)
           \<and> float32_eq (rad_of_deg32 fp (deg_of_rad32 fp (Waypoint.GimbalPitch w)))
                 (Waypoint.GimbalPitch w))
   \<and> (isnan32 (Waypoint.LoiterTime w) \<longrightarrow> \<not> Waypoint_eq (wire_trip fp w) w)
   \<and> (Waypoints wm = [] \<longrightarrow>
        Packet_ExecuteWaypointMission_Deserialize fp
          (Packet_ExecuteWaypointMission_Serialize fp wm p) wm' = Some (False, wm'))"
proof (intro conjI impI)
  show "Packet_CoreTelemetry_Deserialize (Packet_CoreTelemetry_Serialize ct p) ct' = Some (True, ct)"
    by (rule CoreTelemetry_roundtrip)
  show "Packet_CoreTelemetry_eq ct ct =
     (\<not> isnan64 (Packet_CoreTelemetry.Latitude ct) \<and> \<not> isnan64 (Packet_CoreTelemetry.Longitude ct)
      \<and> \<not> isnan64 (Packet_CoreTelemetry.Altitude ct) \<and> \<not> isnan64 (Packet_CoreTelemetry.HAG ct)
      \<and> \<not> isnan32 (Packet_CoreTelemetry.V_N ct) \<and> \<not> isnan32 (Packet_CoreTelemetry.V_E ct)
      \<and> \<not> isnan32 (Packet_CoreTelemetry.V_D ct) \<and> \<not> isnan64 (Packet_CoreTelemetry.Yaw ct)
      \<and> \<not> isnan64 (Packet_CoreTelemetry.Pitch ct) \<and> \<not> isnan64 (Packet_CoreTelemetry.Roll ct))"
    by (rule CoreTelemetry_eq_refl)
  show "Packet_ExtendedTelemetry_Deserialize (Packet_ExtendedTelemetry_Serialize et p) et'
          = Some (True, et)"
    if "length (Packet_ExtendedTelemetry.DroneSerial et) + 25 < 2 ^ 32"
    using that by (rule ExtendedTelemetry_roundtrip)
  show "Packet_ExtendedTelemetry_eq et et"
    by (simp add: Packet_ExtendedTelemetry_eq_def)
  show "Packet_Acknowledgment_Deserialize (Packet_Acknowledgment_Serialize ak p) ak' = Some (True, ak)"
    by (rule Acknowledgment_roundtrip)
  show "Packet_Acknowledgment_eq ak ak"
    by (simp add: Packet_Acknowledgment_eq_def)
  show "Packet_MessageString_Deserialize (Packet_MessageString_Serialize ms p) ms' = Some (True, ms)"
    if "length (Packet_MessageString.Message ms) + 14 < 2 ^ 32"
    using that by (rule MessageString_roundtrip)
  show "Packet_MessageString_eq ms ms"
    by (simp add: Packet_MessageString_eq_def)
  show "Packet_EmergencyCommand_Deserialize (Packet_EmergencyCommand_Serialize ec p) ec'
        = Some (True, ec)"
    by (rule EmergencyCommand_roundtrip)
  show "Packet_EmergencyCommand_eq ec ec"
    by (simp add: Packet_EmergencyCommand_eq_def)
  show "Packet_CameraControl_Deserialize (Packet_CameraControl_Serialize cc p) cc' = Some (True, cc)"
    by (rule CameraControl_roundtrip)
  show "Packet_CameraControl_eq cc cc = (\<not> isnan32 (Packet_CameraControl.TargetFPS cc))"
    by (simp add: Packet_CameraControl_eq_def float32_eq_refl)
  show "Packet_VirtualStickCommand_Deserialize fp (Packet_VirtualStickCommand_Serialize fp vs p) vs'
        = Some (True, vs\<lparr>Packet_VirtualStickCommand.Yaw :=
            rad_of_deg32 fp (yaw_deg_of fp (Packet_VirtualStickCommand.Yaw vs))\<rparr>)"
    by (rule VirtualStickCommand_roundtrip')
  show "Packet_VirtualStickCommand_eq
         (vs\<lparr>Packet_VirtualStickCommand.Yaw :=
            rad_of_deg32 fp (yaw_deg_of fp (Packet_VirtualStickCommand.Yaw vs))\<rparr>) vs
        = (float32_eq (rad_of_deg32 fp (yaw_deg_of fp (Packet_VirtualStickCommand.Yaw vs)))
             (Packet_VirtualStickCommand.Yaw vs)
           \<and> \<not> isnan32 (Packet_VirtualStickCommand.V_x vs)
           \<and> \<not> isnan32 (Packet_VirtualStickCommand.V_y vs)
           \<and> \<not> isnan32 (Packet_VirtualStickCommand.HAG vs)
           \<and> \<not> isnan32 (Packet_VirtualStickCommand.timeout vs))"
    by (rule VirtualStickCommand_eq_trip)
  show "Packet_ExecuteWaypointMission_Deserialize fp
          (Packet_ExecuteWaypointMission_Serialize fp wm p) wm'
        = Some (True, wm\<lparr>Waypoints := map (wire_trip fp) (Waypoints wm)\<rparr>)"
    if "Waypoints wm \<noteq> [] \<and> 11 + 40 * length (Waypoints wm) < 2 ^ 32"
    using that by (intro ExecuteWaypointMission_roundtrip) simp_all
  show "Packet_ExecuteWaypointMission_eq (wm\<lparr>Waypoints := map (wire_trip fp) (Waypoints wm)\<rparr>) wm
        = list_all (\<lambda>w. Waypoint_eq (wire_trip fp w) w) (Waypoints wm)"
    by (rule ExecuteWaypointMission_eq_map)
  show "Waypoint_eq (wire_trip fp w) w
        = (float64_eq (rad_of_deg64 fp (deg_of_rad64 fp (Waypoint.Latitude w))) (Waypoint.Latitude w)
           \<and> float64_eq (rad_of_deg64 fp (deg_of_rad64 fp (Waypoint.Longitude w)))
                 (Waypoint.Longitude w)
           \<and> \<not> isnan64 (Waypoint.RelAltitude w)
           \<and> \<not> isnan32 (Waypoint.CornerRadius w)
           \<and> \<not> isnan32 (Waypoint.Speed w)
           \<and> \<not> isnan32 (Waypoint.LoiterTime w)
           \<and> float32_eq (rad_of_deg32 fp (deg_of_rad32 fp (Waypoint.GimbalPitch w)))
                 (Waypoint.GimbalPitch w))"
    by (rule Waypoint_eq_trip)
  show "\<not> Waypoint_eq (wire_trip fp w) w" if "isnan32 (Waypoint.LoiterTime w)"
    using that by (rule Waypoint_eq_nan)
  show "Packet_ExecuteWaypointMission_Deserialize fp
          (Packet_ExecuteWaypointMission_Serialize fp wm p) wm' = Some (False, wm')"
    if "Waypoints wm = []"
    using that by (rule ExecuteWaypointMission_empty)
qed

text \<open>
  C1 as stated fails on four inputs.  The mission with an empty waypoint list does not
  deserialize from its own packet (11 bytes, below the minimum of 51).  The mission
  holding one default-constructed waypoint (\<open>LoiterTime\<close> and \<open>GimbalPitch\<close> NaN)
  deserializes to a value that is not equal to it under \<open>operator==\<close>, whatever the
  floating-point unit computes.  Under IEEE 754 arithmetic, the virtual-stick command with
  a yaw of -7 rad (\<open>0xC0E00000\<close>) carries -41.07 degrees on the wire and comes back with
  a yaw of -0.7168 rad (\<open>0xBF37812D\<close>); and the mission whose only waypoint has the
  latitude 0.03 rad (\<open>0x3F9EB851EB851EB8\<close>) and no NaN field comes back with the latitude
  one unit in the last place lower (\<open>0x3F9EB851EB851EB7\<close>).  Neither result equals the
  original under \<open>operator==\<close>.
\<close>

theorem roundtrip_counterexample:
  "\<forall>fp p this vs'.
     Packet_ExecuteWaypointMission_Deserialize fp
       (Packet_ExecuteWaypointMission_Serialize fp
          \<lparr>LandAtEnd = 0, CurvedFlight = 0, Waypoints = []\<rparr> p) this = Some (False, this)
     \<and> Packet_ExecuteWaypointMission_Deserialize fp
         (Packet_ExecuteWaypointMission_Serialize fp
            \<lparr>LandAtEnd = 0, CurvedFlight = 0, Waypoints = [Waypoint_default]\<rparr> p) this
       = Some (True, \<lparr>LandAtEnd = 0, CurvedFlight = 0,
                       Waypoints = [wire_trip fp Waypoint_default]\<rparr>)
     \<and> \<not> Packet_ExecuteWaypointMission_eq
           \<lparr>LandAtEnd = 0, CurvedFlight = 0, Waypoints = [wire_trip fp Waypoint_default]\<rparr>
           \<lparr>LandAtEnd = 0, CurvedFlight = 0, Waypoints = [Waypoint_default]\<rparr>
     \<and> Packet_VirtualStickCommand_Deserialize ieee
         (Packet_VirtualStickCommand_Serialize ieee
            \<lparr>Mode = 1, Yaw = 0xC0E00000, V_x = 0, V_y = 0, HAG = 0x41200000, timeout = 0x3F800000\<rparr> p) vs'
       = Some (True, \<lparr>Mode = 1, Yaw = 0xBF37812D, V_x = 0, V_y = 0, HAG = 0x41200000, timeout = 0x3F800000\<rparr>)
     \<and> \<not> Packet_VirtualStickCommand_eq
           \<lparr>Mode = 1, Yaw = 0xBF37812D, V_x = 0, V_y = 0, HAG = 0x41200000, timeout = 0x3F800000\<rparr>
           \<lparr>Mode = 1, Yaw = 0xC0E00000, V_x = 0, V_y = 0, HAG = 0x41200000, timeout = 0x3F800000\<rparr>
     \<and> Packet_ExecuteWaypointMission_Deserialize ieee
         (Packet_ExecuteWaypointMission_Serialize ieee
            \<lparr>LandAtEnd = 0, CurvedFlight = 0,
            Waypoints = [\<lparr>Waypoint.Latitude = 0x3F9EB851EB851EB8, Waypoint.Longitude = 0,
              Waypoint.RelAltitude = 0x4024000000000000, Waypoint.CornerRadius = 0x3E4CCCCD,
              Waypoint.Speed = 0x3F800000, Waypoint.LoiterTime = 0,
              Waypoint.GimbalPitch = 0\<rparr>]\<rparr> p) this
       = Some (True, \<lparr>LandAtEnd = 0, CurvedFlight = 0,
            Waypoints = [\<lparr>Waypoint.Latitude = 0x3F9EB851EB851EB7, Waypoint.Longitude = 0,
              Waypoint.RelAltitude = 0x4024000000000000, Waypoint.CornerRadius = 0x3E4CCCCD,
              Waypoint.Speed = 0x3F800000, Waypoint.LoiterTime = 0,
              Waypoint.GimbalPitch = 0\<rparr>]\<rparr>)
     \<and> \<not> Packet_ExecuteWaypointMission_eq
           \<lparr>LandAtEnd = 0, CurvedFlight = 0,
            Waypoints = [\<lparr>Waypoint.Latitude = 0x3F9EB851EB851EB7, Waypoint.Longitude = 0,
              Waypoint.RelAltitude = 0x4024000000000000, Waypoint.CornerRadius = 0x3E4CCCCD,
              Waypoint.Speed = 0x3F800000, Waypoint.LoiterTime = 0,
              Waypoint.GimbalPitch = 0\<rparr>]\<rparr>
           \<lparr>LandAtEnd = 0, CurvedFlight = 0,
            Waypoints = [\<lparr>Waypoint.Latitude = 0x3F9EB851EB851EB8, Waypoint.Longitude = 0,
              Waypoint.RelAltitude = 0x4024000000000000, Waypoint.CornerRadius = 0x3E4CCCCD,
              Waypoint.Speed = 0x3F800000, Waypoint.LoiterTime = 0,
              Waypoint.GimbalPitch = 0\<rparr>]\<rparr>"
proof (intro allI conjI)
  fix fp p this vs'
  show "Packet_ExecuteWaypointMission_Deserialize fp
       (Packet_ExecuteWaypointMission_Serialize fp
          \<lparr>LandAtEnd = 0, CurvedFlight = 0, Waypoints = []\<rparr> p) this = Some (False, this)"
    by (rule ExecuteWaypointMission_empty) simp
  show "Packet_ExecuteWaypointMission_Deserialize fp
         (Packet_ExecuteWaypointMission_Serialize fp
            \<lparr>LandAtEnd = 0, CurvedFlight = 0, Waypoints = [Waypoint_default]\<rparr> p) this
       = Some (True, \<lparr>LandAtEnd = 0, CurvedFlight = 0,
                       Waypoints = [wire_trip fp Waypoint_default]\<rparr>)"
    using ExecuteWaypointMission_roundtrip [of
        "\<lparr>LandAtEnd = 0, CurvedFlight = 0, Waypoints = [Waypoint_default]\<rparr>" fp p this]
    by simp
  show "\<not> Packet_ExecuteWaypointMission_eq
           \<lparr>LandAtEnd = 0, CurvedFlight = 0, Waypoints = [wire_trip fp Waypoint_default]\<rparr>
           \<lparr>LandAtEnd = 0, CurvedFlight = 0, Waypoints = [Waypoint_default]\<rparr>"
    using Waypoint_eq_nan [OF isnan32_default, of "wire_trip fp Waypoint_default"]
    by (simp add: Packet_ExecuteWaypointMission_eq_def)
  show "Packet_VirtualStickCommand_Deserialize ieee
         (Packet_VirtualStickCommand_Serialize ieee
            \<lparr>Mode = 1, Yaw = 0xC0E00000, V_x = 0, V_y = 0, HAG = 0x41200000, timeout = 0x3F800000\<rparr> p) vs'
       = Some (True, \<lparr>Mode = 1, Yaw = 0xBF37812D, V_x = 0, V_y = 0, HAG = 0x41200000, timeout = 0x3F800000\<rparr>)"
    using VirtualStickCommand_roundtrip' [of ieee
        "\<lparr>Mode = 1, Yaw = 0xC0E00000, V_x = 0, V_y = 0, HAG = 0x41200000, timeout = 0x3F800000\<rparr>" p vs']
    by (simp add: yaw_deg_of_wrap deg_of_rad32_minus_7 wrap_180_minus_401 rad_of_deg32_minus_41)
  show "\<not> Packet_VirtualStickCommand_eq
           \<lparr>Mode = 1, Yaw = 0xBF37812D, V_x = 0, V_y = 0, HAG = 0x41200000, timeout = 0x3F800000\<rparr>
           \<lparr>Mode = 1, Yaw = 0xC0E00000, V_x = 0, V_y = 0, HAG = 0x41200000, timeout = 0x3F800000\<rparr>"
    by (simp add: Packet_VirtualStickCommand_eq_def float32_eq_def)
  show "Packet_ExecuteWaypointMission_Deserialize ieee
         (Packet_ExecuteWaypointMission_Serialize ieee
            \<lparr>LandAtEnd = 0, CurvedFlight = 0,
            Waypoints = [\<lparr>Waypoint.Latitude = 0x3F9EB851EB851EB8, Waypoint.Longitude = 0,
              Waypoint.RelAltitude = 0x4024000000000000, Waypoint.CornerRadius = 0x3E4CCCCD,
              Waypoint.Speed = 0x3F800000, Waypoint.LoiterTime = 0,
              Waypoint.GimbalPitch = 0\<rparr>]\<rparr> p) this
       = Some (True, \<lparr>LandAtEnd = 0, CurvedFlight = 0,
            Waypoints = [\<lparr>Waypoint.Latitude = 0x3F9EB851EB851EB7, Waypoint.Longitude = 0,
              Waypoint.RelAltitude = 0x4024000000000000, Waypoint.CornerRadius = 0x3E4CCCCD,
              Waypoint.Speed = 0x3F800000, Waypoint.LoiterTime = 0,
              Waypoint.GimbalPitch = 0\<rparr>]\<rparr>)"
    using ExecuteWaypointMission_roundtrip [of
        "\<lparr>LandAtEnd = 0, CurvedFlight = 0,
            Waypoints = [\<lparr>Waypoint.Latitude = 0x3F9EB851EB851EB8, Waypoint.Longitude = 0,
              Waypoint.RelAltitude = 0x4024000000000000, Waypoint.CornerRadius = 0x3E4CCCCD,
              Waypoint.Speed = 0x3F800000, Waypoint.LoiterTime = 0,
              Waypoint.GimbalPitch = 0\<rparr>]\<rparr>" ieee p this]
    by (simp add: wire_trip_def deg_of_rad64_003 rad_of_deg64_003 deg_of_rad64_zero
        rad_of_deg64_zero deg_of_rad32_zero rad_of_deg32_zero)
  show "\<not> Packet_ExecuteWaypointMission_eq
           \<lparr>LandAtEnd = 0, CurvedFlight = 0,
            Waypoints = [\<lparr>Waypoint.Latitude = 0x3F9EB851EB851EB7, Waypoint.Longitude = 0,
              Waypoint.RelAltitude = 0x4024000000000000, Waypoint.CornerRadius = 0x3E4CCCCD,
              Waypoint.Speed = 0x3F800000, Waypoint.LoiterTime = 0,
              Waypoint.GimbalPitch = 0\<rparr>]\<rparr>
           \<lparr>LandAtEnd = 0, CurvedFlight = 0,
            Waypoints = [\<lparr>Waypoint.Latitude = 0x3F9EB851EB851EB8, Waypoint.Longitude = 0,
              Waypoint.RelAltitude = 0x4024000000000000, Waypoint.CornerRadius = 0x3E4CCCCD,
              Waypoint.Speed = 0x3F800000, Waypoint.LoiterTime = 0,
              Waypoint.GimbalPitch = 0\<rparr>]\<rparr>"
    by (simp add: Packet_ExecuteWaypointMission_eq_def Waypoint_eq_def float64_eq_def)
qed

theorem roundtrip_witness:
  "\<forall>fp p.
     Packet_ExtendedTelemetry_Deserialize
       (Packet_ExtendedTelemetry_Serialize
          \<lparr>GNSSSatCount = 12, GNSSSignal = 5, MaxHeight = 120, MaxDist = 200, BatLevel = 87,
           BatWarning = 0, WindLevel = 1, DJICam = 1, FlightMode = 6, MissionID = 3,
           DroneSerial = ''SN1''\<rparr> p)
       \<lparr>GNSSSatCount = 0, GNSSSignal = 0, MaxHeight = 0, MaxDist = 0, BatLevel = 0,
        BatWarning = 0, WindLevel = 0, DJICam = 0, FlightMode = 0, MissionID = 0,
        DroneSerial = []\<rparr>
     = Some (True,
          \<lparr>GNSSSatCount = 12, GNSSSignal = 5, MaxHeight = 120, MaxDist = 200, BatLevel = 87,
           BatWarning = 0, WindLevel = 1, DJICam = 1, FlightMode = 6, MissionID = 3,
           DroneSerial = ''SN1''\<rparr>)
     \<and> Packet_MessageString_Deserialize
         (Packet_MessageString_Serialize \<lparr>Type = 1, Message = ''hi''\<rparr> p)
         \<lparr>Type = 0, Message = []\<rparr>
       = Some (True, \<lparr>Type = 1, Message = ''hi''\<rparr>)
     \<and> Packet_ExecuteWaypointMission_Deserialize fp
         (Packet_ExecuteWaypointMission_Serialize fp
            \<lparr>LandAtEnd = 1, CurvedFlight = 0, Waypoints = [Waypoint_default]\<rparr> p)
         \<lparr>LandAtEnd = 0, CurvedFlight = 0, Waypoints = []\<rparr>
       = Some (True, \<lparr>LandAtEnd = 1, CurvedFlight = 0,
                       Waypoints = [wire_trip fp Waypoint_default]\<rparr>)
     \<and> \<not> Waypoint_eq (wire_trip fp Waypoint_default) Waypoint_default
     \<and> Packet_ExecuteWaypointMission_Deserialize fp
         (Packet_ExecuteWaypointMission_Serialize fp
            \<lparr>LandAtEnd = 1, CurvedFlight = 0, Waypoints = []\<rparr> p)
         \<lparr>LandAtEnd = 0, CurvedFlight = 0, Waypoints = [Waypoint_default]\<rparr>
       = Some (False, \<lparr>LandAtEnd = 0, CurvedFlight = 0, Waypoints = [Waypoint_default]\<rparr>)
     \<and> Packet_VirtualStickCommand_Deserialize ieee
         (Packet_VirtualStickCommand_Serialize ieee
            \<lparr>Mode = 1, Yaw = 0x3F000000, V_x = 0, V_y = 0, HAG = 0x41200000, timeout = 0x3F800000\<rparr> p)
         \<lparr>Mode = 1, Yaw = 0xC0E00000, V_x = 0, V_y = 0, HAG = 0x41200000, timeout = 0x3F800000\<rparr>
       = Some (True, \<lparr>Mode = 1, Yaw = 0x3F000000, V_x = 0, V_y = 0, HAG = 0x41200000, timeout = 0x3F800000\<rparr>)
     \<and> Packet_VirtualStickCommand_eq
         \<lparr>Mode = 1, Yaw = 0x3F000000, V_x = 0, V_y = 0, HAG = 0x41200000, timeout = 0x3F800000\<rparr>
         \<lparr>Mode = 1, Yaw = 0x3F000000, V_x = 0, V_y = 0, HAG = 0x41200000, timeout = 0x3F800000\<rparr>
     \<and> Packet_ExecuteWaypointMission_Deserialize ieee
         (Packet_ExecuteWaypointMission_Serialize ieee
            \<lparr>LandAtEnd = 0, CurvedFlight = 0,
            Waypoints = [\<lparr>Waypoint.Latitude = 0x3FE0000000000000, Waypoint.Longitude = 0,
              Waypoint.RelAltitude = 0x4024000000000000, Waypoint.CornerRadius = 0x3E4CCCCD,
              Waypoint.Speed = 0x3F800000, Waypoint.LoiterTime = 0,
              Waypoint.GimbalPitch = 0\<rparr>]\<rparr> p)
         \<lparr>LandAtEnd = 0, CurvedFlight = 0, Waypoints = []\<rparr>
       = Some (True, \<lparr>LandAtEnd = 0, CurvedFlight = 0,
            Waypoints = [\<lparr>Waypoint.Latitude = 0x3FE0000000000000, Waypoint.Longitude = 0,
              Waypoint.RelAltitude = 0x4024000000000000, Waypoint.CornerRadius = 0x3E4CCCCD,
              Waypoint.Speed = 0x3F800000, Waypoint.LoiterTime = 0,
              Waypoint.GimbalPitch = 0\<rparr>]\<rparr>)
     \<and> Packet_ExecuteWaypointMission_eq
         \<lparr>LandAtEnd = 0, CurvedFlight = 0,
            Waypoints = [\<lparr>Waypoint.Latitude = 0x3FE0000000000000, Waypoint.Longitude = 0,
              Waypoint.RelAltitude = 0x4024000000000000, Waypoint.CornerRadius = 0x3E4CCCCD,
              Waypoint.Speed = 0x3F800000, Waypoint.LoiterTime = 0,
              Waypoint.GimbalPitch = 0\<rparr>]\<rparr>
         \<lparr>LandAtEnd = 0, CurvedFlight = 0,
            Waypoints = [\<lparr>Waypoint.Latitude = 0x3FE0000000000000, Waypoint.Longitude = 0,
              Waypoint.RelAltitude = 0x4024000000000000, Waypoint.CornerRadius = 0x3E4CCCCD,
              Waypoint.Speed = 0x3F800000, Waypoint.LoiterTime = 0,
              Waypoint.GimbalPitch = 0\<rparr>]\<rparr>"
proof (intro allI)
  fix fp p
  note r1 = roundtrip [where fp = fp and p = p and w = Waypoint_default
      and et = "\<lparr>GNSSSatCount = 12, GNSSSignal = 5, MaxHeight = 120, MaxDist = 200, BatLevel = 87,
           BatWarning = 0, WindLevel = 1, DJICam = 1, FlightMode = 6, MissionID = 3,
           DroneSerial = ''SN1''\<rparr>"
      and et' = "\<lparr>GNSSSatCount = 0, GNSSSignal = 0, MaxHeight = 0, MaxDist = 0, BatLevel = 0,
        BatWarning = 0, WindLevel = 0, DJICam = 0, FlightMode = 0, MissionID = 0,
        DroneSerial = []\<rparr>"
      and ms = "\<lparr>Type = 1, Message = ''hi''\<rparr>" and ms' = "\<lparr>Type = 0, Message = []\<rparr>"
      and wm = "\<lparr>LandAtEnd = 1, CurvedFlight = 0, Waypoints = [Waypoint_default]\<rparr>"
      and wm' = "\<lparr>LandAtEnd = 0, CurvedFlight = 0, Waypoints = []\<rparr>"]
  note r2 = roundtrip [where fp = fp and p = p
      and wm = "\<lparr>LandAtEnd = 1, CurvedFlight = 0, Waypoints = []\<rparr>"
      and wm' = "\<lparr>LandAtEnd = 0, CurvedFlight = 0, Waypoints = [Waypoint_default]\<rparr>"]
  note r3 = roundtrip [where fp = ieee and p = p
      and vs = "\<lparr>Mode = 1, Yaw = 0x3F000000, V_x = 0, V_y = 0, HAG = 0x41200000, timeout = 0x3F800000\<rparr>"
      and vs' = "\<lparr>Mode = 1, Yaw = 0xC0E00000, V_x = 0, V_y = 0, HAG = 0x41200000, timeout = 0x3F800000\<rparr>"
      and w = "\<lparr>Waypoint.Latitude = 0x3FE0000000000000, Waypoint.Longitude = 0,
              Waypoint.RelAltitude = 0x4024000000000000, Waypoint.CornerRadius = 0x3E4CCCCD,
              Waypoint.Speed = 0x3F800000, Waypoint.LoiterTime = 0,
              Waypoint.GimbalPitch = 0\<rparr>"
      and wm = "\<lparr>LandAtEnd = 0, CurvedFlight = 0,
            Waypoints = [\<lparr>Waypoint.Latitude = 0x3FE0000000000000, Waypoint.Longitude = 0,
              Waypoint.RelAltitude = 0x4024000000000000, Waypoint.CornerRadius = 0x3E4CCCCD,
              Waypoint.Speed = 0x3F800000, Waypoint.LoiterTime = 0,
              Waypoint.GimbalPitch = 0\<rparr>]\<rparr>"
      and wm' = "\<lparr>LandAtEnd = 0, CurvedFlight = 0, Waypoints = []\<rparr>"]
  have h: "length ''SN1'' + 25 < (2::nat) ^ 32" "length ''hi'' + 14 < (2::nat) ^ 32"
    "11 + 40 * length [Waypoint_default] < (2::nat) ^ 32"
    by simp_all
  show "Packet_ExtendedTelemetry_Deserialize
       (Packet_ExtendedTelemetry_Serialize
          \<lparr>GNSSSatCount = 12, GNSSSignal = 5, MaxHeight = 120, MaxDist = 200, BatLevel = 87,
           BatWarning = 0, WindLevel = 1, DJICam = 1, FlightMode = 6, MissionID = 3,
           DroneSerial = ''SN1''\<rparr> p)
       \<lparr>GNSSSatCount = 0, GNSSSignal = 0, MaxHeight = 0, MaxDist = 0, BatLevel = 0,
        BatWarning = 0, WindLevel = 0, DJICam = 0, FlightMode = 0, MissionID = 0,
        DroneSerial = []\<rparr>
     = Some (True,
          \<lparr>GNSSSatCount = 12, GNSSSignal = 5, MaxHeight = 120, MaxDist = 200, BatLevel = 87,
           BatWarning = 0, WindLevel = 1, DJICam = 1, FlightMode = 6, MissionID = 3,
           DroneSerial = ''SN1''\<rparr>)
     \<and> Packet_MessageString_Deserialize
         (Packet_MessageString_Serialize \<lparr>Type = 1, Message = ''hi''\<rparr> p)
         \<lparr>Type = 0, Message = []\<rparr>
       = Some (True, \<lparr>Type = 1, Message = ''hi''\<rparr>)
     \<and> Packet_ExecuteWaypointMission_Deserialize fp
         (Packet_ExecuteWaypointMission_Serialize fp
            \<lparr>LandAtEnd = 1, CurvedFlight = 0, Waypoints = [Waypoint_default]\<rparr> p)
         \<lparr>LandAtEnd = 0, CurvedFlight = 0, Waypoints = []\<rparr>
       = Some (True, \<lparr>LandAtEnd = 1, CurvedFlight = 0,
                       Waypoints = [wire_trip fp Waypoint_default]\<rparr>)
     \<and> \<not> Waypoint_eq (wire_trip fp Waypoint_default) Waypoint_default
     \<and> Packet_ExecuteWaypointMission_Deserialize fp
         (Packet_ExecuteWaypointMission_Serialize fp
            \<lparr>LandAtEnd = 1, CurvedFlight = 0, Waypoints = []\<rparr> p)
         \<lparr>LandAtEnd = 0, CurvedFlight = 0, Waypoints = [Waypoint_default]\<rparr>
       = Some (False, \<lparr>LandAtEnd = 0, CurvedFlight = 0, Waypoints = [Waypoint_default]\<rparr>)
     \<and> Packet_VirtualStickCommand_Deserialize ieee
         (Packet_VirtualStickCommand_Serialize ieee
            \<lparr>Mode = 1, Yaw = 0x3F000000, V_x = 0, V_y = 0, HAG = 0x41200000, timeout = 0x3F800000\<rparr> p)
         \<lparr>Mode = 1, Yaw = 0xC0E00000, V_x = 0, V_y = 0, HAG = 0x41200000, timeout = 0x3F800000\<rparr>
       = Some (True, \<lparr>Mode = 1, Yaw = 0x3F000000, V_x = 0, V_y = 0, HAG = 0x41200000, timeout = 0x3F800000\<rparr>)
     \<and> Packet_VirtualStickCommand_eq
         \<lparr>Mode = 1, Yaw = 0x3F000000, V_x = 0, V_y = 0, HAG = 0x41200000, timeout = 0x3F800000\<rparr>
         \<lparr>Mode = 1, Yaw = 0x3F000000, V_x = 0, V_y = 0, HAG = 0x41200000, timeout = 0x3F800000\<rparr>
     \<and> Packet_ExecuteWaypointMission_Deserialize ieee
         (Packet_ExecuteWaypointMission_Serialize ieee
            \<lparr>LandAtEnd = 0, CurvedFlight = 0,
            Waypoints = [\<lparr>Waypoint.Latitude = 0x3FE0000000000000, Waypoint.Longitude = 0,
              Waypoint.RelAltitude = 0x4024000000000000, Waypoint.CornerRadius = 0x3E4CCCCD,
              Waypoint.Speed = 0x3F800000, Waypoint.LoiterTime = 0,
              Waypoint.GimbalPitch = 0\<rparr>]\<rparr> p)
         \<lparr>LandAtEnd = 0, CurvedFlight = 0, Waypoints = []\<rparr>
       = Some (True, \<lparr>LandAtEnd = 0, CurvedFlight = 0,
            Waypoints = [\<lparr>Waypoint.Latitude = 0x3FE0000000000000, Waypoint.Longitude = 0,
              Waypoint.RelAltitude = 0x4024000000000000, Waypoint.CornerRadius = 0x3E4CCCCD,
              Waypoint.Speed = 0x3F800000, Waypoint.LoiterTime = 0,
              Waypoint.GimbalPitch = 0\<rparr>]\<rparr>)
     \<and> Packet_ExecuteWaypointMission_eq
         \<lparr>LandAtEnd = 0, CurvedFlight = 0,
            Waypoints = [\<lparr>Waypoint.Latitude = 0x3FE0000000000000, Waypoint.Longitude = 0,
              Waypoint.RelAltitude = 0x4024000000000000, Waypoint.CornerRadius = 0x3E4CCCCD,
              Waypoint.Speed = 0x3F800000, Waypoint.LoiterTime = 0,
              Waypoint.GimbalPitch = 0\<rparr>]\<rparr>
         \<lparr>LandAtEnd = 0, CurvedFlight = 0,
            Waypoints = [\<lparr>Waypoint.Latitude = 0x3FE0000000000000, Waypoint.Longitude = 0,
              Waypoint.RelAltitude = 0x4024000000000000, Waypoint.CornerRadius = 0x3E4CCCCD,
              Waypoint.Speed = 0x3F800000, Waypoint.LoiterTime = 0,
              Waypoint.GimbalPitch = 0\<rparr>]\<rparr>"
    using r1 r2 r3 h isnan32_default
    by (simp add: yaw_deg_of_wrap deg_of_rad32_half wrap_180_28 rad_of_deg32_28
        wire_trip_def deg_of_rad64_half rad_of_deg64_28 deg_of_rad64_zero
        rad_of_deg64_zero deg_of_rad32_zero rad_of_deg32_zero
        float32_eq_def float64_eq_def isnan32_def isnan64_def)
qed




end
